theory Spec2Isabelle
  imports Complex_Main "HOL-Library.Word"
begin


unbundle bit_operations_syntax

section \<open>JavaScript values used by the parsers\<close>

text \<open>
  A \<open>DataView\<close> is modelled by the list of the bytes it exposes; \<open>byteLength\<close> is the
  length of that list. Every exception the code can raise is a value of \<open>error\<close>:
  the \<open>RangeError\<close> of a \<open>DataView\<close> read outside the view, the \<open>Error\<close> thrown by a
  parser on a short view (with the record name, the actual \<open>byteLength\<close> and the expected
  length that its message interpolates), the \<open>Error\<close> of \<open>sendControlBytes\<close> on an odd
  number of hex digits, the \<open>TypeError\<close> of a property read on \<open>undefined\<close>, the \<open>Error\<close>
  of \<open>subscribeToCharacteristic\<close> for an undiscovered uuid, and a rejected transport
  promise.
\<close>

type_synonym byte = "8 word"
type_synonym data_view = "byte list"

datatype error =
    RangeError
  | InvalidDataLength string nat nat
  | HexStringOddLength
  | TypeError
  | CharacteristicNotFound string
  | TransportError

definition bindE :: "error + 'a \<Rightarrow> ('a \<Rightarrow> error + 'b) \<Rightarrow> error + 'b" where
  "bindE m f = (case m of Inl e \<Rightarrow> Inl e | Inr x \<Rightarrow> f x)"

definition byteLength :: "data_view \<Rightarrow> nat" where
  "byteLength dataView = length dataView"

text \<open>\<open>DataView.prototype.getUint8\<close>: a \<open>RangeError\<close> outside the view.\<close>

definition getUint8 :: "data_view \<Rightarrow> nat \<Rightarrow> error + int" where
  "getUint8 dataView byteOffset =
     (if byteOffset < byteLength dataView then Inr (uint (dataView ! byteOffset))
      else Inl RangeError)"

text \<open>
  \<open>DataView.prototype.getUint16(byteOffset, littleEndian)\<close>: a \<open>RangeError\<close> unless both
  bytes are inside the view; with \<open>littleEndian = true\<close> the byte at the lower offset is
  the low-order byte.
\<close>

definition getUint16 :: "data_view \<Rightarrow> nat \<Rightarrow> bool \<Rightarrow> error + int" where
  "getUint16 dataView byteOffset littleEndian =
     (if byteOffset + 2 \<le> byteLength dataView then
        (let b0 = uint (dataView ! byteOffset); b1 = uint (dataView ! (byteOffset + 1))
         in Inr (if littleEndian then b0 + 256 * b1 else 256 * b0 + b1))
      else Inl RangeError)"

text \<open>
  The JavaScript operator \<open><<\<close>: the left operand is converted to a 32-bit integer, shifted
  by the count modulo 32, and the 32-bit result is read as a signed integer.
\<close>

definition js_shl :: "int \<Rightarrow> nat \<Rightarrow> int" where
  "js_shl x n = sint (push_bit (n mod 32) (word_of_int x :: 32 word))"

subsection \<open>Numbers: IEEE 754 binary64 products\<close>

text \<open>
  A finite JavaScript number is modelled by the rational it denotes. \<open>to_double\<close> rounds a
  rational to the nearest binary64 value, ties to even, for magnitudes in the normal range
  (from \<open>2^-1022\<close> up to, not including, \<open>2^1024\<close>) and for zero; the parsers only multiply
  an integer below \<open>2^24\<close> by one of the literals \<open>0.1\<close>, \<open>0.01\<close>, \<open>0.001\<close>, which stays
  inside that range. A decimal literal denotes the binary64 value nearest to it, and
  \<open>*\<close> is the correctly rounded product.
\<close>

type_synonym js_number = rat

function bit_length :: "int \<Rightarrow> int" where
  "bit_length n = (if n \<le> 0 then 0 else 1 + bit_length (n div 2))"
  by pat_completeness auto
termination
  by (relation "measure nat") auto

declare bit_length.simps [simp del]

definition pow2 :: "int \<Rightarrow> rat" where
  "pow2 e = (if 0 \<le> e then 2 ^ nat e else 1 / 2 ^ nat (- e))"

definition floor_log2 :: "rat \<Rightarrow> int" where
  "floor_log2 x =
     (let (p, q) = quotient_of x;
          d = bit_length p - bit_length q
      in if pow2 d \<le> x then d else d - 1)"

definition round_half_even :: "rat \<Rightarrow> int" where
  "round_half_even x =
     (let f = \<lfloor>x\<rfloor>; d = x - of_int f
      in if d < 1 / 2 then f
         else if 1 / 2 < d then f + 1
         else if even f then f else f + 1)"

definition to_double :: "rat \<Rightarrow> js_number" where
  "to_double x =
     (if x = 0 then 0
      else let ulp = pow2 (floor_log2 \<bar>x\<bar> - 52)
           in sgn x * of_int (round_half_even (\<bar>x\<bar> / ulp)) * ulp)"

definition js_times :: "js_number \<Rightarrow> js_number \<Rightarrow> js_number" where
  "js_times x y = to_double (x * y)"

definition lit_0_1 :: js_number where
  "lit_0_1 = to_double (1 / 10)"

definition lit_0_01 :: js_number where
  "lit_0_01 = to_double (1 / 100)"

definition lit_0_001 :: js_number where
  "lit_0_001 = to_double (1 / 1000)"

section \<open>parsers.js\<close>

definition readInt16LE :: "data_view \<Rightarrow> nat \<Rightarrow> error + int" where
  "readInt16LE dataView offset = getUint16 dataView offset True"

definition readInt24LE :: "data_view \<Rightarrow> nat \<Rightarrow> error + int" where
  "readInt24LE dataView offset =
     bindE (getUint8 dataView offset) (\<lambda>b0.
     bindE (getUint8 dataView (offset + 1)) (\<lambda>b1.
     bindE (getUint8 dataView (offset + 2)) (\<lambda>b2.
     Inr (b0 + js_shl b1 8 + js_shl b2 16))))"

record general_status =
  elapsed_time :: js_number
  distance :: js_number
  workout_type :: int
  interval_type :: int
  workout_state :: int
  rowing_state :: int
  stroke_state :: int
  total_work_distance :: int
  workout_duration :: int
  workout_duration_type :: int
  drag_factor :: int

definition parseGeneralStatus :: "data_view \<Rightarrow> bool \<Rightarrow> error + general_status" where
  "parseGeneralStatus dataView isMultiplexed =
     (let offset = (if isMultiplexed then 1 else 0) in
      if byteLength dataView < 19 + offset
      then Inl (InvalidDataLength ''general status'' (byteLength dataView) (19 + offset))
      else
        bindE (readInt24LE dataView (offset + 0)) (\<lambda>v0.
        bindE (readInt24LE dataView (offset + 3)) (\<lambda>v3.
        bindE (getUint8 dataView (offset + 6)) (\<lambda>v6.
        bindE (getUint8 dataView (offset + 7)) (\<lambda>v7.
        bindE (getUint8 dataView (offset + 8)) (\<lambda>v8.
        bindE (getUint8 dataView (offset + 9)) (\<lambda>v9.
        bindE (getUint8 dataView (offset + 10)) (\<lambda>v10.
        bindE (readInt24LE dataView (offset + 11)) (\<lambda>v11.
        bindE (readInt24LE dataView (offset + 14)) (\<lambda>v14.
        bindE (getUint8 dataView (offset + 17)) (\<lambda>v17.
        bindE (getUint8 dataView (offset + 18)) (\<lambda>v18.
        Inr \<lparr> elapsed_time = js_times (of_int v0) lit_0_01,
              distance = js_times (of_int v3) lit_0_1,
              workout_type = v6,
              interval_type = v7,
              workout_state = v8,
              rowing_state = v9,
              stroke_state = v10,
              total_work_distance = v11,
              workout_duration = v14,
              workout_duration_type = v17,
              drag_factor = v18 \<rparr>))))))))))))"

record additional_status =
  as_elapsed_time :: js_number
  speed :: js_number
  stroke_rate :: int
  heart_rate :: int
  current_pace :: js_number
  average_pace :: js_number
  as_rest_distance :: int
  as_rest_time :: js_number

definition parseAdditionalStatus :: "data_view \<Rightarrow> bool \<Rightarrow> error + additional_status" where
  "parseAdditionalStatus dataView isMultiplexed =
     (let offset = (if isMultiplexed then 1 else 0) in
      if byteLength dataView < 16 + offset
      then Inl (InvalidDataLength ''additional status'' (byteLength dataView) (16 + offset))
      else
        bindE (readInt24LE dataView (offset + 0)) (\<lambda>v0.
        bindE (readInt16LE dataView (offset + 3)) (\<lambda>v3.
        bindE (getUint8 dataView (offset + 5)) (\<lambda>v5.
        bindE (getUint8 dataView (offset + 6)) (\<lambda>v6.
        bindE (readInt16LE dataView (offset + 7)) (\<lambda>v7.
        bindE (readInt16LE dataView (offset + 9)) (\<lambda>v9.
        bindE (readInt16LE dataView (offset + 11)) (\<lambda>v11.
        bindE (readInt24LE dataView (offset + 13)) (\<lambda>v13.
        Inr \<lparr> as_elapsed_time = js_times (of_int v0) lit_0_01,
              speed = js_times (of_int v3) lit_0_001,
              stroke_rate = v5,
              heart_rate = v6,
              current_pace = js_times (of_int v7) lit_0_01,
              average_pace = js_times (of_int v9) lit_0_01,
              as_rest_distance = v11,
              as_rest_time = js_times (of_int v13) lit_0_01 \<rparr>)))))))))"

record stroke_data =
  sd_elapsed_time :: js_number
  sd_distance :: js_number
  drive_length :: js_number
  drive_time :: js_number
  stroke_recovery_time :: js_number
  stroke_distance :: js_number
  peak_drive_force :: js_number
  average_drive_force :: js_number
  work_per_stroke :: js_number
  stroke_count :: int

definition parseStrokeData :: "data_view \<Rightarrow> bool \<Rightarrow> error + stroke_data" where
  "parseStrokeData dataView isMultiplexed =
     (let offset = (if isMultiplexed then 1 else 0) in
      if byteLength dataView < 20 + offset
      then Inl (InvalidDataLength ''stroke data'' (byteLength dataView) (20 + offset))
      else
        bindE (readInt24LE dataView (offset + 0)) (\<lambda>v0.
        bindE (readInt24LE dataView (offset + 3)) (\<lambda>v3.
        bindE (getUint8 dataView (offset + 6)) (\<lambda>v6.
        bindE (getUint8 dataView (offset + 7)) (\<lambda>v7.
        bindE (readInt16LE dataView (offset + 8)) (\<lambda>v8.
        bindE (readInt16LE dataView (offset + 10)) (\<lambda>v10.
        bindE (readInt16LE dataView (offset + 12)) (\<lambda>v12.
        bindE (readInt16LE dataView (offset + 14)) (\<lambda>v14.
        bindE (readInt16LE dataView (offset + 16)) (\<lambda>v16.
        bindE (readInt16LE dataView (offset + 18)) (\<lambda>v18.
        Inr \<lparr> sd_elapsed_time = js_times (of_int v0) lit_0_01,
              sd_distance = js_times (of_int v3) lit_0_1,
              drive_length = js_times (of_int v6) lit_0_01,
              drive_time = js_times (of_int v7) lit_0_01,
              stroke_recovery_time = js_times (of_int v8) lit_0_01,
              stroke_distance = js_times (of_int v10) lit_0_01,
              peak_drive_force = js_times (of_int v12) lit_0_1,
              average_drive_force = js_times (of_int v14) lit_0_1,
              work_per_stroke = js_times (of_int v16) lit_0_1,
              stroke_count = v18 \<rparr>)))))))))))"

record split_data =
  sp_elapsed_time :: js_number
  sp_distance :: js_number
  split_time :: js_number
  split_distance :: js_number
  sp_rest_time :: int
  sp_rest_distance :: int
  split_type :: int
  split_number :: int

definition parseSplitIntervalData :: "data_view \<Rightarrow> bool \<Rightarrow> error + split_data" where
  "parseSplitIntervalData dataView isMultiplexed =
     (let offset = (if isMultiplexed then 1 else 0) in
      if byteLength dataView < 18 + offset
      then Inl (InvalidDataLength ''split data'' (byteLength dataView) (18 + offset))
      else
        bindE (readInt24LE dataView (offset + 0)) (\<lambda>v0.
        bindE (readInt24LE dataView (offset + 3)) (\<lambda>v3.
        bindE (readInt24LE dataView (offset + 6)) (\<lambda>v6.
        bindE (readInt24LE dataView (offset + 9)) (\<lambda>v9.
        bindE (readInt16LE dataView (offset + 12)) (\<lambda>v12.
        bindE (readInt16LE dataView (offset + 14)) (\<lambda>v14.
        bindE (getUint8 dataView (offset + 16)) (\<lambda>v16.
        bindE (getUint8 dataView (offset + 17)) (\<lambda>v17.
        Inr \<lparr> sp_elapsed_time = js_times (of_int v0) lit_0_01,
              sp_distance = js_times (of_int v3) lit_0_1,
              split_time = js_times (of_int v6) lit_0_1,
              split_distance = js_times (of_int v9) lit_0_1,
              sp_rest_time = v12,
              sp_rest_distance = v14,
              split_type = v16,
              split_number = v17 \<rparr>)))))))))"

text \<open>
  The object returned by \<open>parseMultiplexedData\<close>: \<open>type\<close>, \<open>data\<close> and, in the default
  branch only, \<open>uuid\<close> (absent otherwise). \<open>data\<close> is one of the four parsed records, or
  \<open>null\<close> in the default branch. The \<open>console.warn\<close> of the default branch has no effect
  on the result and is left out.
\<close>

datatype parsed_data =
    GeneralStatusData general_status
  | AdditionalStatusData additional_status
  | StrokeDataData stroke_data
  | SplitDataData split_data
  | Null

record multiplexed =
  mx_type :: string
  mx_uuid :: "int option"
  mx_data :: parsed_data

definition parseMultiplexedData :: "data_view \<Rightarrow> error + multiplexed" where
  "parseMultiplexedData dataView =
     bindE (getUint8 dataView 0) (\<lambda>uuid.
       if uuid = 0x31 then
         bindE (parseGeneralStatus dataView True) (\<lambda>d.
           Inr \<lparr> mx_type = ''general_status'', mx_uuid = None, mx_data = GeneralStatusData d \<rparr>)
       else if uuid = 0x32 then
         bindE (parseAdditionalStatus dataView True) (\<lambda>d.
           Inr \<lparr> mx_type = ''additional_status'', mx_uuid = None,
                 mx_data = AdditionalStatusData d \<rparr>)
       else if uuid = 0x35 then
         bindE (parseStrokeData dataView True) (\<lambda>d.
           Inr \<lparr> mx_type = ''stroke_data'', mx_uuid = None, mx_data = StrokeDataData d \<rparr>)
       else if uuid = 0x37 then
         bindE (parseSplitIntervalData dataView True) (\<lambda>d.
           Inr \<lparr> mx_type = ''split_data'', mx_uuid = None, mx_data = SplitDataData d \<rparr>)
       else
         Inr \<lparr> mx_type = ''unknown'', mx_uuid = Some uuid, mx_data = Null \<rparr>)"

subsection \<open>The layout table of the specification\<close>

text \<open>
  The specification gives each record as a table of fields \<open>(offset, width, scale)\<close>, each
  field a little-endian unsigned integer of \<open>width\<close> bytes. \<open>le_field\<close> is that integer;
  the \<open>_layout\<close> functions transcribe the four rows of the table, at a base offset that is
  0 for a plain frame and 1 inside a multiplexed envelope. They are the reference against
  which the parsers are compared.
\<close>

fun le_field :: "data_view \<Rightarrow> nat \<Rightarrow> nat \<Rightarrow> int" where
  "le_field bytes off 0 = 0"
| "le_field bytes off (Suc width) = uint (bytes ! off) + 256 * le_field bytes (Suc off) width"

definition scaled :: "int \<Rightarrow> js_number \<Rightarrow> js_number" where
  "scaled raw factor = js_times (of_int raw) factor"

definition GeneralStatus_layout :: "data_view \<Rightarrow> nat \<Rightarrow> general_status" where
  "GeneralStatus_layout bytes base =
     \<lparr> elapsed_time = scaled (le_field bytes (base + 0) 3) lit_0_01,
       distance = scaled (le_field bytes (base + 3) 3) lit_0_1,
       workout_type = le_field bytes (base + 6) 1,
       interval_type = le_field bytes (base + 7) 1,
       workout_state = le_field bytes (base + 8) 1,
       rowing_state = le_field bytes (base + 9) 1,
       stroke_state = le_field bytes (base + 10) 1,
       total_work_distance = le_field bytes (base + 11) 3,
       workout_duration = le_field bytes (base + 14) 3,
       workout_duration_type = le_field bytes (base + 17) 1,
       drag_factor = le_field bytes (base + 18) 1 \<rparr>"

definition AdditionalStatus_layout :: "data_view \<Rightarrow> nat \<Rightarrow> additional_status" where
  "AdditionalStatus_layout bytes base =
     \<lparr> as_elapsed_time = scaled (le_field bytes (base + 0) 3) lit_0_01,
       speed = scaled (le_field bytes (base + 3) 2) lit_0_001,
       stroke_rate = le_field bytes (base + 5) 1,
       heart_rate = le_field bytes (base + 6) 1,
       current_pace = scaled (le_field bytes (base + 7) 2) lit_0_01,
       average_pace = scaled (le_field bytes (base + 9) 2) lit_0_01,
       as_rest_distance = le_field bytes (base + 11) 2,
       as_rest_time = scaled (le_field bytes (base + 13) 3) lit_0_01 \<rparr>"

definition StrokeData_layout :: "data_view \<Rightarrow> nat \<Rightarrow> stroke_data" where
  "StrokeData_layout bytes base =
     \<lparr> sd_elapsed_time = scaled (le_field bytes (base + 0) 3) lit_0_01,
       sd_distance = scaled (le_field bytes (base + 3) 3) lit_0_1,
       drive_length = scaled (le_field bytes (base + 6) 1) lit_0_01,
       drive_time = scaled (le_field bytes (base + 7) 1) lit_0_01,
       stroke_recovery_time = scaled (le_field bytes (base + 8) 2) lit_0_01,
       stroke_distance = scaled (le_field bytes (base + 10) 2) lit_0_01,
       peak_drive_force = scaled (le_field bytes (base + 12) 2) lit_0_1,
       average_drive_force = scaled (le_field bytes (base + 14) 2) lit_0_1,
       work_per_stroke = scaled (le_field bytes (base + 16) 2) lit_0_1,
       stroke_count = le_field bytes (base + 18) 2 \<rparr>"

definition SplitData_layout :: "data_view \<Rightarrow> nat \<Rightarrow> split_data" where
  "SplitData_layout bytes base =
     \<lparr> sp_elapsed_time = scaled (le_field bytes (base + 0) 3) lit_0_01,
       sp_distance = scaled (le_field bytes (base + 3) 3) lit_0_1,
       split_time = scaled (le_field bytes (base + 6) 3) lit_0_1,
       split_distance = scaled (le_field bytes (base + 9) 3) lit_0_1,
       sp_rest_time = le_field bytes (base + 12) 2,
       sp_rest_distance = le_field bytes (base + 14) 2,
       split_type = le_field bytes (base + 16) 1,
       split_number = le_field bytes (base + 17) 1 \<rparr>"

definition mux_offset :: "bool \<Rightarrow> nat" where
  "mux_offset isMultiplexed = (if isMultiplexed then 1 else 0)"

text \<open>The 19-byte frame of the specification's first testable property.\<close>

definition example_frame :: data_view where
  "example_frame =
     [0x64, 0x00, 0x00, 0xE8, 0x03, 0x00, 0x01, 0x00, 0x01, 0x01, 0x02,
      0x00, 0x00, 0x00, 0x00, 0x00, 0x00, 0x00, 0x73]"

section \<open>device.js: the PM5Device class\<close>

text \<open>
  The class is modelled with explicit state. The \<open>world\<close> record holds the fields of the
  \<open>PM5Device\<close> object, the part of the browser the class acts on (the listeners registered
  on each characteristic, which characteristics are notifying, what was written), the
  remote GATT table, and two traces of what leaves the class: the calls made to the
  consumer's callbacks (\<open>delivered\<close>) and the calls to \<open>console.error\<close>. Calls to
  \<open>console.log\<close> and \<open>console.warn\<close> are left out.

  The UUID constants of \<open>constants.js\<close>, which is not among the sources, are the
  constructors of \<open>uuid\<close> and \<open>service\<close>; \<open>OtherUuid\<close> stands for any further characteristic
  that discovery may find. A callback property (\<open>onWorkoutData\<close> and the like) is modelled
  by whether a handler is attached; calling it appends to \<open>delivered\<close>, and the consumer's
  handler is taken not to throw. An \<open>async\<close> method runs without interleaving: every
  \<open>await\<close> either yields its value or throws the rejection.
\<close>

datatype uuid =
    GENERAL_STATUS
  | ADDITIONAL_STATUS
  | STROKE_DATA
  | SPLIT_INTERVAL_DATA
  | MULTIPLEXED_INFORMATION
  | TRANSMIT
  | RECEIVE
  | OtherUuid string

datatype service = INFORMATION | CONTROL | ROWING

text \<open>
  The arrow functions that the class registers as listeners: the four of
  \<open>startRowingDataNotifications\<close> and the \<open>handler\<close> of \<open>subscribeToCharacteristic\<close>, which
  captures \<open>uuid\<close>. Every evaluation of an arrow function gives a new function object; a
  listener is that object's identity together with its body.
\<close>

datatype listener_body =
    GeneralStatusClosure
  | AdditionalStatusClosure
  | StrokeDataClosure
  | SplitDataClosure
  | CharacteristicClosure uuid

type_synonym listener = "nat \<times> listener_body"

datatype consumer_event =
    Disconnected
  | WorkoutData string parsed_data
  | StrokeDataEvent stroke_data
  | SplitDataEvent split_data
  | CharacteristicData uuid nat data_view
  | WorkoutDataStamped string nat parsed_data

record world =
  server :: bool
  services :: "service set"
  characteristics :: "uuid set"
  isConnected :: bool
  onDisconnected :: bool
  onWorkoutData :: bool
  onStrokeData :: bool
  onSplitData :: bool
  onCharacteristicData :: bool
  notifyCapableCharacteristics :: "uuid list"
  activeCharacteristicSubscription :: "(uuid \<times> listener) option"
  listeners :: "uuid \<Rightarrow> listener list"
  notifying :: "uuid \<Rightarrow> bool"
  next_function :: nat
  written :: "(uuid \<times> byte list) list"
  link_up :: bool
  remote_services :: "service set"
  remote_characteristics :: "(service \<times> uuid \<times> bool) list"
  clock :: nat
  delivered :: "consumer_event list"
  console_errors :: "(string \<times> error) list"

type_synonym 'a io = "world \<Rightarrow> (error + 'a) \<times> world"

definition returnS :: "'a \<Rightarrow> 'a io" where
  "returnS x w = (Inr x, w)"

definition throwS :: "error \<Rightarrow> 'a io" where
  "throwS e w = (Inl e, w)"

definition bindS :: "'a io \<Rightarrow> ('a \<Rightarrow> 'b io) \<Rightarrow> 'b io" where
  "bindS m f w = (case m w of (Inl e, w') \<Rightarrow> (Inl e, w') | (Inr x, w') \<Rightarrow> f x w')"

definition thenS :: "unit io \<Rightarrow> 'b io \<Rightarrow> 'b io" where
  "thenS m k = bindS m (\<lambda>_. k)"

definition try_catch :: "'a io \<Rightarrow> (error \<Rightarrow> 'a io) \<Rightarrow> 'a io" where
  "try_catch body handler w =
     (case body w of (Inl e, w') \<Rightarrow> handler e w' | (Inr x, w') \<Rightarrow> (Inr x, w'))"

definition liftE :: "error + 'a \<Rightarrow> 'a io" where
  "liftE r w = (r, w)"

definition console_error :: "string \<Rightarrow> error \<Rightarrow> unit io" where
  "console_error msg e w = (Inr (), w\<lparr>console_errors := console_errors w @ [(msg, e)]\<rparr>)"

definition deliver :: "consumer_event \<Rightarrow> unit io" where
  "deliver ev w = (Inr (), w\<lparr>delivered := delivered w @ [ev]\<rparr>)"

subsection \<open>The Web Bluetooth operations the class calls\<close>

text \<open>
  \<open>this.services.X.getCharacteristic(u)\<close>: a \<open>TypeError\<close> when \<open>this.services.X\<close> is
  undefined; otherwise the promise resolves when the link is up and the remote service has
  the characteristic, and rejects if not. \<open>startNotifications\<close>, \<open>stopNotifications\<close> and
  \<open>writeValue\<close> resolve when the link is up and reject if not.
\<close>

definition has_characteristic :: "world \<Rightarrow> service \<Rightarrow> uuid \<Rightarrow> bool" where
  "has_characteristic w s u = (\<exists>n \<in> set (remote_characteristics w). fst n = s \<and> fst (snd n) = u)"

definition getCharacteristic :: "service \<Rightarrow> uuid \<Rightarrow> uuid io" where
  "getCharacteristic s u w =
     (if s \<notin> services w then (Inl TypeError, w)
      else if link_up w \<and> has_characteristic w s u then (Inr u, w)
      else (Inl TransportError, w))"

definition startNotifications :: "uuid \<Rightarrow> unit io" where
  "startNotifications u w =
     (if link_up w then (Inr (), w\<lparr>notifying := (notifying w)(u := True)\<rparr>)
      else (Inl TransportError, w))"

definition stopNotifications :: "uuid \<Rightarrow> unit io" where
  "stopNotifications u w =
     (if link_up w then (Inr (), w\<lparr>notifying := (notifying w)(u := False)\<rparr>)
      else (Inl TransportError, w))"

definition writeValue :: "uuid \<Rightarrow> byte list \<Rightarrow> unit io" where
  "writeValue u bytes w =
     (if link_up w then (Inr (), w\<lparr>written := written w @ [(u, bytes)]\<rparr>)
      else (Inl TransportError, w))"

text \<open>
  \<open>EventTarget\<close>: \<open>addEventListener\<close> appends the listener unless the same function object
  is already registered; \<open>removeEventListener\<close> removes it. \<open>arrow_function\<close> evaluates an
  arrow function expression to a new function object.
\<close>

definition arrow_function :: "listener_body \<Rightarrow> listener io" where
  "arrow_function body w = (Inr (next_function w, body), w\<lparr>next_function := Suc (next_function w)\<rparr>)"

definition addEventListener :: "uuid \<Rightarrow> listener \<Rightarrow> unit io" where
  "addEventListener u l w =
     (Inr (), w\<lparr>listeners := (listeners w)
        (u := (if l \<in> set (listeners w u) then listeners w u else listeners w u @ [l]))\<rparr>)"

definition removeEventListener :: "uuid \<Rightarrow> listener \<Rightarrow> unit io" where
  "removeEventListener u l w =
     (Inr (), w\<lparr>listeners := (listeners w)(u := removeAll l (listeners w u))\<rparr>)"

subsection \<open>Constructor, connect, handleDisconnected\<close>

text \<open>
  The state after \<open>new PM5Device(bluetoothDevice)\<close>, for a remote device described by its
  services and characteristics. The constructor registers \<open>handleDisconnected\<close> once for
  \<open>gattserverdisconnected\<close>; that registration is the function \<open>gattserverdisconnected\<close>
  below.
\<close>

definition new_PM5Device :: "service set \<Rightarrow> (service \<times> uuid \<times> bool) list \<Rightarrow> world" where
  "new_PM5Device svcs chars =
     \<lparr> server = False, services = {}, characteristics = {}, isConnected = False,
       onDisconnected = False, onWorkoutData = False, onStrokeData = False,
       onSplitData = False, onCharacteristicData = False,
       notifyCapableCharacteristics = [], activeCharacteristicSubscription = None,
       listeners = (\<lambda>_. []), notifying = (\<lambda>_. False), next_function = 0, written = [],
       link_up = True, remote_services = svcs, remote_characteristics = chars,
       clock = 0, delivered = [], console_errors = [] \<rparr>"

definition getPrimaryService :: "service \<Rightarrow> unit io" where
  "getPrimaryService s w =
     (if link_up w \<and> s \<in> remote_services w then (Inr (), w\<lparr>services := insert s (services w)\<rparr>)
      else (Inl TransportError, w))"

definition getServices :: "unit io" where
  "getServices =
     try_catch
       (thenS (getPrimaryService INFORMATION)
       (thenS (getPrimaryService CONTROL)
              (getPrimaryService ROWING)))
       (\<lambda>error. thenS (console_error ''Error getting services:'' error) (throwS error))"

definition gatt_connect :: "unit io" where
  "gatt_connect w = (if link_up w then (Inr (), w\<lparr>server := True\<rparr>) else (Inl TransportError, w))"

text \<open>
  \<open>readDeviceInformation\<close> swallows every error and only fills \<open>deviceInfo\<close>, which no
  modelled method reads; it is left out of \<open>connect\<close>.
\<close>

definition connect :: "unit io" where
  "connect =
     try_catch
       (thenS gatt_connect
       (thenS getServices
              (\<lambda>w. (Inr (), w\<lparr>isConnected := True\<rparr>))))
       (\<lambda>error. thenS (console_error ''Error connecting to PM5:'' error) (throwS error))"

definition handleDisconnected :: "world \<Rightarrow> world" where
  "handleDisconnected w =
     (let w1 = w\<lparr>isConnected := False, server := False, services := {}, characteristics := {}\<rparr>
      in if onDisconnected w1 then w1\<lparr>delivered := delivered w1 @ [Disconnected]\<rparr> else w1)"

text \<open>
  The transport's link-loss signal: the link goes down and the browser fires
  \<open>gattserverdisconnected\<close>, which runs the one registered \<open>handleDisconnected\<close>.
\<close>

definition gattserverdisconnected :: "world \<Rightarrow> world" where
  "gattserverdisconnected w = handleDisconnected (w\<lparr>link_up := False\<rparr>)"

subsection \<open>Notification listeners\<close>

text \<open>
  The body of each listener, run on the \<open>DataView\<close> in \<open>event.target.value\<close>. The four
  listeners of \<open>startRowingDataNotifications\<close> parse inside \<open>try\<close> and log in \<open>catch\<close>; the
  handler of \<open>subscribeToCharacteristic\<close> passes the raw bytes on with the time of arrival.
\<close>

definition whenS :: "bool \<Rightarrow> unit io \<Rightarrow> unit io" where
  "whenS c m = (if c then m else returnS ())"

definition run_listener :: "listener_body \<Rightarrow> data_view \<Rightarrow> unit io" where
  "run_listener body dataView =
     (case body of
        GeneralStatusClosure \<Rightarrow>
          try_catch
            (bindS (liftE (parseGeneralStatus dataView False)) (\<lambda>d w.
               whenS (onWorkoutData w) (deliver (WorkoutData ''general_status'' (GeneralStatusData d))) w))
            (\<lambda>error. console_error ''Error parsing general status:'' error)
      | AdditionalStatusClosure \<Rightarrow>
          try_catch
            (bindS (liftE (parseAdditionalStatus dataView False)) (\<lambda>d w.
               whenS (onWorkoutData w)
                 (deliver (WorkoutData ''additional_status'' (AdditionalStatusData d))) w))
            (\<lambda>error. console_error ''Error parsing additional status:'' error)
      | StrokeDataClosure \<Rightarrow>
          try_catch
            (bindS (liftE (parseStrokeData dataView False)) (\<lambda>d w.
               whenS (onStrokeData w) (deliver (StrokeDataEvent d)) w))
            (\<lambda>error. console_error ''Error parsing stroke data:'' error)
      | SplitDataClosure \<Rightarrow>
          try_catch
            (bindS (liftE (parseSplitIntervalData dataView False)) (\<lambda>d w.
               whenS (onSplitData w) (deliver (SplitDataEvent d)) w))
            (\<lambda>error. console_error ''Error parsing split data:'' error)
      | CharacteristicClosure u \<Rightarrow>
          try_catch
            (\<lambda>w. whenS (onCharacteristicData w) (deliver (CharacteristicData u (clock w) dataView)) w)
            (\<lambda>error. console_error ''Error handling characteristic data:'' error))"

text \<open>
  The browser delivers a \<open>characteristicvaluechanged\<close> event to the listeners registered on
  the characteristic, in registration order; an exception that escapes a listener is
  reported and the remaining listeners still run.
\<close>

definition call_listener :: "data_view \<Rightarrow> world \<Rightarrow> listener \<Rightarrow> world" where
  "call_listener dataView w l =
     (case run_listener (snd l) dataView w of
        (Inl e, w') \<Rightarrow> w'\<lparr>console_errors := console_errors w' @ [(''Uncaught'', e)]\<rparr>
      | (Inr _, w') \<Rightarrow> w')"

definition characteristicvaluechanged :: "uuid \<Rightarrow> data_view \<Rightarrow> world \<Rightarrow> world" where
  "characteristicvaluechanged u dataView w = foldl (call_listener dataView) w (listeners w u)"

text \<open>
  \<open>handleGeneralStatusUpdate\<close>, the bound method that another version of the class
  registers in place of the first arrow function; it adds a timestamp to what it delivers.
\<close>

definition handleGeneralStatusUpdate :: "data_view \<Rightarrow> unit io" where
  "handleGeneralStatusUpdate dataView =
     try_catch
       (bindS (liftE (parseGeneralStatus dataView False)) (\<lambda>d w.
          whenS (onWorkoutData w)
            (deliver (WorkoutDataStamped ''general_status'' (clock w) (GeneralStatusData d))) w))
       (\<lambda>error. console_error ''Error parsing general status:'' error)"

subsection \<open>startRowingDataNotifications\<close>

definition start_stream :: "uuid \<Rightarrow> listener_body \<Rightarrow> unit io" where
  "start_stream u body =
     bindS (getCharacteristic ROWING u) (\<lambda>char.
     thenS (startNotifications char)
     (bindS (arrow_function body) (\<lambda>l.
      addEventListener char l)))"

definition startRowingDataNotifications :: "unit io" where
  "startRowingDataNotifications =
     try_catch
       (thenS (start_stream GENERAL_STATUS GeneralStatusClosure)
       (thenS (start_stream ADDITIONAL_STATUS AdditionalStatusClosure)
       (thenS (start_stream STROKE_DATA StrokeDataClosure)
              (start_stream SPLIT_INTERVAL_DATA SplitDataClosure))))
       (\<lambda>error. thenS (console_error ''Error starting notifications:'' error) (throwS error))"

subsection \<open>subscribeToCharacteristic and unsubscribeFromCharacteristic\<close>

definition unsubscribeFromCharacteristic :: "unit io" where
  "unsubscribeFromCharacteristic w =
     (case activeCharacteristicSubscription w of
        None \<Rightarrow> (Inr (), w)
      | Some (u, handler) \<Rightarrow>
          try_catch
            (thenS (removeEventListener u handler)
            (thenS (stopNotifications u)
                   (\<lambda>w. (Inr (), w\<lparr>activeCharacteristicSubscription := None\<rparr>))))
            (\<lambda>error. thenS (console_error ''Error unsubscribing from characteristic:'' error)
                         (throwS error))
            w)"

definition subscribeToCharacteristic :: "uuid \<Rightarrow> bool io" where
  "subscribeToCharacteristic u =
     try_catch
       (thenS (\<lambda>w. whenS (activeCharacteristicSubscription w \<noteq> None) unsubscribeFromCharacteristic w)
       (thenS (\<lambda>w. (if u \<in> set (notifyCapableCharacteristics w) then Inr ()
                    else Inl (CharacteristicNotFound ''not found in discovered characteristics''), w))
       (thenS (startNotifications u)
       (bindS (arrow_function (CharacteristicClosure u)) (\<lambda>handler.
       (thenS (addEventListener u handler)
       (thenS (\<lambda>w. (Inr (), w\<lparr>activeCharacteristicSubscription := Some (u, handler)\<rparr>))
              (returnS True))))))))
       (\<lambda>error. thenS (console_error ''Error subscribing to characteristic:'' error)
                    (throwS error))"

text \<open>
  \<open>discoverNotifyCapableCharacteristics\<close>, without its per-service \<open>try\<close>: the characteristics
  of the remote table that have the \<open>notify\<close> property, in table order.
\<close>

definition discoverNotifyCapableCharacteristics :: "uuid list io" where
  "discoverNotifyCapableCharacteristics =
     try_catch
       (\<lambda>w. if \<not> server w then (Inl TypeError, w)
            else if \<not> link_up w then (Inl TransportError, w)
            else (let notifyChars = map (\<lambda>n. fst (snd n))
                                      (filter (\<lambda>n. snd (snd n)) (remote_characteristics w))
                  in (Inr notifyChars, w\<lparr>notifyCapableCharacteristics := notifyChars\<rparr>)))
       (\<lambda>error. thenS (console_error ''Error discovering notify-capable characteristics:'' error)
                    (throwS error))"

subsection \<open>sendControlBytes\<close>

text \<open>
  \<open>hexString.replace(/[^0-9a-fA-F]/g, '')\<close> keeps the hexadecimal digits. \<open>parseInt(s, 16)\<close>
  reads the longest prefix of hexadecimal digits and is \<open>NaN\<close> (here \<open>None\<close>) when there is
  none; storing into a \<open>Uint8Array\<close> takes the value modulo 256, and \<open>NaN\<close> as 0. The loop
  \<open>for (i = 0; i < cleanHex.length; i += 2) bytes[i / 2] = parseInt(cleanHex.substr(i, 2), 16)\<close>
  is the recursion \<open>hex_loop\<close> on the rest of the string from index \<open>i\<close>.
\<close>

definition is_hex_digit :: "char \<Rightarrow> bool" where
  "is_hex_digit c =
     (let n = of_char c :: nat
      in (48 \<le> n \<and> n \<le> 57) \<or> (97 \<le> n \<and> n \<le> 102) \<or> (65 \<le> n \<and> n \<le> 70))"

definition digit_value :: "char \<Rightarrow> nat" where
  "digit_value c =
     (let n = of_char c :: nat
      in if 48 \<le> n \<and> n \<le> 57 then n - 48
         else if 97 \<le> n \<and> n \<le> 102 then n - 87
         else n - 55)"

definition clean_hex :: "string \<Rightarrow> string" where
  "clean_hex hexString = filter is_hex_digit hexString"

fun parseInt_digits :: "nat \<Rightarrow> string \<Rightarrow> nat" where
  "parseInt_digits acc [] = acc"
| "parseInt_digits acc (c # cs) =
     (if is_hex_digit c then parseInt_digits (16 * acc + digit_value c) cs else acc)"

definition parseInt16 :: "string \<Rightarrow> nat option" where
  "parseInt16 s =
     (case s of
        [] \<Rightarrow> None
      | c # cs \<Rightarrow> if is_hex_digit c then Some (parseInt_digits 0 s) else None)"

definition to_uint8 :: "nat option \<Rightarrow> byte" where
  "to_uint8 v = (case v of None \<Rightarrow> 0 | Some n \<Rightarrow> of_nat n)"

fun hex_loop :: "string \<Rightarrow> byte list" where
  "hex_loop (a # b # rest) = to_uint8 (parseInt16 [a, b]) # hex_loop rest"
| "hex_loop [a] = [to_uint8 (parseInt16 [a])]"
| "hex_loop [] = []"

definition sendControlBytes :: "string \<Rightarrow> bool io" where
  "sendControlBytes hexString =
     try_catch
       (let cleanHex = clean_hex hexString in
        if length cleanHex mod 2 \<noteq> 0 then throwS HexStringOddLength
        else
          (let bytes = take (length cleanHex div 2) (hex_loop cleanHex) in
           bindS (getCharacteristic CONTROL TRANSMIT) (\<lambda>transmitChar.
           thenS (writeValue transmitChar bytes)
                 (returnS True))))
       (\<lambda>error. thenS (console_error ''Error sending control bytes:'' error) (throwS error))"

subsection \<open>Example devices\<close>

text \<open>
  A remote PM5 with its three services and the characteristics the class uses; a device
  object whose consumer attached every callback, as the demo page does, before and after
  \<open>connect\<close>; and one whose consumer attached only \<open>onWorkoutData\<close> and \<open>onStrokeData\<close>, as
  the integration example of the README does.
\<close>

definition pm5_table :: "(service \<times> uuid \<times> bool) list" where
  "pm5_table =
     [(ROWING, GENERAL_STATUS, True), (ROWING, ADDITIONAL_STATUS, True),
      (ROWING, STROKE_DATA, True), (ROWING, SPLIT_INTERVAL_DATA, True),
      (ROWING, MULTIPLEXED_INFORMATION, True),
      (CONTROL, TRANSMIT, False), (CONTROL, RECEIVE, True)]"

definition demo_device :: world where
  "demo_device =
     (new_PM5Device {INFORMATION, CONTROL, ROWING} pm5_table)
       \<lparr> onDisconnected := True, onWorkoutData := True, onStrokeData := True,
         onSplitData := True, onCharacteristicData := True \<rparr>"

definition demo_connected :: world where
  "demo_connected = snd (connect demo_device)"



text \<open>
  Function objects are created one after the other: every listener registered so far is
  older than the next function object to be created.
\<close>

definition registered_before_next :: "world \<Rightarrow> bool" where
  "registered_before_next w = (\<forall>u. \<forall>l \<in> set (listeners w u). fst l < next_function w)"

text \<open>The demo device after \<open>startRowingDataNotifications\<close>, called once and called twice.\<close>

definition demo_streaming :: world where
  "demo_streaming = snd (startRowingDataNotifications demo_connected)"

definition demo_streaming_twice :: world where
  "demo_streaming_twice = snd (startRowingDataNotifications demo_streaming)"

text \<open>
  The demo device after discovery, and after subscribing to one discovered characteristic;
  the README device after \<open>startRowingDataNotifications\<close>.
\<close>

definition demo_discovered :: world where
  "demo_discovered = snd (discoverNotifyCapableCharacteristics demo_connected)"



section \<open>CommandCodec\<close>

text \<open>
  Modelled from the spec: \<open>csafe.js\<close> (\<open>CSAFECommandBuilder\<close> and \<open>parseCSAFEResponse\<close>), which
  the device class imports and calls in \<open>sendCSAFECommand\<close>, is not among the sources. The
  specification describes the codec as a pure encoder and decoder of a length-prefixed,
  checksummed frame: a frame carries the command bytes, an opcode byte followed by the
  parameter bytes, with an integrity check; parsing validates the minimum length and
  fails with a \<open>FormatError\<close> on truncation, and, like the telemetry codec, ignores
  trailing bytes. The model follows these words: one length byte counting the command
  bytes, the command bytes, one check byte. The specification does not name the check
  function, so it is a parameter \<open>check\<close> of both directions. A command is accepted by the
  encoder when its command bytes can be counted in the length byte.
\<close>

record command =
  opcode :: byte
  parameters :: "byte list"

datatype codec_error =
    FormatError nat nat
  | NotEncodable
  | IntegrityError

definition command_bytes :: "command \<Rightarrow> byte list" where
  "command_bytes c = opcode c # parameters c"

definition accepted :: "command \<Rightarrow> bool" where
  "accepted c = (length (command_bytes c) \<le> 255)"

definition encode_command :: "(byte list \<Rightarrow> byte) \<Rightarrow> command \<Rightarrow> codec_error + byte list" where
  "encode_command check c =
     (if accepted c
      then Inr (of_nat (length (command_bytes c)) # command_bytes c @ [check (command_bytes c)])
      else Inl NotEncodable)"

definition decode_command :: "(byte list \<Rightarrow> byte) \<Rightarrow> byte list \<Rightarrow> codec_error + command" where
  "decode_command check frame =
     (if length frame < 3 then Inl (FormatError 3 (length frame))
      else
        (let n = unat (frame ! 0) in
         if n = 0 then Inl (FormatError 3 (length frame))
         else if length frame < n + 2 then Inl (FormatError (n + 2) (length frame))
         else
           (let bytes = take n (drop 1 frame) in
            if frame ! (n + 1) \<noteq> check bytes then Inl IntegrityError
            else Inr \<lparr> opcode = hd bytes, parameters = tl bytes \<rparr>)))"

text \<open>A check function for the examples: the exclusive or of the bytes.\<close>

definition xor_check :: "byte list \<Rightarrow> byte" where
  "xor_check bytes = foldr (XOR) bytes 0"


section \<open>Session runs: operations in flight\<close>

text \<open>
  The methods of the class are \<open>async\<close>: each runs until its next \<open>await\<close> of a transport
  promise, and the rest runs later, when the transport has settled that promise. In
  between, other methods may be called, notifications may arrive and the link may be
  lost. A \<open>task\<close> is a method suspended at an \<open>await\<close>: given the transport's verdict (the
  promise is fulfilled, or rejected) and the world at that time, it gives the world after
  the next stretch of code and the task that remains. The methods are written once more
  with the same primitive operations as above, now with the \<open>await\<close>s of the source marked:
  \<open>syncA\<close> runs an operation at once, \<open>awaitA\<close> suspends on a transport promise, whose effect
  and outcome are taken when it settles (a rejected promise throws a transport error
  whatever the world is), \<open>yieldA\<close> suspends on a promise that cannot be rejected, and
  \<open>awaited\<close> is the \<open>await\<close> of a call of another \<open>async\<close> method of the class: the callee runs,
  and the caller resumes later with what it returned or threw. Every \<open>await\<close> of the source
  is a suspension here, and the verdict on a pending promise is free (the browser rejects
  the promises that are pending when the link is lost): the runs below include every order
  in which the browser can run the code.
\<close>

datatype task =
    Finished
  | Suspended "bool \<Rightarrow> world \<Rightarrow> world" "bool \<Rightarrow> world \<Rightarrow> task"

type_synonym segment = "world \<Rightarrow> task \<times> world"

type_synonym 'a async = "('a \<Rightarrow> segment) \<Rightarrow> (error \<Rightarrow> segment) \<Rightarrow> segment"

definition returnA :: "'a \<Rightarrow> 'a async" where
  "returnA x k h = k x"

definition throwA :: "error \<Rightarrow> 'a async" where
  "throwA e k h = h e"

definition syncA :: "'a io \<Rightarrow> 'a async" where
  "syncA m k h w = (case m w of (Inl e, w') \<Rightarrow> h e w' | (Inr x, w') \<Rightarrow> k x w')"

definition settle :: "'a io \<Rightarrow> ('a \<Rightarrow> segment) \<Rightarrow> (error \<Rightarrow> segment) \<Rightarrow> bool \<Rightarrow> segment" where
  "settle m k h fulfilled w = (if fulfilled then syncA m k h w else h TransportError w)"

definition awaitA :: "'a io \<Rightarrow> 'a async" where
  "awaitA m k h w =
     (Suspended (\<lambda>fulfilled w'. snd (settle m k h fulfilled w'))
                (\<lambda>fulfilled w'. fst (settle m k h fulfilled w')), w)"

definition yieldA :: "unit async" where
  "yieldA k h w = (Suspended (\<lambda>_ w'. snd (k () w')) (\<lambda>_ w'. fst (k () w')), w)"

definition bindA :: "'a async \<Rightarrow> ('a \<Rightarrow> 'b async) \<Rightarrow> 'b async" where
  "bindA c f k h = c (\<lambda>x. f x k h) h"

definition thenA :: "unit async \<Rightarrow> 'b async \<Rightarrow> 'b async" where
  "thenA c d = bindA c (\<lambda>_. d)"

definition try_catchA :: "'a async \<Rightarrow> (error \<Rightarrow> 'a async) \<Rightarrow> 'a async" where
  "try_catchA body handler k h = body k (\<lambda>e. handler e k h)"

definition awaited :: "'a async \<Rightarrow> 'a async" where
  "awaited c =
     try_catchA (bindA c (\<lambda>x. thenA yieldA (returnA x))) (\<lambda>e. thenA yieldA (throwA e))"

text \<open>
  Calling an \<open>async\<close> method runs it up to its first \<open>await\<close>; what it finally returns or
  throws goes to the caller's promise and is not part of the world.
\<close>

definition spawn :: "'a async \<Rightarrow> segment" where
  "spawn c = c (\<lambda>_ w. (Finished, w)) (\<lambda>_ w. (Finished, w))"

subsection \<open>The methods, with their awaits\<close>

text \<open>
  \<open>this.services.X.getCharacteristic(u)\<close> reads \<open>this.services.X\<close> at the call and awaits the
  promise; \<open>this.server.getPrimaryService(s)\<close> reads \<open>this.server\<close> at the call (a \<open>TypeError\<close>
  when a link loss has set it to \<open>null\<close> while \<open>connect\<close> was in flight). The service that
  a fulfilled promise brings is stored in \<open>this.services\<close>; JavaScript takes that object
  before the \<open>await\<close>, and it is still the current one when the promise is fulfilled, since
  only \<open>handleDisconnected\<close> replaces it and the browser rejects the promises that are pending
  when the link is lost.
\<close>

definition service_object :: "service \<Rightarrow> unit io" where
  "service_object s w = (if s \<in> services w then (Inr (), w) else (Inl TypeError, w))"

definition characteristic_promise :: "service \<Rightarrow> uuid \<Rightarrow> uuid io" where
  "characteristic_promise s u w =
     (if link_up w \<and> has_characteristic w s u then (Inr u, w) else (Inl TransportError, w))"

definition getCharacteristicA :: "service \<Rightarrow> uuid \<Rightarrow> uuid async" where
  "getCharacteristicA s u = thenA (syncA (service_object s)) (awaitA (characteristic_promise s u))"

definition server_object :: "unit io" where
  "server_object w = (if server w then (Inr (), w) else (Inl TypeError, w))"

definition getPrimaryServiceA :: "service \<Rightarrow> unit async" where
  "getPrimaryServiceA s = thenA (syncA server_object) (awaitA (getPrimaryService s))"

definition getServicesA :: "unit async" where
  "getServicesA =
     try_catchA
       (thenA (getPrimaryServiceA INFORMATION)
       (thenA (getPrimaryServiceA CONTROL)
              (getPrimaryServiceA ROWING)))
       (\<lambda>error. thenA (syncA (console_error ''Error getting services:'' error)) (throwA error))"

text \<open>
  \<open>readDeviceInformation\<close> starts one read per field, each an \<open>async\<close> function that catches
  its own errors and writes only \<open>deviceInfo\<close>, which is not part of the world; the method
  awaits \<open>Promise.all\<close> of them: it is suspended there and resumes whatever happened to the
  reads.
\<close>

definition readDeviceInformationA :: "unit async" where
  "readDeviceInformationA = yieldA"

definition connectA :: "unit async" where
  "connectA =
     try_catchA
       (thenA (awaitA gatt_connect)
       (thenA (awaited getServicesA)
       (thenA (awaited readDeviceInformationA)
              (syncA (\<lambda>w. (Inr (), w\<lparr>isConnected := True\<rparr>))))))
       (\<lambda>error. thenA (syncA (console_error ''Error connecting to PM5:'' error)) (throwA error))"

definition start_streamA :: "uuid \<Rightarrow> listener_body \<Rightarrow> unit async" where
  "start_streamA u body =
     bindA (getCharacteristicA ROWING u) (\<lambda>char.
     thenA (awaitA (startNotifications char))
     (bindA (syncA (arrow_function body)) (\<lambda>l.
      syncA (addEventListener char l))))"

definition startRowingDataNotificationsA :: "unit async" where
  "startRowingDataNotificationsA =
     try_catchA
       (thenA (start_streamA GENERAL_STATUS GeneralStatusClosure)
       (thenA (start_streamA ADDITIONAL_STATUS AdditionalStatusClosure)
       (thenA (start_streamA STROKE_DATA StrokeDataClosure)
              (start_streamA SPLIT_INTERVAL_DATA SplitDataClosure))))
       (\<lambda>error. thenA (syncA (console_error ''Error starting notifications:'' error))
                    (throwA error))"

text \<open>
  \<open>stopRowingDataNotifications\<close>: for each of the four characteristics, get it and stop its
  notifications, inside a \<open>try\<close> whose \<open>catch\<close> only warns. No listener is removed.
\<close>

definition stop_streamA :: "uuid \<Rightarrow> unit async" where
  "stop_streamA u =
     try_catchA
       (bindA (getCharacteristicA ROWING u) (\<lambda>char. awaitA (stopNotifications char)))
       (\<lambda>error. returnA ())"

definition stopRowingDataNotificationsA :: "unit async" where
  "stopRowingDataNotificationsA =
     thenA (stop_streamA GENERAL_STATUS)
    (thenA (stop_streamA ADDITIONAL_STATUS)
    (thenA (stop_streamA STROKE_DATA)
           (stop_streamA SPLIT_INTERVAL_DATA)))"

definition sendControlBytesA :: "string \<Rightarrow> bool async" where
  "sendControlBytesA hexString =
     try_catchA
       (let cleanHex = clean_hex hexString in
        if length cleanHex mod 2 \<noteq> 0 then throwA HexStringOddLength
        else
          (let bytes = take (length cleanHex div 2) (hex_loop cleanHex) in
           bindA (getCharacteristicA CONTROL TRANSMIT) (\<lambda>transmitChar.
           thenA (awaitA (writeValue transmitChar bytes))
                 (returnA True))))
       (\<lambda>error. thenA (syncA (console_error ''Error sending control bytes:'' error))
                    (throwA error))"

definition unsubscribeFromCharacteristicA :: "unit async" where
  "unsubscribeFromCharacteristicA k h w =
     (case activeCharacteristicSubscription w of
        None \<Rightarrow> k () w
      | Some (u, handler) \<Rightarrow>
          try_catchA
            (thenA (syncA (removeEventListener u handler))
            (thenA (awaitA (stopNotifications u))
                   (syncA (\<lambda>w. (Inr (), w\<lparr>activeCharacteristicSubscription := None\<rparr>)))))
            (\<lambda>error. thenA (syncA (console_error ''Error unsubscribing from characteristic:'' error))
                         (throwA error))
            k h w)"

definition subscribeToCharacteristicA :: "uuid \<Rightarrow> bool async" where
  "subscribeToCharacteristicA u =
     try_catchA
       (thenA (\<lambda>k h w. if activeCharacteristicSubscription w \<noteq> None
                       then awaited unsubscribeFromCharacteristicA k h w
                       else k () w)
       (thenA (syncA (\<lambda>w. (if u \<in> set (notifyCapableCharacteristics w) then Inr ()
                    else Inl (CharacteristicNotFound ''not found in discovered characteristics''), w)))
       (thenA (awaitA (startNotifications u))
       (bindA (syncA (arrow_function (CharacteristicClosure u))) (\<lambda>handler.
       (thenA (syncA (addEventListener u handler))
       (thenA (syncA (\<lambda>w. (Inr (), w\<lparr>activeCharacteristicSubscription := Some (u, handler)\<rparr>)))
              (returnA True))))))))
       (\<lambda>error. thenA (syncA (console_error ''Error subscribing to characteristic:'' error))
                    (throwA error))"

text \<open>
  \<open>discoverNotifyCapableCharacteristics\<close> reads \<open>this.server\<close> at the call, awaits the list
  of services (here in the order information, control, rowing) and, for each service,
  awaits its characteristics inside a \<open>try\<close> whose \<open>catch\<close> only warns; it pushes those with
  the \<open>notify\<close> property and assigns the list at the end.
\<close>

definition getPrimaryServices :: "service list io" where
  "getPrimaryServices w =
     (if link_up w
      then (Inr (filter (\<lambda>s. s \<in> remote_services w) [INFORMATION, CONTROL, ROWING]), w)
      else (Inl TransportError, w))"

definition getCharacteristics :: "service \<Rightarrow> (uuid \<times> bool) list io" where
  "getCharacteristics s w =
     (if link_up w
      then (Inr (map snd (filter (\<lambda>n. fst n = s) (remote_characteristics w))), w)
      else (Inl TransportError, w))"

primrec discover_loop :: "service list \<Rightarrow> uuid list \<Rightarrow> uuid list async" where
  "discover_loop [] notifyChars = returnA notifyChars"
| "discover_loop (service # rest) notifyChars =
     bindA (try_catchA
              (bindA (awaitA (getCharacteristics service)) (\<lambda>characteristics.
                 returnA (notifyChars @ map fst (filter snd characteristics))))
              (\<lambda>error. returnA notifyChars))
           (discover_loop rest)"

definition discoverNotifyCapableCharacteristicsA :: "uuid list async" where
  "discoverNotifyCapableCharacteristicsA =
     try_catchA
       (thenA (syncA server_object)
       (bindA (awaitA getPrimaryServices) (\<lambda>services.
       (bindA (discover_loop services []) (\<lambda>notifyChars.
        thenA (syncA (\<lambda>w. (Inr (), w\<lparr>notifyCapableCharacteristics := notifyChars\<rparr>)))
              (returnA notifyChars))))))
       (\<lambda>error. thenA (syncA (console_error
                    ''Error discovering notify-capable characteristics:'' error))
                    (throwA error))"

subsection \<open>Sessions and their steps\<close>

text \<open>
  A session is one \<open>PM5Device\<close> object with the listeners registered on its Bluetooth device
  for \<open>gattserverdisconnected\<close> and the methods in flight. The constructor registers
  \<open>this.handleDisconnected.bind(this)\<close> there, once; no method of the class registers or
  removes such a listener. A run is any sequence of steps: the consumer calls a method or
  assigns a callback, the transport settles the promise that a method in flight awaits,
  delivers a notification, signals the loss of the link (which runs the listeners
  registered for \<open>gattserverdisconnected\<close>) or has the device in reach again. The explicit
  \<open>disconnect\<close> method, a solicited disconnect, is not among the steps, nor are the two
  methods for the control receive characteristic.
\<close>

datatype operation =
    Connect
  | GetServices
  | ReadDeviceInformation
  | StartRowingDataNotifications
  | StopRowingDataNotifications
  | SendControlBytes string
  | DiscoverNotifyCapableCharacteristics
  | SubscribeToCharacteristic uuid
  | UnsubscribeFromCharacteristic

definition operation_segment :: "operation \<Rightarrow> segment" where
  "operation_segment operation =
     (case operation of
        Connect \<Rightarrow> spawn connectA
      | GetServices \<Rightarrow> spawn getServicesA
      | ReadDeviceInformation \<Rightarrow> spawn readDeviceInformationA
      | StartRowingDataNotifications \<Rightarrow> spawn startRowingDataNotificationsA
      | StopRowingDataNotifications \<Rightarrow> spawn stopRowingDataNotificationsA
      | SendControlBytes hexString \<Rightarrow> spawn (sendControlBytesA hexString)
      | DiscoverNotifyCapableCharacteristics \<Rightarrow> spawn discoverNotifyCapableCharacteristicsA
      | SubscribeToCharacteristic u \<Rightarrow> spawn (subscribeToCharacteristicA u)
      | UnsubscribeFromCharacteristic \<Rightarrow> spawn unsubscribeFromCharacteristicA)"

datatype callback =
    OnDisconnected
  | OnWorkoutData
  | OnStrokeData
  | OnSplitData
  | OnCharacteristicData

definition assign_callback :: "callback \<Rightarrow> bool \<Rightarrow> world \<Rightarrow> world" where
  "assign_callback c attached w =
     (case c of
        OnDisconnected \<Rightarrow> w\<lparr>onDisconnected := attached\<rparr>
      | OnWorkoutData \<Rightarrow> w\<lparr>onWorkoutData := attached\<rparr>
      | OnStrokeData \<Rightarrow> w\<lparr>onStrokeData := attached\<rparr>
      | OnSplitData \<Rightarrow> w\<lparr>onSplitData := attached\<rparr>
      | OnCharacteristicData \<Rightarrow> w\<lparr>onCharacteristicData := attached\<rparr>)"

datatype device_listener = HandleDisconnected

datatype step =
    Call operation
  | Settle nat bool
  | Notification uuid data_view
  | LinkLost
  | LinkRestored
  | Assign callback bool

record session =
  device :: world
  gattserverdisconnected_listeners :: "device_listener list"
  in_flight :: "task list"

definition new_session :: "service set \<Rightarrow> (service \<times> uuid \<times> bool) list \<Rightarrow> session" where
  "new_session svcs chars =
     \<lparr> device = new_PM5Device svcs chars,
       gattserverdisconnected_listeners = [HandleDisconnected],
       in_flight = [] \<rparr>"

definition call_device_listener :: "world \<Rightarrow> device_listener \<Rightarrow> world" where
  "call_device_listener w l = (case l of HandleDisconnected \<Rightarrow> handleDisconnected w)"

definition settle_task :: "nat \<Rightarrow> bool \<Rightarrow> session \<Rightarrow> session" where
  "settle_task i fulfilled s =
     (if i < length (in_flight s) then
        (case in_flight s ! i of
           Finished \<Rightarrow> s
         | Suspended effect rest \<Rightarrow>
             s\<lparr>device := effect fulfilled (device s),
               in_flight := (in_flight s)[i := rest fulfilled (device s)]\<rparr>)
      else s)"

definition session_step :: "step \<Rightarrow> session \<Rightarrow> session" where
  "session_step st s =
     (case st of
        Call operation \<Rightarrow>
          (case operation_segment operation (device s) of
             (t, w') \<Rightarrow> s\<lparr>device := w', in_flight := in_flight s @ [t]\<rparr>)
      | Settle i fulfilled \<Rightarrow> settle_task i fulfilled s
      | Notification u dataView \<Rightarrow>
          s\<lparr>device := characteristicvaluechanged u dataView (device s)\<rparr>
      | LinkLost \<Rightarrow>
          s\<lparr>device := foldl call_device_listener ((device s)\<lparr>link_up := False\<rparr>)
                         (gattserverdisconnected_listeners s)\<rparr>
      | LinkRestored \<Rightarrow> s\<lparr>device := (device s)\<lparr>link_up := True\<rparr>\<rparr>
      | Assign c attached \<Rightarrow> s\<lparr>device := assign_callback c attached (device s)\<rparr>)"

definition run :: "step list \<Rightarrow> session \<Rightarrow> session" where
  "run steps s = foldl (\<lambda>s st. session_step st s) s steps"

inductive reachable :: "session \<Rightarrow> bool" where
  constructed: "reachable (new_session svcs chars)"
| stepped: "reachable s \<Longrightarrow> reachable (session_step st s)"

text \<open>
  The number of \<open>Disconnected\<close> events the consumer has received, and the number of
  link-loss signals of a run that arrive while an \<open>onDisconnected\<close> handler is attached.
\<close>

definition disconnected_events :: "world \<Rightarrow> nat" where
  "disconnected_events w = length (filter (\<lambda>ev. ev = Disconnected) (delivered w))"


text \<open>
  A task is quiet when nothing it will ever do changes the number of \<open>Disconnected\<close>
  events; likewise for an operation, a stretch of code and a method.
\<close>

inductive quiet :: "task \<Rightarrow> bool" where
  finished: "quiet Finished"
| suspended:
    "(\<And>fulfilled w. disconnected_events (effect fulfilled w) = disconnected_events w) \<Longrightarrow>
     (\<And>fulfilled w. quiet (rest fulfilled w)) \<Longrightarrow>
     quiet (Suspended effect rest)"

definition quiet_io :: "'a io \<Rightarrow> bool" where
  "quiet_io m = (\<forall>w. disconnected_events (snd (m w)) = disconnected_events w)"

definition quiet_segment :: "segment \<Rightarrow> bool" where
  "quiet_segment g =
     (\<forall>w. quiet (fst (g w)) \<and> disconnected_events (snd (g w)) = disconnected_events w)"

definition quiet_async :: "'a async \<Rightarrow> bool" where
  "quiet_async c =
     (\<forall>k h. (\<forall>x. quiet_segment (k x)) \<longrightarrow> (\<forall>e. quiet_segment (h e)) \<longrightarrow> quiet_segment (c k h))"

text \<open>
  Running a task to its end with every promise fulfilled and nothing in between: the
  method as the atomic definitions above have it.
\<close>

primrec run_to_completion :: "task \<Rightarrow> world \<Rightarrow> world" where
  "run_to_completion Finished w = w"
| "run_to_completion (Suspended effect rest) w = run_to_completion (rest True w) (effect True w)"

definition uninterrupted :: "segment \<Rightarrow> world \<Rightarrow> world" where
  "uninterrupted g w = (case g w of (t, w') \<Rightarrow> run_to_completion t w')"

text \<open>
  What every reachable session satisfies: the constructor's listener is the only one
  registered for \<open>gattserverdisconnected\<close>, and every operation in flight is quiet.
\<close>

definition session_invariant :: "session \<Rightarrow> bool" where
  "session_invariant s =
     (gattserverdisconnected_listeners s = [HandleDisconnected] \<and>
      list_all quiet (in_flight s))"

text \<open>
  A method of this section agrees with a method of the atomic sections when running it to
  its end, uninterrupted, is running the atomic one.
\<close>

definition agrees :: "'a async \<Rightarrow> 'a io \<Rightarrow> bool" where
  "agrees c m =
     (\<forall>k h w. uninterrupted (c k h) w =
        (case m w of (Inl e, w') \<Rightarrow> uninterrupted (h e) w'
                   | (Inr x, w') \<Rightarrow> uninterrupted (k x) w'))"

subsection \<open>Example sessions\<close>


definition session_connecting :: session where
  "session_connecting = run
     [Assign OnDisconnected True, Call Connect,
      Settle 0 True, Settle 0 True, Settle 0 True, Settle 0 True, Settle 0 True]
     (new_session {INFORMATION, CONTROL, ROWING} pm5_table)"

definition suspended :: "task \<Rightarrow> bool" where
  "suspended t = (case t of Finished \<Rightarrow> False | Suspended effect rest \<Rightarrow> True)"


section \<open>Properties of the telemetry parsers\<close>

subsection \<open>Reads inside the view\<close>

lemma bindE_Inr [simp]: "bindE (Inr x) f = f x"
  by (simp add: bindE_def)

lemma bindE_Inl [simp]: "bindE (Inl e) f = Inl e"
  by (simp add: bindE_def)

lemma getUint8_inside: "i < length dv \<Longrightarrow> getUint8 dv i = Inr (uint (dv ! i))"
  by (simp add: getUint8_def byteLength_def)

lemma getUint8_outside: "length dv \<le> i \<Longrightarrow> getUint8 dv i = Inl RangeError"
  by (simp add: getUint8_def byteLength_def)

lemma uint_byte_bounds: "0 \<le> uint (b :: byte)" "uint (b :: byte) < 256"
  using uint_bounded [of b] by simp_all

lemma js_shl_small:
  assumes "0 \<le> x" "x * 2 ^ n < 2 ^ 31" "n < 32"
  shows "js_shl x n = x * 2 ^ n"
proof -
  have e: "push_bit n (word_of_int x :: 32 word) = word_of_int (x * 2 ^ n)"
    by (simp add: push_bit_eq_mult)
  have "js_shl x n = sint (push_bit n (word_of_int x :: 32 word))"
    using assms by (simp add: js_shl_def)
  also have "\<dots> = sint (word_of_int (x * 2 ^ n) :: 32 word)"
    by (simp only: e)
  also have "\<dots> = signed_take_bit 31 (x * 2 ^ n)"
    by (subst sint_sbintrunc') simp
  also have "\<dots> = x * 2 ^ n"
    using assms by (intro signed_take_bit_int_eq_self) (auto intro: order_trans [of _ 0])
  finally show ?thesis .
qed

lemma js_shl_8: "js_shl (uint (b :: byte)) 8 = 256 * uint b"
  using js_shl_small [of "uint b" 8] uint_byte_bounds [of b] by simp

lemma js_shl_16: "js_shl (uint (b :: byte)) 16 = 65536 * uint b"
  using js_shl_small [of "uint b" 16] uint_byte_bounds [of b] by simp

lemma or16:
  "uint (b0 :: byte) + 256 * uint (b1 :: byte) = uint b0 OR push_bit 8 (uint b1)"
proof -
  have "uint b0 + push_bit 8 (uint b1) = uint b0 OR push_bit 8 (uint b1)"
    by (rule disjunctive_add)
      (auto simp add: bit_push_bit_iff bit_uint_iff dest: bit_imp_le_length)
  then show ?thesis by (simp add: push_bit_eq_mult)
qed

lemma or24:
  "uint (b0 :: byte) + 256 * uint (b1 :: byte) + 65536 * uint (b2 :: byte) =
   uint b0 OR push_bit 8 (uint b1) OR push_bit 16 (uint b2)"
proof -
  have "(uint b0 OR push_bit 8 (uint b1)) + push_bit 16 (uint b2) =
        (uint b0 OR push_bit 8 (uint b1)) OR push_bit 16 (uint b2)"
    by (rule disjunctive_add)
      (auto simp add: bit_or_iff bit_push_bit_iff bit_uint_iff dest: bit_imp_le_length)
  then show ?thesis
    using or16 [of b0 b1] by (simp add: push_bit_eq_mult or.assoc mult.commute)
qed

lemma le_field_1: "le_field dv i 1 = uint (dv ! i)"
  by simp

lemma le_field_2: "le_field dv i 2 = uint (dv ! i) + 256 * uint (dv ! (i + 1))"
  by (simp add: numeral_2_eq_2)

lemma le_field_3:
  "le_field dv i 3 = uint (dv ! i) + 256 * uint (dv ! (i + 1)) + 65536 * uint (dv ! (i + 2))"
  by (simp add: numeral_3_eq_3)

lemma readInt24LE_inside: "i + 2 < length dv \<Longrightarrow> readInt24LE dv i = Inr (le_field dv i 3)"
  by (simp add: readInt24LE_def getUint8_inside js_shl_8 js_shl_16 le_field_3)

lemma readInt16LE_inside: "i + 1 < length dv \<Longrightarrow> readInt16LE dv i = Inr (le_field dv i 2)"
  by (simp add: readInt16LE_def getUint16_def byteLength_def le_field_2)

lemma getUint8_field: "i < length dv \<Longrightarrow> getUint8 dv i = Inr (le_field dv i 1)"
  by (simp add: getUint8_inside le_field_1)

subsection \<open>Each parser against its row of the layout table\<close>

lemma parseGeneralStatus_short:
  "length dv < 19 + mux_offset m \<Longrightarrow>
   parseGeneralStatus dv m =
     Inl (InvalidDataLength ''general status'' (length dv) (19 + mux_offset m))"
  by (simp add: parseGeneralStatus_def mux_offset_def byteLength_def)

lemma parseGeneralStatus_long:
  "19 + mux_offset m \<le> length dv \<Longrightarrow>
   parseGeneralStatus dv m = Inr (GeneralStatus_layout dv (mux_offset m))"
  by (simp add: parseGeneralStatus_def mux_offset_def byteLength_def Let_def
      readInt24LE_inside readInt16LE_inside getUint8_field GeneralStatus_layout_def scaled_def)

lemma parseAdditionalStatus_short:
  "length dv < 16 + mux_offset m \<Longrightarrow>
   parseAdditionalStatus dv m =
     Inl (InvalidDataLength ''additional status'' (length dv) (16 + mux_offset m))"
  by (simp add: parseAdditionalStatus_def mux_offset_def byteLength_def)

lemma parseAdditionalStatus_long:
  "16 + mux_offset m \<le> length dv \<Longrightarrow>
   parseAdditionalStatus dv m = Inr (AdditionalStatus_layout dv (mux_offset m))"
  by (simp add: parseAdditionalStatus_def mux_offset_def byteLength_def Let_def
      readInt24LE_inside readInt16LE_inside getUint8_field AdditionalStatus_layout_def
      scaled_def)

lemma parseStrokeData_short:
  "length dv < 20 + mux_offset m \<Longrightarrow>
   parseStrokeData dv m =
     Inl (InvalidDataLength ''stroke data'' (length dv) (20 + mux_offset m))"
  by (simp add: parseStrokeData_def mux_offset_def byteLength_def)

lemma parseStrokeData_long:
  "20 + mux_offset m \<le> length dv \<Longrightarrow>
   parseStrokeData dv m = Inr (StrokeData_layout dv (mux_offset m))"
  by (simp add: parseStrokeData_def mux_offset_def byteLength_def Let_def
      readInt24LE_inside readInt16LE_inside getUint8_field StrokeData_layout_def scaled_def)

lemma parseSplitIntervalData_short:
  "length dv < 18 + mux_offset m \<Longrightarrow>
   parseSplitIntervalData dv m =
     Inl (InvalidDataLength ''split data'' (length dv) (18 + mux_offset m))"
  by (simp add: parseSplitIntervalData_def mux_offset_def byteLength_def)

lemma parseSplitIntervalData_long:
  "18 + mux_offset m \<le> length dv \<Longrightarrow>
   parseSplitIntervalData dv m = Inr (SplitData_layout dv (mux_offset m))"
  by (simp add: parseSplitIntervalData_def mux_offset_def byteLength_def Let_def
      readInt24LE_inside readInt16LE_inside getUint8_field SplitData_layout_def scaled_def)

subsection \<open>Trailing bytes\<close>

lemma le_field_append:
  "off + width \<le> length dv \<Longrightarrow> le_field (dv @ extra) off width = le_field dv off width"
  by (induction width arbitrary: off) (simp_all add: nth_append)

lemma GeneralStatus_layout_append:
  "19 + base \<le> length dv \<Longrightarrow>
   GeneralStatus_layout (dv @ extra) base = GeneralStatus_layout dv base"
  by (simp add: GeneralStatus_layout_def le_field_append nth_append)

lemma AdditionalStatus_layout_append:
  "16 + base \<le> length dv \<Longrightarrow>
   AdditionalStatus_layout (dv @ extra) base = AdditionalStatus_layout dv base"
  by (simp add: AdditionalStatus_layout_def le_field_append nth_append)

lemma StrokeData_layout_append:
  "20 + base \<le> length dv \<Longrightarrow>
   StrokeData_layout (dv @ extra) base = StrokeData_layout dv base"
  by (simp add: StrokeData_layout_def le_field_append nth_append)

lemma SplitData_layout_append:
  "18 + base \<le> length dv \<Longrightarrow>
   SplitData_layout (dv @ extra) base = SplitData_layout dv base"
  by (simp add: SplitData_layout_def le_field_append nth_append)

subsection \<open>The envelope shifts the payload by one\<close>

lemma le_field_Suc: "le_field (tag # payload) (Suc off) width = le_field payload off width"
  by (induction width arbitrary: off) simp_all

lemma le_field_Cons:
  "0 < off \<Longrightarrow> le_field (tag # payload) off width = le_field payload (off - 1) width"
  using le_field_Suc [of tag payload "off - 1" width] by simp

lemma GeneralStatus_layout_Cons:
  "GeneralStatus_layout (tag # payload) 1 = GeneralStatus_layout payload 0"
  by (simp add: GeneralStatus_layout_def le_field_Cons)

lemma AdditionalStatus_layout_Cons:
  "AdditionalStatus_layout (tag # payload) 1 = AdditionalStatus_layout payload 0"
  by (simp add: AdditionalStatus_layout_def le_field_Cons)

lemma StrokeData_layout_Cons:
  "StrokeData_layout (tag # payload) 1 = StrokeData_layout payload 0"
  by (simp add: StrokeData_layout_def le_field_Cons)

lemma SplitData_layout_Cons:
  "SplitData_layout (tag # payload) 1 = SplitData_layout payload 0"
  by (simp add: SplitData_layout_def le_field_Cons)

section \<open>Claims about the telemetry codec\<close>

text \<open>
  Claim C1. The 19-byte frame \<open>64 00 00 E8 03 00 01 00 01 01 02 00 00 00 00 00 00 00 73\<close>,
  decoded by \<open>parseGeneralStatus\<close> with \<open>isMultiplexed = false\<close>, gives elapsed time 1.00 s,
  distance 100.0 m, workout type 1, interval type 0, workout state 1, rowing state 1,
  stroke state 2 and drag factor 115 (the remaining fields are 0), and this is the record
  that the GeneralStatus row of the layout table prescribes at base offset 0. The two
  scaled fields are the binary64 products \<open>100 * 0.01\<close> and \<open>1000 * 0.1\<close>, which are
  exactly 1 and 100.
\<close>

theorem general_status_example_decodes:
  "byteLength example_frame = 19 \<and>
   parseGeneralStatus example_frame False =
     Inr \<lparr> elapsed_time = 1, distance = 100, workout_type = 1, interval_type = 0,
           workout_state = 1, rowing_state = 1, stroke_state = 2,
           total_work_distance = 0, workout_duration = 0, workout_duration_type = 0,
           drag_factor = 115 \<rparr> \<and>
   parseGeneralStatus example_frame False = Inr (GeneralStatus_layout example_frame 0)"
proof -
  have len: "byteLength example_frame = 19"
    by (simp add: example_frame_def byteLength_def)
  have run: "parseGeneralStatus example_frame False =
     Inr \<lparr> elapsed_time = 1, distance = 100, workout_type = 1, interval_type = 0,
           workout_state = 1, rowing_state = 1, stroke_state = 2,
           total_work_distance = 0, workout_duration = 0, workout_duration_type = 0,
           drag_factor = 115 \<rparr>"
    by code_simp
  have lay: "parseGeneralStatus example_frame False = Inr (GeneralStatus_layout example_frame 0)"
    using parseGeneralStatus_long [of False example_frame] len
    by (simp add: mux_offset_def byteLength_def)
  from len run lay show ?thesis by simp
qed

subsection \<open>Byte order\<close>

lemma le_field_3_range: "0 \<le> le_field dv i 3 \<and> le_field dv i 3 < 2 ^ 24"
  using uint_byte_bounds [of "dv ! i"] uint_byte_bounds [of "dv ! (i + 1)"]
    uint_byte_bounds [of "dv ! (i + 2)"]
  by (simp add: le_field_3)

lemma le_field_2_range: "0 \<le> le_field dv i 2 \<and> le_field dv i 2 < 2 ^ 16"
  using uint_byte_bounds [of "dv ! i"] uint_byte_bounds [of "dv ! (i + 1)"]
  by (simp add: le_field_2)


text \<open>
  Claim C9. Every multi-byte telemetry field is little-endian and unsigned. \<open>readInt24LE\<close>
  inside the view returns \<open>b0 + 256 * b1 + 65536 * b2\<close>, which is also
  \<open>b0 | b1 << 8 | b2 << 16\<close> (the code adds where the specification writes a bitwise or;
  the bytes do not overlap, so the two agree), and lies in \<open>[0, 2^24)\<close>: the 32-bit shift
  never reaches the sign bit. \<open>readInt16LE\<close> returns \<open>b0 + 256 * b1\<close> in \<open>[0, 2^16)\<close>.
  Each of the four parsers, on a view of at least its minimum length, returns exactly the
  record of the layout table, whose multi-byte fields are the little-endian integers
  \<open>le_field\<close>.
\<close>

theorem multi_byte_fields_little_endian_unsigned:
  "(\<forall>dv off. off + 2 < byteLength dv \<longrightarrow>
      (\<exists>v. readInt24LE dv off = Inr v \<and>
           v = uint (dv ! off) + 256 * uint (dv ! (off + 1)) + 65536 * uint (dv ! (off + 2)) \<and>
           v = uint (dv ! off) OR push_bit 8 (uint (dv ! (off + 1)))
                 OR push_bit 16 (uint (dv ! (off + 2))) \<and>
           0 \<le> v \<and> v < 2 ^ 24)) \<and>
   (\<forall>dv off. off + 1 < byteLength dv \<longrightarrow>
      (\<exists>v. readInt16LE dv off = Inr v \<and>
           v = uint (dv ! off) + 256 * uint (dv ! (off + 1)) \<and>
           v = uint (dv ! off) OR push_bit 8 (uint (dv ! (off + 1))) \<and>
           0 \<le> v \<and> v < 2 ^ 16)) \<and>
   (\<forall>dv m. 19 + (if m then 1 else 0) \<le> byteLength dv \<longrightarrow>
      parseGeneralStatus dv m = Inr (GeneralStatus_layout dv (if m then 1 else 0))) \<and>
   (\<forall>dv m. 16 + (if m then 1 else 0) \<le> byteLength dv \<longrightarrow>
      parseAdditionalStatus dv m = Inr (AdditionalStatus_layout dv (if m then 1 else 0))) \<and>
   (\<forall>dv m. 20 + (if m then 1 else 0) \<le> byteLength dv \<longrightarrow>
      parseStrokeData dv m = Inr (StrokeData_layout dv (if m then 1 else 0))) \<and>
   (\<forall>dv m. 18 + (if m then 1 else 0) \<le> byteLength dv \<longrightarrow>
      parseSplitIntervalData dv m = Inr (SplitData_layout dv (if m then 1 else 0)))"
proof -
  have r24: "\<exists>v. readInt24LE dv off = Inr v \<and>
           v = uint (dv ! off) + 256 * uint (dv ! (off + 1)) + 65536 * uint (dv ! (off + 2)) \<and>
           v = uint (dv ! off) OR push_bit 8 (uint (dv ! (off + 1)))
                 OR push_bit 16 (uint (dv ! (off + 2))) \<and>
           0 \<le> v \<and> v < 2 ^ 24" if "off + 2 < byteLength dv" for dv off
  proof -
    have "readInt24LE dv off = Inr (le_field dv off 3)"
      using that by (simp add: readInt24LE_inside byteLength_def)
    moreover have "le_field dv off 3 =
        uint (dv ! off) OR push_bit 8 (uint (dv ! (off + 1))) OR push_bit 16 (uint (dv ! (off + 2)))"
      by (simp only: le_field_3 or24)
    ultimately show ?thesis
      using le_field_3_range [of dv off] le_field_3 [of dv off] by auto
  qed
  have r16: "\<exists>v. readInt16LE dv off = Inr v \<and>
           v = uint (dv ! off) + 256 * uint (dv ! (off + 1)) \<and>
           v = uint (dv ! off) OR push_bit 8 (uint (dv ! (off + 1))) \<and>
           0 \<le> v \<and> v < 2 ^ 16" if "off + 1 < byteLength dv" for dv off
  proof -
    have "readInt16LE dv off = Inr (le_field dv off 2)"
      using that by (simp add: readInt16LE_inside byteLength_def)
    moreover have "le_field dv off 2 = uint (dv ! off) OR push_bit 8 (uint (dv ! (off + 1)))"
      by (simp only: le_field_2 or16)
    ultimately show ?thesis
      using le_field_2_range [of dv off] le_field_2 [of dv off] by auto
  qed
  have g: "parseGeneralStatus dv m = Inr (GeneralStatus_layout dv (if m then 1 else 0))"
    if "19 + (if m then 1 else 0) \<le> byteLength dv" for dv m
    using that parseGeneralStatus_long [of m dv] by (simp add: mux_offset_def byteLength_def)
  have a: "parseAdditionalStatus dv m = Inr (AdditionalStatus_layout dv (if m then 1 else 0))"
    if "16 + (if m then 1 else 0) \<le> byteLength dv" for dv m
    using that parseAdditionalStatus_long [of m dv] by (simp add: mux_offset_def byteLength_def)
  have s: "parseStrokeData dv m = Inr (StrokeData_layout dv (if m then 1 else 0))"
    if "20 + (if m then 1 else 0) \<le> byteLength dv" for dv m
    using that parseStrokeData_long [of m dv] by (simp add: mux_offset_def byteLength_def)
  have p: "parseSplitIntervalData dv m = Inr (SplitData_layout dv (if m then 1 else 0))"
    if "18 + (if m then 1 else 0) \<le> byteLength dv" for dv m
    using that parseSplitIntervalData_long [of m dv] by (simp add: mux_offset_def byteLength_def)
  from r24 r16 g a s p show ?thesis by blast
qed

theorem multi_byte_fields_little_endian_unsigned_witness:
  "readInt24LE [0x01, 0x02, 0x03, 0x04] 1 = Inr 0x040302 \<and>
   readInt16LE [0x01, 0x02, 0x03, 0x04] 2 = Inr 0x0403 \<and>
   readInt24LE [0xFF, 0xFF, 0xFF] 0 = Inr 16777215 \<and>
   parseGeneralStatus (replicate 20 1) True = Inr (GeneralStatus_layout (replicate 20 1) 1) \<and>
   parseAdditionalStatus (replicate 16 1) False =
     Inr (AdditionalStatus_layout (replicate 16 1) 0) \<and>
   parseStrokeData (replicate 21 1) True = Inr (StrokeData_layout (replicate 21 1) 1) \<and>
   parseSplitIntervalData (replicate 18 1) False = Inr (SplitData_layout (replicate 18 1) 0)"
proof -
  have a: "(1::nat) + 2 < byteLength [0x01, 0x02, 0x03, 0x04]"
    and b: "(2::nat) + 1 < byteLength [0x01, 0x02, 0x03, 0x04]"
    and c: "(0::nat) + 2 < byteLength [0xFF, 0xFF, 0xFF]"
    and d: "19 + (if True then 1 else 0) \<le> byteLength (replicate 20 1)"
    and e: "16 + (if False then 1 else 0) \<le> byteLength (replicate 16 1)"
    and f: "20 + (if True then 1 else 0) \<le> byteLength (replicate 21 1)"
    and g: "18 + (if False then 1 else 0) \<le> byteLength (replicate 18 1)"
    by (simp_all add: byteLength_def)
  note t = multi_byte_fields_little_endian_unsigned
  have "readInt24LE [0x01, 0x02, 0x03, 0x04] 1 = Inr 0x040302"
    using t a by auto
  moreover have "readInt16LE [0x01, 0x02, 0x03, 0x04] 2 = Inr 0x0403"
    using t b by auto
  moreover have "readInt24LE [0xFF, 0xFF, 0xFF] 0 = Inr 16777215"
    using t c by auto
  moreover have
    "parseGeneralStatus (replicate 20 1) True = Inr (GeneralStatus_layout (replicate 20 1) 1)"
    using t d by (metis (full_types))
  moreover have
    "parseAdditionalStatus (replicate 16 1) False =
       Inr (AdditionalStatus_layout (replicate 16 1) 0)"
    using t e by (metis (full_types))
  moreover have
    "parseStrokeData (replicate 21 1) True = Inr (StrokeData_layout (replicate 21 1) 1)"
    using t f by (metis (full_types))
  moreover have
    "parseSplitIntervalData (replicate 18 1) False = Inr (SplitData_layout (replicate 18 1) 0)"
    using t g by (metis (full_types))
  ultimately show ?thesis by simp
qed

subsection \<open>Length check\<close>

lemma parseGeneralStatus_length:
  "(byteLength dv < 19 + (if m then 1 else 0) \<longrightarrow>
      parseGeneralStatus dv m =
        Inl (InvalidDataLength ''general status'' (byteLength dv) (19 + (if m then 1 else 0)))) \<and>
   (19 + (if m then 1 else 0) \<le> byteLength dv \<longrightarrow>
      (\<exists>r. parseGeneralStatus dv m = Inr r \<and> (\<forall>extra. parseGeneralStatus (dv @ extra) m = Inr r))) \<and>
   (isl (parseGeneralStatus dv m) \<longleftrightarrow> byteLength dv < 19 + (if m then 1 else 0))"
proof -
  have "parseGeneralStatus (dv @ extra) m = Inr (GeneralStatus_layout dv (mux_offset m))"
    if "19 + mux_offset m \<le> length dv" for extra
    using that parseGeneralStatus_long [of m "dv @ extra"]
      GeneralStatus_layout_append [of "mux_offset m" dv extra]
    by simp
  from this [of "[]"] this show ?thesis
    using parseGeneralStatus_short [of dv m]
    by (cases "length dv < 19 + mux_offset m")
      (auto simp add: byteLength_def mux_offset_def)
qed

lemma parseAdditionalStatus_length:
  "(byteLength dv < 16 + (if m then 1 else 0) \<longrightarrow>
      parseAdditionalStatus dv m =
        Inl (InvalidDataLength ''additional status'' (byteLength dv) (16 + (if m then 1 else 0)))) \<and>
   (16 + (if m then 1 else 0) \<le> byteLength dv \<longrightarrow>
      (\<exists>r. parseAdditionalStatus dv m = Inr r \<and> (\<forall>extra. parseAdditionalStatus (dv @ extra) m = Inr r))) \<and>
   (isl (parseAdditionalStatus dv m) \<longleftrightarrow> byteLength dv < 16 + (if m then 1 else 0))"
proof -
  have "parseAdditionalStatus (dv @ extra) m = Inr (AdditionalStatus_layout dv (mux_offset m))"
    if "16 + mux_offset m \<le> length dv" for extra
    using that parseAdditionalStatus_long [of m "dv @ extra"]
      AdditionalStatus_layout_append [of "mux_offset m" dv extra]
    by simp
  from this [of "[]"] this show ?thesis
    using parseAdditionalStatus_short [of dv m]
    by (cases "length dv < 16 + mux_offset m")
      (auto simp add: byteLength_def mux_offset_def)
qed

lemma parseStrokeData_length:
  "(byteLength dv < 20 + (if m then 1 else 0) \<longrightarrow>
      parseStrokeData dv m =
        Inl (InvalidDataLength ''stroke data'' (byteLength dv) (20 + (if m then 1 else 0)))) \<and>
   (20 + (if m then 1 else 0) \<le> byteLength dv \<longrightarrow>
      (\<exists>r. parseStrokeData dv m = Inr r \<and> (\<forall>extra. parseStrokeData (dv @ extra) m = Inr r))) \<and>
   (isl (parseStrokeData dv m) \<longleftrightarrow> byteLength dv < 20 + (if m then 1 else 0))"
proof -
  have "parseStrokeData (dv @ extra) m = Inr (StrokeData_layout dv (mux_offset m))"
    if "20 + mux_offset m \<le> length dv" for extra
    using that parseStrokeData_long [of m "dv @ extra"]
      StrokeData_layout_append [of "mux_offset m" dv extra]
    by simp
  from this [of "[]"] this show ?thesis
    using parseStrokeData_short [of dv m]
    by (cases "length dv < 20 + mux_offset m")
      (auto simp add: byteLength_def mux_offset_def)
qed

lemma parseSplitIntervalData_length:
  "(byteLength dv < 18 + (if m then 1 else 0) \<longrightarrow>
      parseSplitIntervalData dv m =
        Inl (InvalidDataLength ''split data'' (byteLength dv) (18 + (if m then 1 else 0)))) \<and>
   (18 + (if m then 1 else 0) \<le> byteLength dv \<longrightarrow>
      (\<exists>r. parseSplitIntervalData dv m = Inr r \<and> (\<forall>extra. parseSplitIntervalData (dv @ extra) m = Inr r))) \<and>
   (isl (parseSplitIntervalData dv m) \<longleftrightarrow> byteLength dv < 18 + (if m then 1 else 0))"
proof -
  have "parseSplitIntervalData (dv @ extra) m = Inr (SplitData_layout dv (mux_offset m))"
    if "18 + mux_offset m \<le> length dv" for extra
    using that parseSplitIntervalData_long [of m "dv @ extra"]
      SplitData_layout_append [of "mux_offset m" dv extra]
    by simp
  from this [of "[]"] this show ?thesis
    using parseSplitIntervalData_short [of dv m]
    by (cases "length dv < 18 + mux_offset m")
      (auto simp add: byteLength_def mux_offset_def)
qed

text \<open>
  Claim C2. For each of the four record types and every byte sequence, decoding fails if
  and only if the sequence is shorter than the record's minimum length (19, 16, 20 and 18
  bytes, plus one when multiplexed); the error then carries the actual and the expected
  length; a sequence of at least the minimum length decodes, and bytes appended after it
  do not change the result.
\<close>

theorem decode_fails_iff_too_short:
  "((byteLength dv < 19 + (if m then 1 else 0) \<longrightarrow>
       parseGeneralStatus dv m =
         Inl (InvalidDataLength ''general status'' (byteLength dv) (19 + (if m then 1 else 0)))) \<and>
    (19 + (if m then 1 else 0) \<le> byteLength dv \<longrightarrow>
       (\<exists>r. parseGeneralStatus dv m = Inr r \<and> (\<forall>extra. parseGeneralStatus (dv @ extra) m = Inr r))) \<and>
    (isl (parseGeneralStatus dv m) \<longleftrightarrow> byteLength dv < 19 + (if m then 1 else 0))) \<and>
   ((byteLength dv < 16 + (if m then 1 else 0) \<longrightarrow>
       parseAdditionalStatus dv m =
         Inl (InvalidDataLength ''additional status'' (byteLength dv) (16 + (if m then 1 else 0)))) \<and>
    (16 + (if m then 1 else 0) \<le> byteLength dv \<longrightarrow>
       (\<exists>r. parseAdditionalStatus dv m = Inr r \<and> (\<forall>extra. parseAdditionalStatus (dv @ extra) m = Inr r))) \<and>
    (isl (parseAdditionalStatus dv m) \<longleftrightarrow> byteLength dv < 16 + (if m then 1 else 0))) \<and>
   ((byteLength dv < 20 + (if m then 1 else 0) \<longrightarrow>
       parseStrokeData dv m =
         Inl (InvalidDataLength ''stroke data'' (byteLength dv) (20 + (if m then 1 else 0)))) \<and>
    (20 + (if m then 1 else 0) \<le> byteLength dv \<longrightarrow>
       (\<exists>r. parseStrokeData dv m = Inr r \<and> (\<forall>extra. parseStrokeData (dv @ extra) m = Inr r))) \<and>
    (isl (parseStrokeData dv m) \<longleftrightarrow> byteLength dv < 20 + (if m then 1 else 0))) \<and>
   ((byteLength dv < 18 + (if m then 1 else 0) \<longrightarrow>
       parseSplitIntervalData dv m =
         Inl (InvalidDataLength ''split data'' (byteLength dv) (18 + (if m then 1 else 0)))) \<and>
    (18 + (if m then 1 else 0) \<le> byteLength dv \<longrightarrow>
       (\<exists>r. parseSplitIntervalData dv m = Inr r \<and> (\<forall>extra. parseSplitIntervalData (dv @ extra) m = Inr r))) \<and>
    (isl (parseSplitIntervalData dv m) \<longleftrightarrow> byteLength dv < 18 + (if m then 1 else 0)))"
  using parseGeneralStatus_length [of dv m] parseAdditionalStatus_length [of dv m]
    parseStrokeData_length [of dv m] parseSplitIntervalData_length [of dv m]
  by blast

theorem decode_fails_iff_too_short_witness:
  "parseGeneralStatus (replicate 18 0) False =
     Inl (InvalidDataLength ''general status'' 18 19) \<and>
   parseAdditionalStatus (replicate 16 0) True =
     Inl (InvalidDataLength ''additional status'' 16 17) \<and>
   parseStrokeData [] False = Inl (InvalidDataLength ''stroke data'' 0 20) \<and>
   parseSplitIntervalData (replicate 17 0) False =
     Inl (InvalidDataLength ''split data'' 17 18) \<and>
   \<not> isl (parseGeneralStatus example_frame False) \<and>
   parseGeneralStatus (example_frame @ [0xAA, 0xBB]) False =
     parseGeneralStatus example_frame False \<and>
   \<not> isl (parseAdditionalStatus (replicate 17 1) True) \<and>
   \<not> isl (parseStrokeData (replicate 20 1) False) \<and>
   \<not> isl (parseSplitIntervalData (replicate 30 1) True)"
proof -
  have "parseGeneralStatus (replicate 18 0) False =
     Inl (InvalidDataLength ''general status'' 18 19)"
    using decode_fails_iff_too_short [of "replicate 18 0" False]
    by (simp add: byteLength_def)
  moreover have "parseAdditionalStatus (replicate 16 0) True =
     Inl (InvalidDataLength ''additional status'' 16 17)"
    using decode_fails_iff_too_short [of "replicate 16 0" True]
    by (simp add: byteLength_def)
  moreover have "parseStrokeData [] False = Inl (InvalidDataLength ''stroke data'' 0 20)"
    using decode_fails_iff_too_short [of "[]" False]
    by (simp add: byteLength_def)
  moreover have "parseSplitIntervalData (replicate 17 0) False =
     Inl (InvalidDataLength ''split data'' 17 18)"
    using decode_fails_iff_too_short [of "replicate 17 0" False]
    by (simp add: byteLength_def)
  moreover have "\<not> isl (parseGeneralStatus example_frame False) \<and>
     parseGeneralStatus (example_frame @ [0xAA, 0xBB]) False =
       parseGeneralStatus example_frame False"
  proof -
    have "19 + (if False then 1 else 0) \<le> byteLength example_frame"
      by (simp add: byteLength_def example_frame_def)
    with decode_fails_iff_too_short [of example_frame False]
    obtain r where "parseGeneralStatus example_frame False = Inr r"
      and "\<forall>extra. parseGeneralStatus (example_frame @ extra) False = Inr r"
      by blast
    then show ?thesis by simp
  qed
  moreover have "\<not> isl (parseAdditionalStatus (replicate 17 1) True)"
    using decode_fails_iff_too_short [of "replicate 17 1" True]
    by (simp add: byteLength_def)
  moreover have "\<not> isl (parseStrokeData (replicate 20 1) False)"
    using decode_fails_iff_too_short [of "replicate 20 1" False]
    by (simp add: byteLength_def)
  moreover have "\<not> isl (parseSplitIntervalData (replicate 30 1) True)"
    using decode_fails_iff_too_short [of "replicate 30 1" True]
    by (simp add: byteLength_def)
  ultimately show ?thesis by simp
qed

subsection \<open>The multiplexed envelope\<close>

lemma getUint8_tag: "getUint8 (tag # payload) 0 = Inr (uint tag)"
  by (simp add: getUint8_def byteLength_def)

lemma parseGeneralStatus_enveloped:
  "19 \<le> byteLength payload \<Longrightarrow>
   parseGeneralStatus (tag # payload) True = parseGeneralStatus payload False"
  using parseGeneralStatus_long [of True "tag # payload"] parseGeneralStatus_long [of False payload]
    GeneralStatus_layout_Cons [of tag payload]
  by (simp add: mux_offset_def byteLength_def)

lemma parseAdditionalStatus_enveloped:
  "16 \<le> byteLength payload \<Longrightarrow>
   parseAdditionalStatus (tag # payload) True = parseAdditionalStatus payload False"
  using parseAdditionalStatus_long [of True "tag # payload"]
    parseAdditionalStatus_long [of False payload]
    AdditionalStatus_layout_Cons [of tag payload]
  by (simp add: mux_offset_def byteLength_def)

lemma parseStrokeData_enveloped:
  "20 \<le> byteLength payload \<Longrightarrow>
   parseStrokeData (tag # payload) True = parseStrokeData payload False"
  using parseStrokeData_long [of True "tag # payload"] parseStrokeData_long [of False payload]
    StrokeData_layout_Cons [of tag payload]
  by (simp add: mux_offset_def byteLength_def)

lemma parseSplitIntervalData_enveloped:
  "18 \<le> byteLength payload \<Longrightarrow>
   parseSplitIntervalData (tag # payload) True = parseSplitIntervalData payload False"
  using parseSplitIntervalData_long [of True "tag # payload"]
    parseSplitIntervalData_long [of False payload]
    SplitData_layout_Cons [of tag payload]
  by (simp add: mux_offset_def byteLength_def)

lemma parseMultiplexedData_0x31:
  "parseMultiplexedData (0x31 # payload) =
     bindE (parseGeneralStatus (0x31 # payload) True) (\<lambda>d.
       Inr \<lparr> mx_type = ''general_status'', mx_uuid = None, mx_data = GeneralStatusData d \<rparr>)"
  by (simp add: parseMultiplexedData_def getUint8_tag)

lemma parseMultiplexedData_0x32:
  "parseMultiplexedData (0x32 # payload) =
     bindE (parseAdditionalStatus (0x32 # payload) True) (\<lambda>d.
       Inr \<lparr> mx_type = ''additional_status'', mx_uuid = None,
             mx_data = AdditionalStatusData d \<rparr>)"
  by (simp add: parseMultiplexedData_def getUint8_tag)

lemma parseMultiplexedData_0x35:
  "parseMultiplexedData (0x35 # payload) =
     bindE (parseStrokeData (0x35 # payload) True) (\<lambda>d.
       Inr \<lparr> mx_type = ''stroke_data'', mx_uuid = None, mx_data = StrokeDataData d \<rparr>)"
  by (simp add: parseMultiplexedData_def getUint8_tag)

lemma parseMultiplexedData_0x37:
  "parseMultiplexedData (0x37 # payload) =
     bindE (parseSplitIntervalData (0x37 # payload) True) (\<lambda>d.
       Inr \<lparr> mx_type = ''split_data'', mx_uuid = None, mx_data = SplitDataData d \<rparr>)"
  by (simp add: parseMultiplexedData_def getUint8_tag)

lemma general_status_enveloped:
  assumes "19 \<le> byteLength payload"
  shows "\<exists>r. parseGeneralStatus payload False = Inr r \<and>
     parseMultiplexedData (0x31 # payload) =
       Inr \<lparr> mx_type = ''general_status'', mx_uuid = None, mx_data = GeneralStatusData r \<rparr>"
proof -
  have "parseGeneralStatus payload False = Inr (GeneralStatus_layout payload 0)"
    using assms parseGeneralStatus_long [of False payload]
    by (simp add: mux_offset_def byteLength_def)
  then show ?thesis
    using assms parseGeneralStatus_enveloped [of payload "0x31"]
    by (simp add: parseMultiplexedData_0x31)
qed

lemma additional_status_enveloped:
  assumes "16 \<le> byteLength payload"
  shows "\<exists>r. parseAdditionalStatus payload False = Inr r \<and>
     parseMultiplexedData (0x32 # payload) =
       Inr \<lparr> mx_type = ''additional_status'', mx_uuid = None,
             mx_data = AdditionalStatusData r \<rparr>"
proof -
  have "parseAdditionalStatus payload False = Inr (AdditionalStatus_layout payload 0)"
    using assms parseAdditionalStatus_long [of False payload]
    by (simp add: mux_offset_def byteLength_def)
  then show ?thesis
    using assms parseAdditionalStatus_enveloped [of payload "0x32"]
    by (simp add: parseMultiplexedData_0x32)
qed

lemma stroke_data_enveloped:
  assumes "20 \<le> byteLength payload"
  shows "\<exists>r. parseStrokeData payload False = Inr r \<and>
     parseMultiplexedData (0x35 # payload) =
       Inr \<lparr> mx_type = ''stroke_data'', mx_uuid = None, mx_data = StrokeDataData r \<rparr>"
proof -
  have "parseStrokeData payload False = Inr (StrokeData_layout payload 0)"
    using assms parseStrokeData_long [of False payload]
    by (simp add: mux_offset_def byteLength_def)
  then show ?thesis
    using assms parseStrokeData_enveloped [of payload "0x35"]
    by (simp add: parseMultiplexedData_0x35)
qed

lemma split_data_enveloped:
  assumes "18 \<le> byteLength payload"
  shows "\<exists>r. parseSplitIntervalData payload False = Inr r \<and>
     parseMultiplexedData (0x37 # payload) =
       Inr \<lparr> mx_type = ''split_data'', mx_uuid = None, mx_data = SplitDataData r \<rparr>"
proof -
  have "parseSplitIntervalData payload False = Inr (SplitData_layout payload 0)"
    using assms parseSplitIntervalData_long [of False payload]
    by (simp add: mux_offset_def byteLength_def)
  then show ?thesis
    using assms parseSplitIntervalData_enveloped [of payload "0x37"]
    by (simp add: parseMultiplexedData_0x37)
qed


text \<open>
  Claim C3. For every 19-byte GeneralStatus payload, decoding the 20-byte frame made of the
  tag \<open>0x31\<close> followed by the payload with \<open>parseMultiplexedData\<close> gives the same record as
  decoding the payload alone with \<open>parseGeneralStatus\<close> and \<open>isMultiplexed = false\<close>
  (first conjunct; the second one extends it to longer payloads). Likewise the tags
  \<open>0x32\<close>, \<open>0x35\<close> and \<open>0x37\<close> give the record that \<open>parseAdditionalStatus\<close>,
  \<open>parseStrokeData\<close> and \<open>parseSplitIntervalData\<close> decode from the payload alone. The last
  four conjuncts are the routing itself, for payloads of any length: each tag hands the
  whole frame to its decoder with \<open>isMultiplexed = true\<close>, that is at payload offset 1,
  and an error of that decoder is the error of the envelope.
\<close>

theorem multiplexed_envelope_decodes_payload:
  "(byteLength payload = 19 \<longrightarrow>
      (\<exists>r. parseGeneralStatus payload False = Inr r \<and>
           parseMultiplexedData (0x31 # payload) =
             Inr \<lparr> mx_type = ''general_status'', mx_uuid = None,
                   mx_data = GeneralStatusData r \<rparr>)) \<and>
   (19 \<le> byteLength payload \<longrightarrow>
      (\<exists>r. parseGeneralStatus payload False = Inr r \<and>
           parseMultiplexedData (0x31 # payload) =
             Inr \<lparr> mx_type = ''general_status'', mx_uuid = None,
                   mx_data = GeneralStatusData r \<rparr>)) \<and>
   (16 \<le> byteLength payload \<longrightarrow>
      (\<exists>r. parseAdditionalStatus payload False = Inr r \<and>
           parseMultiplexedData (0x32 # payload) =
             Inr \<lparr> mx_type = ''additional_status'', mx_uuid = None,
                   mx_data = AdditionalStatusData r \<rparr>)) \<and>
   (20 \<le> byteLength payload \<longrightarrow>
      (\<exists>r. parseStrokeData payload False = Inr r \<and>
           parseMultiplexedData (0x35 # payload) =
             Inr \<lparr> mx_type = ''stroke_data'', mx_uuid = None,
                   mx_data = StrokeDataData r \<rparr>)) \<and>
   (18 \<le> byteLength payload \<longrightarrow>
      (\<exists>r. parseSplitIntervalData payload False = Inr r \<and>
           parseMultiplexedData (0x37 # payload) =
             Inr \<lparr> mx_type = ''split_data'', mx_uuid = None,
                   mx_data = SplitDataData r \<rparr>)) \<and>
   parseMultiplexedData (0x31 # payload) =
     bindE (parseGeneralStatus (0x31 # payload) True) (\<lambda>d.
       Inr \<lparr> mx_type = ''general_status'', mx_uuid = None, mx_data = GeneralStatusData d \<rparr>) \<and>
   parseMultiplexedData (0x32 # payload) =
     bindE (parseAdditionalStatus (0x32 # payload) True) (\<lambda>d.
       Inr \<lparr> mx_type = ''additional_status'', mx_uuid = None,
             mx_data = AdditionalStatusData d \<rparr>) \<and>
   parseMultiplexedData (0x35 # payload) =
     bindE (parseStrokeData (0x35 # payload) True) (\<lambda>d.
       Inr \<lparr> mx_type = ''stroke_data'', mx_uuid = None, mx_data = StrokeDataData d \<rparr>) \<and>
   parseMultiplexedData (0x37 # payload) =
     bindE (parseSplitIntervalData (0x37 # payload) True) (\<lambda>d.
       Inr \<lparr> mx_type = ''split_data'', mx_uuid = None, mx_data = SplitDataData d \<rparr>)"
  using general_status_enveloped [of payload] additional_status_enveloped [of payload]
    stroke_data_enveloped [of payload] split_data_enveloped [of payload]
    parseMultiplexedData_0x31 [of payload] parseMultiplexedData_0x32 [of payload]
    parseMultiplexedData_0x35 [of payload] parseMultiplexedData_0x37 [of payload]
  by simp

theorem multiplexed_envelope_decodes_payload_witness:
  "parseMultiplexedData (0x31 # example_frame) =
     Inr \<lparr> mx_type = ''general_status'', mx_uuid = None,
           mx_data = GeneralStatusData
             \<lparr> elapsed_time = 1, distance = 100, workout_type = 1, interval_type = 0,
               workout_state = 1, rowing_state = 1, stroke_state = 2,
               total_work_distance = 0, workout_duration = 0, workout_duration_type = 0,
               drag_factor = 115 \<rparr> \<rparr> \<and>
   (\<exists>r. parseAdditionalStatus (replicate 16 2) False = Inr r \<and>
        parseMultiplexedData (0x32 # replicate 16 2) =
          Inr \<lparr> mx_type = ''additional_status'', mx_uuid = None,
                mx_data = AdditionalStatusData r \<rparr>) \<and>
   (\<exists>r. parseStrokeData (replicate 20 2) False = Inr r \<and>
        parseMultiplexedData (0x35 # replicate 20 2) =
          Inr \<lparr> mx_type = ''stroke_data'', mx_uuid = None, mx_data = StrokeDataData r \<rparr>) \<and>
   (\<exists>r. parseSplitIntervalData (replicate 18 2) False = Inr r \<and>
        parseMultiplexedData (0x37 # replicate 18 2) =
          Inr \<lparr> mx_type = ''split_data'', mx_uuid = None, mx_data = SplitDataData r \<rparr>)"
proof -
  have run: "parseGeneralStatus example_frame False =
     Inr \<lparr> elapsed_time = 1, distance = 100, workout_type = 1, interval_type = 0,
           workout_state = 1, rowing_state = 1, stroke_state = 2,
           total_work_distance = 0, workout_duration = 0, workout_duration_type = 0,
           drag_factor = 115 \<rparr>"
    by code_simp
  have "byteLength example_frame = 19"
    by (simp add: byteLength_def example_frame_def)
  with multiplexed_envelope_decodes_payload [of example_frame, THEN conjunct1] run
  have g: "parseMultiplexedData (0x31 # example_frame) =
     Inr \<lparr> mx_type = ''general_status'', mx_uuid = None,
           mx_data = GeneralStatusData
             \<lparr> elapsed_time = 1, distance = 100, workout_type = 1, interval_type = 0,
               workout_state = 1, rowing_state = 1, stroke_state = 2,
               total_work_distance = 0, workout_duration = 0, workout_duration_type = 0,
               drag_factor = 115 \<rparr> \<rparr>"
    by auto
  have a: "\<exists>r. parseAdditionalStatus (replicate 16 2) False = Inr r \<and>
        parseMultiplexedData (0x32 # replicate 16 2) =
          Inr \<lparr> mx_type = ''additional_status'', mx_uuid = None,
                mx_data = AdditionalStatusData r \<rparr>"
    using multiplexed_envelope_decodes_payload
      [of "replicate 16 2", THEN conjunct2, THEN conjunct2, THEN conjunct1]
    by (simp add: byteLength_def)
  have s: "\<exists>r. parseStrokeData (replicate 20 2) False = Inr r \<and>
        parseMultiplexedData (0x35 # replicate 20 2) =
          Inr \<lparr> mx_type = ''stroke_data'', mx_uuid = None, mx_data = StrokeDataData r \<rparr>"
    using multiplexed_envelope_decodes_payload
      [of "replicate 20 2", THEN conjunct2, THEN conjunct2, THEN conjunct2, THEN conjunct1]
    by (simp add: byteLength_def)
  have p: "\<exists>r. parseSplitIntervalData (replicate 18 2) False = Inr r \<and>
        parseMultiplexedData (0x37 # replicate 18 2) =
          Inr \<lparr> mx_type = ''split_data'', mx_uuid = None, mx_data = SplitDataData r \<rparr>"
    using multiplexed_envelope_decodes_payload
      [of "replicate 18 2", THEN conjunct2, THEN conjunct2, THEN conjunct2, THEN conjunct2,
        THEN conjunct1]
    by (simp add: byteLength_def)
  from g a s p show ?thesis by blast
qed


subsection \<open>Unknown tags\<close>

text \<open>
  Claim C4, as amended. For every non-empty multiplexed frame whose first byte is not one
  of \<open>0x31\<close>, \<open>0x32\<close>, \<open>0x35\<close>, \<open>0x37\<close>, \<open>parseMultiplexedData\<close> raises no error and
  returns the outcome of type \<open>unknown\<close> that carries that tag, with \<open>data\<close> equal to
  \<open>null\<close>: the remaining bytes of the frame are not part of the outcome.
\<close>

theorem unknown_tag_decodes_without_payload:
  assumes "dv \<noteq> []"
    and "uint (hd dv) \<notin> {0x31, 0x32, 0x35, 0x37}"
  shows "parseMultiplexedData dv =
     Inr \<lparr> mx_type = ''unknown'', mx_uuid = Some (uint (hd dv)), mx_data = Null \<rparr>"
proof -
  obtain tag payload where dv: "dv = tag # payload"
    using assms(1) by (cases dv) auto
  show ?thesis
    using assms(2) by (simp add: dv parseMultiplexedData_def getUint8_tag)
qed

theorem unknown_tag_decodes_without_payload_witness:
  "[0x40, 0x01, 0x02] \<noteq> ([] :: data_view) \<and>
   uint (hd [0x40 :: byte, 0x01, 0x02]) \<notin> {0x31, 0x32, 0x35, 0x37} \<and>
   parseMultiplexedData [0x40, 0x01, 0x02] =
     Inr \<lparr> mx_type = ''unknown'', mx_uuid = Some 0x40, mx_data = Null \<rparr>"
proof -
  have a: "[0x40, 0x01, 0x02] \<noteq> ([] :: data_view)"
    by simp
  have b: "uint (hd [0x40 :: byte, 0x01, 0x02]) \<notin> {0x31, 0x32, 0x35, 0x37}"
    by simp
  from unknown_tag_decodes_without_payload [OF a b] a b show ?thesis
    by simp
qed


text \<open>
  Claim C4 as stated asks the unknown outcome to carry the remaining payload bytes. The
  frame \<open>40 01 02\<close> decodes to the outcome with tag \<open>0x40\<close> and \<open>data = null\<close>, and the
  frame \<open>40 09\<close>, with another payload, decodes to the very same outcome, so the payload
  cannot be read back from it.
\<close>

theorem unknown_tag_payload_not_carried:
  "parseMultiplexedData [0x40, 0x01, 0x02] =
     Inr \<lparr> mx_type = ''unknown'', mx_uuid = Some 0x40, mx_data = Null \<rparr> \<and>
   parseMultiplexedData [0x40, 0x09] = parseMultiplexedData [0x40, 0x01, 0x02]"
  by (simp add: parseMultiplexedData_def getUint8_def byteLength_def)

section \<open>Claims about the device class\<close>

lemmas io_defs = returnS_def throwS_def bindS_def thenS_def try_catch_def liftE_def
  console_error_def deliver_def whenS_def

subsection \<open>sendControlBytes\<close>

lemma digit_value_less: "is_hex_digit c \<Longrightarrow> digit_value c < 16"
  by (auto simp add: is_hex_digit_def digit_value_def Let_def)

lemma parseInt16_pair:
  "is_hex_digit a \<Longrightarrow> is_hex_digit b \<Longrightarrow>
   parseInt16 [a, b] = Some (16 * digit_value a + digit_value b)"
  by (simp add: parseInt16_def)

lemma unat_byte_of_nat: "n < 256 \<Longrightarrow> unat (of_nat n :: byte) = n"
  by (simp only: unat_of_nat) simp

lemma to_uint8_pair:
  assumes "is_hex_digit a" "is_hex_digit b"
  shows "unat (to_uint8 (parseInt16 [a, b])) = 16 * digit_value a + digit_value b"
proof -
  have "16 * digit_value a + digit_value b < 256"
    using digit_value_less [OF assms(1)] digit_value_less [OF assms(2)] by simp
  then have "unat (of_nat (16 * digit_value a + digit_value b) :: byte) =
      16 * digit_value a + digit_value b"
    by (rule unat_byte_of_nat)
  moreover have "to_uint8 (parseInt16 [a, b]) = of_nat (16 * digit_value a + digit_value b)"
    by (simp only: parseInt16_pair [OF assms] to_uint8_def option.case)
  ultimately show ?thesis by (simp only:)
qed

lemma hex_loop_pairs:
  "\<forall>c \<in> set s. is_hex_digit c \<Longrightarrow> even (length s) \<Longrightarrow>
   length (hex_loop s) = length s div 2 \<and>
   (\<forall>i < length s div 2.
      unat (hex_loop s ! i) = 16 * digit_value (s ! (2 * i)) + digit_value (s ! (2 * i + 1)))"
proof (induction s rule: hex_loop.induct)
  case (1 a b rest)
  then have ih: "length (hex_loop rest) = length rest div 2"
    "\<And>i. i < length rest div 2 \<Longrightarrow>
       unat (hex_loop rest ! i) =
         16 * digit_value (rest ! (2 * i)) + digit_value (rest ! (2 * i + 1))"
    by simp_all
  have first: "unat (to_uint8 (parseInt16 [a, b])) = 16 * digit_value a + digit_value b"
    using "1.prems" by (simp add: to_uint8_pair)
  show ?case
  proof (intro conjI allI impI)
    show "length (hex_loop (a # b # rest)) = length (a # b # rest) div 2"
      using ih(1) by simp
  next
    fix i assume "i < length (a # b # rest) div 2"
    then show "unat (hex_loop (a # b # rest) ! i) =
        16 * digit_value ((a # b # rest) ! (2 * i)) + digit_value ((a # b # rest) ! (2 * i + 1))"
      using ih(2) [of "i - 1"] first by (cases i) simp_all
  qed
next
  case (2 a)
  then show ?case by simp
next
  case 3
  then show ?case by simp
qed

lemma clean_hex_digits: "\<forall>c \<in> set (clean_hex s). is_hex_digit c"
  by (simp add: clean_hex_def)

lemma sendControlBytes_cases:
  "sendControlBytes s w =
     (if odd (length (clean_hex s)) then
        (Inl HexStringOddLength,
         w\<lparr>console_errors := console_errors w @
              [(''Error sending control bytes:'', HexStringOddLength)]\<rparr>)
      else if CONTROL \<notin> services w then
        (Inl TypeError,
         w\<lparr>console_errors := console_errors w @ [(''Error sending control bytes:'', TypeError)]\<rparr>)
      else if link_up w \<and> has_characteristic w CONTROL TRANSMIT then
        (Inr True,
         w\<lparr>written := written w @
              [(TRANSMIT, take (length (clean_hex s) div 2) (hex_loop (clean_hex s)))]\<rparr>)
      else
        (Inl TransportError,
         w\<lparr>console_errors := console_errors w @
              [(''Error sending control bytes:'', TransportError)]\<rparr>))"
  by (simp add: sendControlBytes_def io_defs getCharacteristic_def writeValue_def Let_def
      odd_iff_mod_2_eq_one)

lemma demo_connected_ready:
  "CONTROL \<in> services demo_connected \<and> ROWING \<in> services demo_connected \<and>
   link_up demo_connected \<and> isConnected demo_connected \<and>
   has_characteristic demo_connected CONTROL TRANSMIT"
  by code_simp

text \<open>
  Claim C10, as amended. \<open>sendControlBytes\<close> first strips every character that is not a
  hexadecimal digit. It raises the length error if and only if the number of remaining
  digits is odd, and then writes nothing. With an even number \<open>n\<close> of digits, and the control
  service obtained, the link up and the transmit characteristic present, it returns
  \<open>true\<close> and writes exactly \<open>n / 2\<close> bytes to the transmit characteristic, byte \<open>i\<close> being
  the value of the \<open>i\<close>-th pair of digits; if the control service was never obtained or the
  transport rejects, it raises that error instead and writes nothing. Two inputs with the
  same digits behave alike, whatever separates the digits.
\<close>

theorem sendControlBytes_sends_hex_pairs:
  fixes w :: world and hexString :: string
  defines "clean \<equiv> clean_hex hexString"
  defines "result \<equiv> sendControlBytes hexString w"
  shows
    "(fst result = Inl HexStringOddLength \<longleftrightarrow> odd (length clean)) \<and>
     (odd (length clean) \<longrightarrow> written (snd result) = written w) \<and>
     (even (length clean) \<and> CONTROL \<in> services w \<and> link_up w \<and>
        has_characteristic w CONTROL TRANSMIT \<longrightarrow>
        (\<exists>bytes. fst result = Inr True \<and>
           written (snd result) = written w @ [(TRANSMIT, bytes)] \<and>
           length bytes = length clean div 2 \<and>
           (\<forall>i < length bytes.
              unat (bytes ! i) =
                16 * digit_value (clean ! (2 * i)) + digit_value (clean ! (2 * i + 1))))) \<and>
     (even (length clean) \<and> \<not> (CONTROL \<in> services w \<and> link_up w \<and>
        has_characteristic w CONTROL TRANSMIT) \<longrightarrow>
        isl (fst result) \<and> written (snd result) = written w) \<and>
     (\<forall>other. clean_hex other = clean \<longrightarrow> sendControlBytes other w = result)"
proof -
  note r = sendControlBytes_cases [of hexString w, folded result_def clean_def]
  have c1: "fst result = Inl HexStringOddLength \<longleftrightarrow> odd (length clean)"
    by (simp add: r)
  have c2: "odd (length clean) \<longrightarrow> written (snd result) = written w"
    by (simp add: r)
  have c3: "even (length clean) \<and> CONTROL \<in> services w \<and> link_up w \<and>
        has_characteristic w CONTROL TRANSMIT \<longrightarrow>
        (\<exists>bytes. fst result = Inr True \<and>
           written (snd result) = written w @ [(TRANSMIT, bytes)] \<and>
           length bytes = length clean div 2 \<and>
           (\<forall>i < length bytes.
              unat (bytes ! i) =
                16 * digit_value (clean ! (2 * i)) + digit_value (clean ! (2 * i + 1))))"
  proof (intro impI)
    assume a: "even (length clean) \<and> CONTROL \<in> services w \<and> link_up w \<and>
        has_characteristic w CONTROL TRANSMIT"
    then have pairs: "length (hex_loop clean) = length clean div 2"
      "\<And>i. i < length clean div 2 \<Longrightarrow>
        unat (hex_loop clean ! i) =
          16 * digit_value (clean ! (2 * i)) + digit_value (clean ! (2 * i + 1))"
      using hex_loop_pairs [of clean] clean_hex_digits [of hexString]
      by (simp_all add: clean_def)
    have res: "result = (Inr True, w\<lparr>written := written w @ [(TRANSMIT, hex_loop clean)]\<rparr>)"
      using a pairs(1) by (simp add: r)
    show "\<exists>bytes. fst result = Inr True \<and>
           written (snd result) = written w @ [(TRANSMIT, bytes)] \<and>
           length bytes = length clean div 2 \<and>
           (\<forall>i < length bytes.
              unat (bytes ! i) =
                16 * digit_value (clean ! (2 * i)) + digit_value (clean ! (2 * i + 1)))"
      using pairs by (intro exI [of _ "hex_loop clean"]) (simp add: res)
  qed
  have c4: "even (length clean) \<and> \<not> (CONTROL \<in> services w \<and> link_up w \<and>
        has_characteristic w CONTROL TRANSMIT) \<longrightarrow>
        isl (fst result) \<and> written (snd result) = written w"
    by (simp add: r)
  have c5: "\<forall>other. clean_hex other = clean \<longrightarrow> sendControlBytes other w = result"
  proof (intro allI impI)
    fix other
    assume "clean_hex other = clean"
    then have "clean_hex other = clean_hex hexString"
      by (simp only: clean_def)
    then show "sendControlBytes other w = result"
      by (simp only: sendControlBytes_cases result_def)
  qed
  show ?thesis
    by (intro conjI; fact)
qed

theorem sendControlBytes_sends_hex_pairs_witness:
  "even (length (clean_hex ''F1 76 03 f2'')) \<and>
   CONTROL \<in> services demo_connected \<and> link_up demo_connected \<and>
   has_characteristic demo_connected CONTROL TRANSMIT \<and>
   fst (sendControlBytes ''F1 76 03 f2'' demo_connected) = Inr True \<and>
   written (snd (sendControlBytes ''F1 76 03 f2'' demo_connected)) =
     [(TRANSMIT, [0xF1, 0x76, 0x03, 0xF2])] \<and>
   sendControlBytes ''F1:76:03:f2'' demo_connected =
     sendControlBytes ''F1 76 03 f2'' demo_connected \<and>
   odd (length (clean_hex ''F1 7'')) \<and>
   fst (sendControlBytes ''F1 7'' demo_connected) = Inl HexStringOddLength \<and>
   written (snd (sendControlBytes ''F1 7'' demo_connected)) = [] \<and>
   even (length (clean_hex ''F1 76'')) \<and> CONTROL \<notin> services demo_device \<and>
   isl (fst (sendControlBytes ''F1 76'' demo_device))"
proof -
  have e: "even (length (clean_hex ''F1 76 03 f2''))"
    by code_simp
  have o: "odd (length (clean_hex ''F1 7''))"
    by code_simp
  have e2: "even (length (clean_hex ''F1 76''))"
    by code_simp
  have n: "CONTROL \<notin> services demo_device"
    by code_simp
  have w0: "written demo_connected = []"
    by code_simp
  have same: "clean_hex ''F1:76:03:f2'' = clean_hex ''F1 76 03 f2''"
    by code_simp
  have bytes: "written (snd (sendControlBytes ''F1 76 03 f2'' demo_connected)) =
     [(TRANSMIT, [0xF1, 0x76, 0x03, 0xF2])]"
    by code_simp
  note t1 = sendControlBytes_sends_hex_pairs [of "''F1 76 03 f2''" demo_connected]
  note t2 = sendControlBytes_sends_hex_pairs [of "''F1 7''" demo_connected]
  note t3 = sendControlBytes_sends_hex_pairs [of "''F1 76''" demo_device]
  have r1: "fst (sendControlBytes ''F1 76 03 f2'' demo_connected) = Inr True"
    using t1 [THEN conjunct2, THEN conjunct2, THEN conjunct1] e demo_connected_ready by blast
  have r2: "sendControlBytes ''F1:76:03:f2'' demo_connected =
     sendControlBytes ''F1 76 03 f2'' demo_connected"
    using t1 [THEN conjunct2, THEN conjunct2, THEN conjunct2, THEN conjunct2] same by blast
  have r3: "fst (sendControlBytes ''F1 7'' demo_connected) = Inl HexStringOddLength"
    using t2 [THEN conjunct1] o by blast
  have r4: "written (snd (sendControlBytes ''F1 7'' demo_connected)) = []"
    using t2 [THEN conjunct2, THEN conjunct1] o w0 by metis
  have r5: "isl (fst (sendControlBytes ''F1 76'' demo_device))"
    using t3 [THEN conjunct2, THEN conjunct2, THEN conjunct2, THEN conjunct1] e2 n by blast
  show ?thesis
    by (intro conjI e o e2 n bytes r1 r2 r3 r4 r5
        demo_connected_ready [THEN conjunct1]
        demo_connected_ready [THEN conjunct2, THEN conjunct2, THEN conjunct1]
        demo_connected_ready [THEN conjunct2, THEN conjunct2, THEN conjunct2, THEN conjunct2])
qed

text \<open>
  Claim C10 as stated lets the call raise an error only for an odd number of digits. On a
  device object that has not connected, and on one whose link was lost, \<open>this.services\<close>
  has no \<open>control\<close> entry: the input \<open>F1 76\<close> has an even number of digits and the call
  raises a \<open>TypeError\<close>.
\<close>

theorem sendControlBytes_error_with_even_digits:
  "even (length (clean_hex ''F1 76'')) \<and>
   fst (sendControlBytes ''F1 76'' demo_device) = Inl TypeError \<and>
   fst (sendControlBytes ''F1 76'' (gattserverdisconnected demo_connected)) = Inl TypeError"
  by code_simp

subsection \<open>Effect of startRowingDataNotifications\<close>

lemma start_stream_ok:
  assumes "ROWING \<in> services w" "link_up w" "has_characteristic w ROWING u"
    and "(next_function w, body) \<notin> set (listeners w u)"
  shows "start_stream u body w =
     (Inr (), w\<lparr>notifying := (notifying w)(u := True),
               next_function := Suc (next_function w),
               listeners := (listeners w)(u := listeners w u @ [(next_function w, body)])\<rparr>)"
  using assms
  by (simp add: start_stream_def io_defs getCharacteristic_def startNotifications_def
      arrow_function_def addEventListener_def)

lemma has_characteristic_frame [simp]:
  "has_characteristic (w\<lparr>notifying := a, next_function := b, listeners := c\<rparr>) s u =
   has_characteristic w s u"
  by (simp add: has_characteristic_def)

lemma startRowingDataNotifications_ok:
  assumes "ROWING \<in> services w" "link_up w"
    and "has_characteristic w ROWING GENERAL_STATUS"
    and "has_characteristic w ROWING ADDITIONAL_STATUS"
    and "has_characteristic w ROWING STROKE_DATA"
    and "has_characteristic w ROWING SPLIT_INTERVAL_DATA"
    and "registered_before_next w"
  shows "startRowingDataNotifications w =
     (Inr (), w\<lparr>notifying := (notifying w)
                 (GENERAL_STATUS := True, ADDITIONAL_STATUS := True, STROKE_DATA := True,
                  SPLIT_INTERVAL_DATA := True),
               next_function := next_function w + 4,
               listeners := (listeners w)
                 (GENERAL_STATUS := listeners w GENERAL_STATUS @
                    [(next_function w, GeneralStatusClosure)],
                  ADDITIONAL_STATUS := listeners w ADDITIONAL_STATUS @
                    [(next_function w + 1, AdditionalStatusClosure)],
                  STROKE_DATA := listeners w STROKE_DATA @
                    [(next_function w + 2, StrokeDataClosure)],
                  SPLIT_INTERVAL_DATA := listeners w SPLIT_INTERVAL_DATA @
                    [(next_function w + 3, SplitDataClosure)])\<rparr>)"
proof -
  have fresh: "(n, b) \<notin> set (listeners w u)" if "next_function w \<le> n" for n b u
    using assms(7) that by (fastforce simp add: registered_before_next_def)
  define w1 where "w1 = w\<lparr>notifying := (notifying w)(GENERAL_STATUS := True),
               next_function := Suc (next_function w),
               listeners := (listeners w)(GENERAL_STATUS := listeners w GENERAL_STATUS @
                    [(next_function w, GeneralStatusClosure)])\<rparr>"
  have s1: "start_stream GENERAL_STATUS GeneralStatusClosure w = (Inr (), w1)"
    using assms(1-3) by (simp add: start_stream_ok w1_def fresh)
  define w2 where "w2 = w1\<lparr>notifying := (notifying w1)(ADDITIONAL_STATUS := True),
               next_function := Suc (next_function w1),
               listeners := (listeners w1)(ADDITIONAL_STATUS := listeners w1 ADDITIONAL_STATUS @
                    [(next_function w1, AdditionalStatusClosure)])\<rparr>"
  have s2: "start_stream ADDITIONAL_STATUS AdditionalStatusClosure w1 = (Inr (), w2)"
    unfolding w2_def
    using assms(1,2,4)
    by (intro start_stream_ok) (simp_all add: w1_def fresh)
  define w3 where "w3 = w2\<lparr>notifying := (notifying w2)(STROKE_DATA := True),
               next_function := Suc (next_function w2),
               listeners := (listeners w2)(STROKE_DATA := listeners w2 STROKE_DATA @
                    [(next_function w2, StrokeDataClosure)])\<rparr>"
  have s3: "start_stream STROKE_DATA StrokeDataClosure w2 = (Inr (), w3)"
    unfolding w3_def
    using assms(1,2,5)
    by (intro start_stream_ok) (simp_all add: w1_def w2_def fresh)
  define w4 where "w4 = w3\<lparr>notifying := (notifying w3)(SPLIT_INTERVAL_DATA := True),
               next_function := Suc (next_function w3),
               listeners := (listeners w3)(SPLIT_INTERVAL_DATA := listeners w3 SPLIT_INTERVAL_DATA @
                    [(next_function w3, SplitDataClosure)])\<rparr>"
  have s4: "start_stream SPLIT_INTERVAL_DATA SplitDataClosure w3 = (Inr (), w4)"
    unfolding w4_def
    using assms(1,2,6)
    by (intro start_stream_ok) (simp_all add: w1_def w2_def w3_def fresh)
  have "startRowingDataNotifications w = (Inr (), w4)"
    by (simp add: startRowingDataNotifications_def try_catch_def thenS_def bindS_def s1 s2 s3 s4)
  moreover have "w4 = w\<lparr>notifying := (notifying w)
                 (GENERAL_STATUS := True, ADDITIONAL_STATUS := True, STROKE_DATA := True,
                  SPLIT_INTERVAL_DATA := True),
               next_function := next_function w + 4,
               listeners := (listeners w)
                 (GENERAL_STATUS := listeners w GENERAL_STATUS @
                    [(next_function w, GeneralStatusClosure)],
                  ADDITIONAL_STATUS := listeners w ADDITIONAL_STATUS @
                    [(next_function w + 1, AdditionalStatusClosure)],
                  STROKE_DATA := listeners w STROKE_DATA @
                    [(next_function w + 2, StrokeDataClosure)],
                  SPLIT_INTERVAL_DATA := listeners w SPLIT_INTERVAL_DATA @
                    [(next_function w + 3, SplitDataClosure)])\<rparr>"
    by (simp add: w1_def w2_def w3_def w4_def eval_nat_numeral)
  ultimately show ?thesis by simp
qed

subsection \<open>Listeners\<close>

lemma run_listener_general_status:
  "run_listener GeneralStatusClosure dv w =
     (case parseGeneralStatus dv False of
        Inl e \<Rightarrow> (Inr (), w\<lparr>console_errors := console_errors w @
                               [(''Error parsing general status:'', e)]\<rparr>)
      | Inr d \<Rightarrow> (Inr (), if onWorkoutData w
                           then w\<lparr>delivered := delivered w @
                                  [WorkoutData ''general_status'' (GeneralStatusData d)]\<rparr>
                           else w))"
  by (simp add: run_listener_def io_defs split: sum.splits)

lemma run_listener_additional_status:
  "run_listener AdditionalStatusClosure dv w =
     (case parseAdditionalStatus dv False of
        Inl e \<Rightarrow> (Inr (), w\<lparr>console_errors := console_errors w @
                               [(''Error parsing additional status:'', e)]\<rparr>)
      | Inr d \<Rightarrow> (Inr (), if onWorkoutData w
                           then w\<lparr>delivered := delivered w @
                                  [WorkoutData ''additional_status'' (AdditionalStatusData d)]\<rparr>
                           else w))"
  by (simp add: run_listener_def io_defs split: sum.splits)

lemma run_listener_stroke_data:
  "run_listener StrokeDataClosure dv w =
     (case parseStrokeData dv False of
        Inl e \<Rightarrow> (Inr (), w\<lparr>console_errors := console_errors w @
                               [(''Error parsing stroke data:'', e)]\<rparr>)
      | Inr d \<Rightarrow> (Inr (), if onStrokeData w
                           then w\<lparr>delivered := delivered w @ [StrokeDataEvent d]\<rparr>
                           else w))"
  by (simp add: run_listener_def io_defs split: sum.splits)

lemma run_listener_split_data:
  "run_listener SplitDataClosure dv w =
     (case parseSplitIntervalData dv False of
        Inl e \<Rightarrow> (Inr (), w\<lparr>console_errors := console_errors w @
                               [(''Error parsing split data:'', e)]\<rparr>)
      | Inr d \<Rightarrow> (Inr (), if onSplitData w
                           then w\<lparr>delivered := delivered w @ [SplitDataEvent d]\<rparr>
                           else w))"
  by (simp add: run_listener_def io_defs split: sum.splits)

lemma run_listener_characteristic:
  "run_listener (CharacteristicClosure u) dv w =
     (Inr (), if onCharacteristicData w
              then w\<lparr>delivered := delivered w @ [CharacteristicData u (clock w) dv]\<rparr>
              else w)"
  by (simp add: run_listener_def io_defs)

lemmas run_listener_simps = run_listener_general_status run_listener_additional_status
  run_listener_stroke_data run_listener_split_data run_listener_characteristic

lemma handleGeneralStatusUpdate_cases:
  "handleGeneralStatusUpdate dv w =
     (case parseGeneralStatus dv False of
        Inl e \<Rightarrow> (Inr (), w\<lparr>console_errors := console_errors w @
                               [(''Error parsing general status:'', e)]\<rparr>)
      | Inr d \<Rightarrow> (Inr (), if onWorkoutData w
                           then w\<lparr>delivered := delivered w @
                                  [WorkoutDataStamped ''general_status'' (clock w)
                                     (GeneralStatusData d)]\<rparr>
                           else w))"
  by (simp add: handleGeneralStatusUpdate_def io_defs split: sum.splits)

lemma run_listener_returns: "fst (run_listener body dv w) = Inr ()"
  by (cases body) (simp_all add: run_listener_simps split: sum.splits)

lemma call_listener_run: "call_listener dv w l = snd (run_listener (snd l) dv w)"
  using run_listener_returns [of "snd l" dv w]
  by (cases "run_listener (snd l) dv w") (simp add: call_listener_def)

lemma call_listener_console:
  "(call_listener dv (w\<lparr>console_errors := c\<rparr>) l)\<lparr>console_errors := []\<rparr> =
   (call_listener dv w l)\<lparr>console_errors := []\<rparr>"
  by (cases "snd l") (simp_all add: call_listener_run run_listener_simps split: sum.splits)

lemma console_erased_eq:
  fixes w1 w2 :: world
  assumes "w1\<lparr>console_errors := []\<rparr> = w2\<lparr>console_errors := []\<rparr>"
  shows "w1 = w2\<lparr>console_errors := console_errors w1\<rparr>"
proof -
  have "w1 = (w1\<lparr>console_errors := []\<rparr>)\<lparr>console_errors := console_errors w1\<rparr>"
    by simp
  also have "\<dots> = (w2\<lparr>console_errors := []\<rparr>)\<lparr>console_errors := console_errors w1\<rparr>"
    by (simp only: assms)
  finally show ?thesis by simp
qed

lemma foldl_call_listener_console:
  "(foldl (call_listener dv) (w\<lparr>console_errors := c\<rparr>) ls)\<lparr>console_errors := []\<rparr> =
   (foldl (call_listener dv) w ls)\<lparr>console_errors := []\<rparr>"
proof (induction ls arbitrary: w c)
  case Nil
  show ?case by simp
next
  case (Cons l ls)
  have "call_listener dv (w\<lparr>console_errors := c\<rparr>) l =
      (call_listener dv w l)
        \<lparr>console_errors := console_errors (call_listener dv (w\<lparr>console_errors := c\<rparr>) l)\<rparr>"
    by (rule console_erased_eq) (rule call_listener_console)
  then have "foldl (call_listener dv) (w\<lparr>console_errors := c\<rparr>) (l # ls) =
      foldl (call_listener dv)
        ((call_listener dv w l)
          \<lparr>console_errors := console_errors (call_listener dv (w\<lparr>console_errors := c\<rparr>) l)\<rparr>) ls"
    by simp
  then show ?case
    using Cons.IH [where w = "call_listener dv w l"
        and c = "console_errors (call_listener dv (w\<lparr>console_errors := c\<rparr>) l)"]
    by simp
qed

lemma characteristicvaluechanged_console:
  "delivered (characteristicvaluechanged u dv (w\<lparr>console_errors := c\<rparr>)) =
   delivered (characteristicvaluechanged u dv w)"
proof -
  have "(characteristicvaluechanged u dv (w\<lparr>console_errors := c\<rparr>))\<lparr>console_errors := []\<rparr> =
      (characteristicvaluechanged u dv w)\<lparr>console_errors := []\<rparr>"
    using foldl_call_listener_console [where dv = dv and w = w and c = c and ls = "listeners w u"]
    by (simp add: characteristicvaluechanged_def)
  then have "delivered ((characteristicvaluechanged u dv (w\<lparr>console_errors := c\<rparr>))
        \<lparr>console_errors := []\<rparr>) =
      delivered ((characteristicvaluechanged u dv w)\<lparr>console_errors := []\<rparr>)"
    by (simp only:)
  then show ?thesis by simp
qed

subsection \<open>A notification that does not decode\<close>

lemma run_listener_failure:
  assumes "run_listener body dv w =
      (Inr (), w\<lparr>console_errors := console_errors w @ [x]\<rparr>)"
  shows "delivered (characteristicvaluechanged u' dv' (snd (run_listener body dv w))) =
         delivered (characteristicvaluechanged u' dv' w)"
  by (simp add: assms characteristicvaluechanged_console)

lemma foldl_failing:
  assumes "\<forall>l \<in> set ls. \<forall>w. run_listener (snd l) dv w =
      (Inr (), w\<lparr>console_errors := console_errors w @ [x]\<rparr>)"
  shows "foldl (call_listener dv) w ls =
      w\<lparr>console_errors := console_errors w @ replicate (length ls) x\<rparr>"
  using assms
proof (induction ls arbitrary: w)
  case Nil
  show ?case by simp
next
  case (Cons l ls)
  have "call_listener dv w l = w\<lparr>console_errors := console_errors w @ [x]\<rparr>"
    using Cons.prems by (simp add: call_listener_run)
  then show ?case
    using Cons.IH [of "w\<lparr>console_errors := console_errors w @ [x]\<rparr>"] Cons.prems
    by (simp add: replicate_app_Cons_same)
qed

lemma dispatch_failing:
  assumes "\<forall>w. run_listener body dv w =
      (Inr (), w\<lparr>console_errors := console_errors w @ [x]\<rparr>)"
    and "\<forall>l \<in> set (listeners w u). snd l = body"
  shows "characteristicvaluechanged u dv w =
      w\<lparr>console_errors := console_errors w @ replicate (length (listeners w u)) x\<rparr>"
  unfolding characteristicvaluechanged_def
  using assms by (intro foldl_failing) simp

lemma handleGeneralStatusUpdate_failure:
  assumes "parseGeneralStatus dv False = Inl e"
  shows "delivered (characteristicvaluechanged u' dv' (snd (handleGeneralStatusUpdate dv w))) =
         delivered (characteristicvaluechanged u' dv' w)"
  by (simp add: assms handleGeneralStatusUpdate_cases characteristicvaluechanged_console)


text \<open>
  Claim C7, as amended. For every incoming notification whose decode fails, the listener
  logs the error with \<open>console.error\<close> and delivers nothing to the consumer: the class has
  no parse-error callback. The failure is recovered inside the listener: no exception
  escapes it, the world after it is the world before it with one more console entry, so
  the device state and every registered listener are unchanged, and any later
  notification, on the same or on another characteristic, is delivered exactly as it
  would have been. This holds for the four listeners of \<open>startRowingDataNotifications\<close>
  and for \<open>handleGeneralStatusUpdate\<close>; for a characteristic that carries only such
  listeners the whole dispatch adds one console entry per listener and nothing else.
\<close>

theorem decode_failure_logged_and_recovered:
  "(parseGeneralStatus dv False = Inl e \<longrightarrow>
      run_listener GeneralStatusClosure dv w =
        (Inr (), w\<lparr>console_errors := console_errors w @ [(''Error parsing general status:'', e)]\<rparr>) \<and>
      (\<forall>u' dv'. delivered (characteristicvaluechanged u' dv' (snd (run_listener GeneralStatusClosure dv w))) =
                 delivered (characteristicvaluechanged u' dv' w))) \<and>
   (parseAdditionalStatus dv False = Inl e \<longrightarrow>
      run_listener AdditionalStatusClosure dv w =
        (Inr (), w\<lparr>console_errors := console_errors w @ [(''Error parsing additional status:'', e)]\<rparr>) \<and>
      (\<forall>u' dv'. delivered (characteristicvaluechanged u' dv' (snd (run_listener AdditionalStatusClosure dv w))) =
                 delivered (characteristicvaluechanged u' dv' w))) \<and>
   (parseStrokeData dv False = Inl e \<longrightarrow>
      run_listener StrokeDataClosure dv w =
        (Inr (), w\<lparr>console_errors := console_errors w @ [(''Error parsing stroke data:'', e)]\<rparr>) \<and>
      (\<forall>u' dv'. delivered (characteristicvaluechanged u' dv' (snd (run_listener StrokeDataClosure dv w))) =
                 delivered (characteristicvaluechanged u' dv' w))) \<and>
   (parseSplitIntervalData dv False = Inl e \<longrightarrow>
      run_listener SplitDataClosure dv w =
        (Inr (), w\<lparr>console_errors := console_errors w @ [(''Error parsing split data:'', e)]\<rparr>) \<and>
      (\<forall>u' dv'. delivered (characteristicvaluechanged u' dv' (snd (run_listener SplitDataClosure dv w))) =
                 delivered (characteristicvaluechanged u' dv' w))) \<and>
   (parseGeneralStatus dv False = Inl e \<longrightarrow>
      handleGeneralStatusUpdate dv w =
        (Inr (), w\<lparr>console_errors := console_errors w @ [(''Error parsing general status:'', e)]\<rparr>) \<and>
      (\<forall>u' dv'. delivered (characteristicvaluechanged u' dv' (snd (handleGeneralStatusUpdate dv w))) =
                 delivered (characteristicvaluechanged u' dv' w))) \<and>
   (parseGeneralStatus dv False = Inl e \<and>
      (\<forall>l \<in> set (listeners w GENERAL_STATUS). snd l = GeneralStatusClosure) \<longrightarrow>
      characteristicvaluechanged GENERAL_STATUS dv w =
        w\<lparr>console_errors := console_errors w @
            replicate (length (listeners w GENERAL_STATUS)) (''Error parsing general status:'', e)\<rparr>) \<and>
   (parseAdditionalStatus dv False = Inl e \<and>
      (\<forall>l \<in> set (listeners w ADDITIONAL_STATUS). snd l = AdditionalStatusClosure) \<longrightarrow>
      characteristicvaluechanged ADDITIONAL_STATUS dv w =
        w\<lparr>console_errors := console_errors w @
            replicate (length (listeners w ADDITIONAL_STATUS)) (''Error parsing additional status:'', e)\<rparr>) \<and>
   (parseStrokeData dv False = Inl e \<and>
      (\<forall>l \<in> set (listeners w STROKE_DATA). snd l = StrokeDataClosure) \<longrightarrow>
      characteristicvaluechanged STROKE_DATA dv w =
        w\<lparr>console_errors := console_errors w @
            replicate (length (listeners w STROKE_DATA)) (''Error parsing stroke data:'', e)\<rparr>) \<and>
   (parseSplitIntervalData dv False = Inl e \<and>
      (\<forall>l \<in> set (listeners w SPLIT_INTERVAL_DATA). snd l = SplitDataClosure) \<longrightarrow>
      characteristicvaluechanged SPLIT_INTERVAL_DATA dv w =
        w\<lparr>console_errors := console_errors w @
            replicate (length (listeners w SPLIT_INTERVAL_DATA)) (''Error parsing split data:'', e)\<rparr>) \<and>
   (\<forall>body dv'. fst (run_listener body dv' w) = Inr ()) \<and>
   fst (handleGeneralStatusUpdate dv w) = Inr ()"
proof -
  have r0: "(parseGeneralStatus dv False = Inl e \<longrightarrow>
      run_listener GeneralStatusClosure dv w =
        (Inr (), w\<lparr>console_errors := console_errors w @ [(''Error parsing general status:'', e)]\<rparr>) \<and>
      (\<forall>u' dv'. delivered (characteristicvaluechanged u' dv' (snd (run_listener GeneralStatusClosure dv w))) =
                 delivered (characteristicvaluechanged u' dv' w)))"
    using run_listener_failure [of GeneralStatusClosure dv w]
    by (simp add: run_listener_simps)
  have r1: "(parseAdditionalStatus dv False = Inl e \<longrightarrow>
      run_listener AdditionalStatusClosure dv w =
        (Inr (), w\<lparr>console_errors := console_errors w @ [(''Error parsing additional status:'', e)]\<rparr>) \<and>
      (\<forall>u' dv'. delivered (characteristicvaluechanged u' dv' (snd (run_listener AdditionalStatusClosure dv w))) =
                 delivered (characteristicvaluechanged u' dv' w)))"
    using run_listener_failure [of AdditionalStatusClosure dv w]
    by (simp add: run_listener_simps)
  have r2: "(parseStrokeData dv False = Inl e \<longrightarrow>
      run_listener StrokeDataClosure dv w =
        (Inr (), w\<lparr>console_errors := console_errors w @ [(''Error parsing stroke data:'', e)]\<rparr>) \<and>
      (\<forall>u' dv'. delivered (characteristicvaluechanged u' dv' (snd (run_listener StrokeDataClosure dv w))) =
                 delivered (characteristicvaluechanged u' dv' w)))"
    using run_listener_failure [of StrokeDataClosure dv w]
    by (simp add: run_listener_simps)
  have r3: "(parseSplitIntervalData dv False = Inl e \<longrightarrow>
      run_listener SplitDataClosure dv w =
        (Inr (), w\<lparr>console_errors := console_errors w @ [(''Error parsing split data:'', e)]\<rparr>) \<and>
      (\<forall>u' dv'. delivered (characteristicvaluechanged u' dv' (snd (run_listener SplitDataClosure dv w))) =
                 delivered (characteristicvaluechanged u' dv' w)))"
    using run_listener_failure [of SplitDataClosure dv w]
    by (simp add: run_listener_simps)
  have r4: "(parseGeneralStatus dv False = Inl e \<longrightarrow>
      handleGeneralStatusUpdate dv w =
        (Inr (), w\<lparr>console_errors := console_errors w @ [(''Error parsing general status:'', e)]\<rparr>) \<and>
      (\<forall>u' dv'. delivered (characteristicvaluechanged u' dv' (snd (handleGeneralStatusUpdate dv w))) =
                 delivered (characteristicvaluechanged u' dv' w)))"
    using handleGeneralStatusUpdate_failure [of dv _ _ _ w]
    by (simp add: handleGeneralStatusUpdate_cases)
  have d0: "(parseGeneralStatus dv False = Inl e \<and>
      (\<forall>l \<in> set (listeners w GENERAL_STATUS). snd l = GeneralStatusClosure) \<longrightarrow>
      characteristicvaluechanged GENERAL_STATUS dv w =
        w\<lparr>console_errors := console_errors w @
            replicate (length (listeners w GENERAL_STATUS)) (''Error parsing general status:'', e)\<rparr>)"
    using dispatch_failing [of GeneralStatusClosure dv _ w GENERAL_STATUS]
    by (simp add: run_listener_simps)
  have d1: "(parseAdditionalStatus dv False = Inl e \<and>
      (\<forall>l \<in> set (listeners w ADDITIONAL_STATUS). snd l = AdditionalStatusClosure) \<longrightarrow>
      characteristicvaluechanged ADDITIONAL_STATUS dv w =
        w\<lparr>console_errors := console_errors w @
            replicate (length (listeners w ADDITIONAL_STATUS)) (''Error parsing additional status:'', e)\<rparr>)"
    using dispatch_failing [of AdditionalStatusClosure dv _ w ADDITIONAL_STATUS]
    by (simp add: run_listener_simps)
  have d2: "(parseStrokeData dv False = Inl e \<and>
      (\<forall>l \<in> set (listeners w STROKE_DATA). snd l = StrokeDataClosure) \<longrightarrow>
      characteristicvaluechanged STROKE_DATA dv w =
        w\<lparr>console_errors := console_errors w @
            replicate (length (listeners w STROKE_DATA)) (''Error parsing stroke data:'', e)\<rparr>)"
    using dispatch_failing [of StrokeDataClosure dv _ w STROKE_DATA]
    by (simp add: run_listener_simps)
  have d3: "(parseSplitIntervalData dv False = Inl e \<and>
      (\<forall>l \<in> set (listeners w SPLIT_INTERVAL_DATA). snd l = SplitDataClosure) \<longrightarrow>
      characteristicvaluechanged SPLIT_INTERVAL_DATA dv w =
        w\<lparr>console_errors := console_errors w @
            replicate (length (listeners w SPLIT_INTERVAL_DATA)) (''Error parsing split data:'', e)\<rparr>)"
    using dispatch_failing [of SplitDataClosure dv _ w SPLIT_INTERVAL_DATA]
    by (simp add: run_listener_simps)
  have n: "(\<forall>body dv'. fst (run_listener body dv' w) = Inr ())"
    by (simp add: run_listener_returns)
  have h: "fst (handleGeneralStatusUpdate dv w) = Inr ()"
    by (simp add: handleGeneralStatusUpdate_cases split: sum.splits)
  show ?thesis
    by (intro conjI; fact)
qed

theorem decode_failure_logged_and_recovered_witness:
  "parseGeneralStatus [0x01, 0x02, 0x03] False =
     Inl (InvalidDataLength ''general status'' 3 19) \<and>
   listeners demo_streaming GENERAL_STATUS = [(0, GeneralStatusClosure)] \<and>
   characteristicvaluechanged GENERAL_STATUS [0x01, 0x02, 0x03] demo_streaming =
     demo_streaming\<lparr>console_errors :=
       [(''Error parsing general status:'', InvalidDataLength ''general status'' 3 19)]\<rparr> \<and>
   delivered (characteristicvaluechanged GENERAL_STATUS example_frame
     (characteristicvaluechanged GENERAL_STATUS [0x01, 0x02, 0x03] demo_streaming)) =
     delivered (characteristicvaluechanged GENERAL_STATUS example_frame demo_streaming) \<and>
   delivered (characteristicvaluechanged GENERAL_STATUS example_frame demo_streaming) =
     [WorkoutData ''general_status'' (GeneralStatusData
        \<lparr> elapsed_time = 1, distance = 100, workout_type = 1, interval_type = 0,
          workout_state = 1, rowing_state = 1, stroke_state = 2,
          total_work_distance = 0, workout_duration = 0, workout_duration_type = 0,
          drag_factor = 115 \<rparr>)]"
proof -
  have p: "parseGeneralStatus [0x01, 0x02, 0x03] False =
     Inl (InvalidDataLength ''general status'' 3 19)"
    by code_simp
  have ls: "listeners demo_streaming GENERAL_STATUS = [(0, GeneralStatusClosure)]"
    by code_simp
  have c: "console_errors demo_streaming = []"
    by code_simp
  have good: "delivered (characteristicvaluechanged GENERAL_STATUS example_frame demo_streaming) =
     [WorkoutData ''general_status'' (GeneralStatusData
        \<lparr> elapsed_time = 1, distance = 100, workout_type = 1, interval_type = 0,
          workout_state = 1, rowing_state = 1, stroke_state = 2,
          total_work_distance = 0, workout_duration = 0, workout_duration_type = 0,
          drag_factor = 115 \<rparr>)]"
    by code_simp
  note t = decode_failure_logged_and_recovered [of "[0x01, 0x02, 0x03]"
      "InvalidDataLength ''general status'' 3 19" demo_streaming]
  have all: "\<forall>l \<in> set (listeners demo_streaming GENERAL_STATUS). snd l = GeneralStatusClosure"
    by (simp add: ls)
  have bad: "characteristicvaluechanged GENERAL_STATUS [0x01, 0x02, 0x03] demo_streaming =
     demo_streaming\<lparr>console_errors :=
       [(''Error parsing general status:'', InvalidDataLength ''general status'' 3 19)]\<rparr>"
    using t [THEN conjunct2, THEN conjunct2, THEN conjunct2, THEN conjunct2, THEN conjunct2,
        THEN conjunct1] p all
    by (simp add: ls c)
  have later: "delivered (characteristicvaluechanged GENERAL_STATUS example_frame
     (characteristicvaluechanged GENERAL_STATUS [0x01, 0x02, 0x03] demo_streaming)) =
     delivered (characteristicvaluechanged GENERAL_STATUS example_frame demo_streaming)"
    by (simp only: bad characteristicvaluechanged_console)
  show ?thesis
    by (intro conjI p ls bad later good)
qed

text \<open>
  Claim C7 as stated has the session emit a structured parse-error event. On the demo
  device, with every callback of the class attached and the rowing notifications started,
  a three-byte general status notification delivers nothing at all to the consumer; the
  only trace is the \<open>console.error\<close> entry.
\<close>

theorem decode_failure_emits_no_event:
  "onDisconnected demo_streaming \<and> onWorkoutData demo_streaming \<and>
   onStrokeData demo_streaming \<and> onSplitData demo_streaming \<and>
   onCharacteristicData demo_streaming \<and>
   delivered demo_streaming = [] \<and>
   delivered (characteristicvaluechanged GENERAL_STATUS [0x01, 0x02, 0x03] demo_streaming) = [] \<and>
   console_errors (characteristicvaluechanged GENERAL_STATUS [0x01, 0x02, 0x03] demo_streaming) =
     [(''Error parsing general status:'', InvalidDataLength ''general status'' 3 19)]"
  by code_simp

subsection \<open>Subscribing twice\<close>

lemma connect_frame:
  "listeners (snd (connect w)) = listeners w \<and> next_function (snd (connect w)) = next_function w"
  by (simp add: connect_def getServices_def gatt_connect_def getPrimaryService_def io_defs)

lemma demo_connected_registered: "registered_before_next demo_connected"
  by (simp add: registered_before_next_def demo_connected_def connect_frame)
    (simp add: demo_device_def new_PM5Device_def)

lemma subscribe_first:
  assumes "link_up w" "u \<in> set (notifyCapableCharacteristics w)"
    and "activeCharacteristicSubscription w = None"
    and "(next_function w, CharacteristicClosure u) \<notin> set (listeners w u)"
  shows "subscribeToCharacteristic u w =
     (Inr True,
      w\<lparr>notifying := (notifying w)(u := True),
        next_function := Suc (next_function w),
        listeners := (listeners w)
          (u := listeners w u @ [(next_function w, CharacteristicClosure u)]),
        activeCharacteristicSubscription := Some (u, (next_function w, CharacteristicClosure u))\<rparr>)"
  using assms
  by (simp add: subscribeToCharacteristic_def io_defs startNotifications_def
      arrow_function_def addEventListener_def)

lemma unsubscribe_active:
  assumes "link_up w" "activeCharacteristicSubscription w = Some (u, h)"
  shows "unsubscribeFromCharacteristic w =
     (Inr (),
      w\<lparr>listeners := (listeners w)(u := removeAll h (listeners w u)),
        notifying := (notifying w)(u := False),
        activeCharacteristicSubscription := None\<rparr>)"
  using assms
  by (simp add: unsubscribeFromCharacteristic_def io_defs removeEventListener_def
      stopNotifications_def)

lemma subscribe_again:
  assumes "link_up w" "u \<in> set (notifyCapableCharacteristics w)"
    and "activeCharacteristicSubscription w = Some (u, h)"
    and "listeners w u = [h]" "fst h < next_function w"
  shows "subscribeToCharacteristic u w =
     (Inr True,
      w\<lparr>notifying := (notifying w)(u := True),
        next_function := Suc (next_function w),
        listeners := (listeners w)(u := [(next_function w, CharacteristicClosure u)]),
        activeCharacteristicSubscription := Some (u, (next_function w, CharacteristicClosure u))\<rparr>)"
  using assms
  by (simp add: subscribeToCharacteristic_def unsubscribe_active io_defs startNotifications_def
      arrow_function_def addEventListener_def)


lemma subscribe_twice:
  assumes "link_up w" "u \<in> set (notifyCapableCharacteristics w)"
    and "activeCharacteristicSubscription w = None" "listeners w u = []"
  shows "fst (subscribeToCharacteristic u w) = Inr True \<and>
     fst (subscribeToCharacteristic u (snd (subscribeToCharacteristic u w))) = Inr True \<and>
     listeners (snd (subscribeToCharacteristic u w)) u =
       [(next_function w, CharacteristicClosure u)] \<and>
     listeners (snd (subscribeToCharacteristic u (snd (subscribeToCharacteristic u w)))) u =
       [(Suc (next_function w), CharacteristicClosure u)] \<and>
     activeCharacteristicSubscription
         (snd (subscribeToCharacteristic u (snd (subscribeToCharacteristic u w)))) =
       Some (u, (Suc (next_function w), CharacteristicClosure u)) \<and>
     (\<forall>dv. delivered (characteristicvaluechanged u dv
              (snd (subscribeToCharacteristic u (snd (subscribeToCharacteristic u w))))) =
           delivered w @ (if onCharacteristicData w
                          then [CharacteristicData u (clock w) dv] else []))"
proof -
  define h where "h = (next_function w, CharacteristicClosure u)"
  define w1 where "w1 = w\<lparr>notifying := (notifying w)(u := True),
        next_function := Suc (next_function w),
        listeners := (listeners w)(u := listeners w u @ [h]),
        activeCharacteristicSubscription := Some (u, h)\<rparr>"
  have s1: "subscribeToCharacteristic u w = (Inr True, w1)"
    using assms by (simp add: subscribe_first w1_def h_def)
  define w2 where "w2 = w1\<lparr>notifying := (notifying w1)(u := True),
        next_function := Suc (next_function w1),
        listeners := (listeners w1)(u := [(next_function w1, CharacteristicClosure u)]),
        activeCharacteristicSubscription :=
          Some (u, (next_function w1, CharacteristicClosure u))\<rparr>"
  have s2: "subscribeToCharacteristic u w1 = (Inr True, w2)"
    unfolding w2_def
    using assms by (intro subscribe_again [where h = h]) (simp_all add: w1_def h_def)
  have d: "delivered (characteristicvaluechanged u dv w2) =
      delivered w @ (if onCharacteristicData w then [CharacteristicData u (clock w) dv] else [])"
    for dv
    by (simp add: characteristicvaluechanged_def call_listener_run run_listener_characteristic
        w2_def w1_def)
  show ?thesis
    using assms(4) d by (simp add: s1 s2) (simp add: w1_def w2_def h_def)
qed

lemma registered_before_next_started:
  assumes "registered_before_next w"
  shows "registered_before_next
     (w\<lparr>notifying := a, next_function := next_function w + 4,
        listeners := (listeners w)
          (GENERAL_STATUS := listeners w GENERAL_STATUS @
             [(next_function w, GeneralStatusClosure)],
           ADDITIONAL_STATUS := listeners w ADDITIONAL_STATUS @
             [(next_function w + 1, AdditionalStatusClosure)],
           STROKE_DATA := listeners w STROKE_DATA @
             [(next_function w + 2, StrokeDataClosure)],
           SPLIT_INTERVAL_DATA := listeners w SPLIT_INTERVAL_DATA @
             [(next_function w + 3, SplitDataClosure)])\<rparr>)"
  using assms by (fastforce simp add: registered_before_next_def)

lemma start_twice:
  assumes "ROWING \<in> services w" "link_up w"
    and "has_characteristic w ROWING GENERAL_STATUS"
    and "has_characteristic w ROWING ADDITIONAL_STATUS"
    and "has_characteristic w ROWING STROKE_DATA"
    and "has_characteristic w ROWING SPLIT_INTERVAL_DATA"
    and "registered_before_next w"
  shows "fst (startRowingDataNotifications w) = Inr () \<and>
     fst (startRowingDataNotifications (snd (startRowingDataNotifications w))) = Inr () \<and>
     listeners (snd (startRowingDataNotifications (snd (startRowingDataNotifications w))))
         GENERAL_STATUS =
       listeners w GENERAL_STATUS @
         [(next_function w, GeneralStatusClosure), (next_function w + 4, GeneralStatusClosure)] \<and>
     (\<forall>dv d. listeners w GENERAL_STATUS = [] \<and> onWorkoutData w \<and>
        parseGeneralStatus dv False = Inr d \<longrightarrow>
        delivered (characteristicvaluechanged GENERAL_STATUS dv
          (snd (startRowingDataNotifications (snd (startRowingDataNotifications w))))) =
        delivered w @ [WorkoutData ''general_status'' (GeneralStatusData d),
                       WorkoutData ''general_status'' (GeneralStatusData d)])"
proof -
  define w1 where "w1 = w\<lparr>notifying := (notifying w)
                 (GENERAL_STATUS := True, ADDITIONAL_STATUS := True, STROKE_DATA := True,
                  SPLIT_INTERVAL_DATA := True),
               next_function := next_function w + 4,
               listeners := (listeners w)
                 (GENERAL_STATUS := listeners w GENERAL_STATUS @
                    [(next_function w, GeneralStatusClosure)],
                  ADDITIONAL_STATUS := listeners w ADDITIONAL_STATUS @
                    [(next_function w + 1, AdditionalStatusClosure)],
                  STROKE_DATA := listeners w STROKE_DATA @
                    [(next_function w + 2, StrokeDataClosure)],
                  SPLIT_INTERVAL_DATA := listeners w SPLIT_INTERVAL_DATA @
                    [(next_function w + 3, SplitDataClosure)])\<rparr>"
  have s1: "startRowingDataNotifications w = (Inr (), w1)"
    unfolding w1_def using assms by (rule startRowingDataNotifications_ok)
  have r1: "registered_before_next w1"
    unfolding w1_def using assms(7) by (rule registered_before_next_started)
  have f1: "ROWING \<in> services w1" "link_up w1"
    "has_characteristic w1 ROWING GENERAL_STATUS"
    "has_characteristic w1 ROWING ADDITIONAL_STATUS"
    "has_characteristic w1 ROWING STROKE_DATA"
    "has_characteristic w1 ROWING SPLIT_INTERVAL_DATA"
    using assms by (simp_all add: w1_def)
  note s2 = startRowingDataNotifications_ok [OF f1 r1]
  have l2: "listeners (snd (startRowingDataNotifications w1)) GENERAL_STATUS =
      listeners w GENERAL_STATUS @
        [(next_function w, GeneralStatusClosure), (next_function w + 4, GeneralStatusClosure)]"
    by (simp add: s2) (simp add: w1_def)
  have o2: "onWorkoutData (snd (startRowingDataNotifications w1)) = onWorkoutData w"
    "delivered (snd (startRowingDataNotifications w1)) = delivered w"
    by (simp_all add: s2) (simp_all add: w1_def)
  have d: "delivered (characteristicvaluechanged GENERAL_STATUS dv
          (snd (startRowingDataNotifications w1))) =
        delivered w @ [WorkoutData ''general_status'' (GeneralStatusData d),
                       WorkoutData ''general_status'' (GeneralStatusData d)]"
    if "listeners w GENERAL_STATUS = []" "onWorkoutData w" "parseGeneralStatus dv False = Inr d"
    for dv d
    using that o2
    by (simp add: characteristicvaluechanged_def l2 call_listener_run run_listener_general_status)
  show ?thesis
    using l2 d by (simp add: s1) (simp add: s2)
qed

lemma demo_connected_rowing:
  "ROWING \<in> services demo_connected \<and> link_up demo_connected \<and>
   has_characteristic demo_connected ROWING GENERAL_STATUS \<and>
   has_characteristic demo_connected ROWING ADDITIONAL_STATUS \<and>
   has_characteristic demo_connected ROWING STROKE_DATA \<and>
   has_characteristic demo_connected ROWING SPLIT_INTERVAL_DATA"
  by code_simp

lemma demo_connected_fields:
  "next_function demo_connected = 0" "listeners demo_connected GENERAL_STATUS = []"
  "delivered demo_connected = []" "onWorkoutData demo_connected"
  by code_simp+

lemma demo_discovered_fields:
  "link_up demo_discovered \<and>
   STROKE_DATA \<in> set (notifyCapableCharacteristics demo_discovered) \<and>
   activeCharacteristicSubscription demo_discovered = None \<and>
   listeners demo_discovered STROKE_DATA = []"
  "next_function demo_discovered = 0" "delivered demo_discovered = []"
  "onCharacteristicData demo_discovered" "clock demo_discovered = 0"
  by code_simp+

lemma example_frame_parsed:
  "parseGeneralStatus example_frame False =
     Inr \<lparr> elapsed_time = 1, distance = 100, workout_type = 1, interval_type = 0,
           workout_state = 1, rowing_state = 1, stroke_state = 2,
           total_work_distance = 0, workout_duration = 0, workout_duration_type = 0,
           drag_factor = 115 \<rparr>"
  by code_simp

lemma demo_connected_start_hyps:
  "ROWING \<in> services demo_connected \<and> link_up demo_connected \<and>
   has_characteristic demo_connected ROWING GENERAL_STATUS \<and>
   has_characteristic demo_connected ROWING ADDITIONAL_STATUS \<and>
   has_characteristic demo_connected ROWING STROKE_DATA \<and>
   has_characteristic demo_connected ROWING SPLIT_INTERVAL_DATA \<and>
   registered_before_next demo_connected"
  using demo_connected_rowing demo_connected_registered by (simp only: simp_thms)


text \<open>
  Claim C5, as amended. With the link up and no subscription active on a discovered
  characteristic, calling \<open>subscribeToCharacteristic\<close> twice for that characteristic raises
  no error on either call and leaves exactly one active subscription with exactly one
  registered listener, so a single incoming notification on it produces exactly one
  delivery to the consumer, not two. The second call is not a no-op: it unsubscribes and
  subscribes again, the listener left is a new function object, and the call returns
  \<open>true\<close>, not an existing handle. \<open>startRowingDataNotifications\<close> keeps no record of what it
  started: on a connected device each call succeeds and registers one more listener on
  each of its characteristics, so after two calls a single general status notification
  produces two deliveries.
\<close>

theorem subscribe_twice_one_delivery_start_twice_two:
  "(link_up w \<and> u \<in> set (notifyCapableCharacteristics w) \<and>
    activeCharacteristicSubscription w = None \<and> listeners w u = [] \<longrightarrow>
      fst (subscribeToCharacteristic u w) = Inr True \<and>
      fst (subscribeToCharacteristic u (snd (subscribeToCharacteristic u w))) = Inr True \<and>
      listeners (snd (subscribeToCharacteristic u w)) u =
        [(next_function w, CharacteristicClosure u)] \<and>
      listeners (snd (subscribeToCharacteristic u (snd (subscribeToCharacteristic u w)))) u =
        [(Suc (next_function w), CharacteristicClosure u)] \<and>
      activeCharacteristicSubscription
          (snd (subscribeToCharacteristic u (snd (subscribeToCharacteristic u w)))) =
        Some (u, (Suc (next_function w), CharacteristicClosure u)) \<and>
      (\<forall>dv. delivered (characteristicvaluechanged u dv
               (snd (subscribeToCharacteristic u (snd (subscribeToCharacteristic u w))))) =
            delivered w @ (if onCharacteristicData w
                           then [CharacteristicData u (clock w) dv] else []))) \<and>
   (ROWING \<in> services w \<and> link_up w \<and>
    has_characteristic w ROWING GENERAL_STATUS \<and>
    has_characteristic w ROWING ADDITIONAL_STATUS \<and>
    has_characteristic w ROWING STROKE_DATA \<and>
    has_characteristic w ROWING SPLIT_INTERVAL_DATA \<and>
    registered_before_next w \<longrightarrow>
      fst (startRowingDataNotifications w) = Inr () \<and>
      fst (startRowingDataNotifications (snd (startRowingDataNotifications w))) = Inr () \<and>
      listeners (snd (startRowingDataNotifications (snd (startRowingDataNotifications w))))
          GENERAL_STATUS =
        listeners w GENERAL_STATUS @
          [(next_function w, GeneralStatusClosure), (next_function w + 4, GeneralStatusClosure)] \<and>
      (\<forall>dv d. listeners w GENERAL_STATUS = [] \<and> onWorkoutData w \<and>
         parseGeneralStatus dv False = Inr d \<longrightarrow>
         delivered (characteristicvaluechanged GENERAL_STATUS dv
           (snd (startRowingDataNotifications (snd (startRowingDataNotifications w))))) =
         delivered w @ [WorkoutData ''general_status'' (GeneralStatusData d),
                        WorkoutData ''general_status'' (GeneralStatusData d)]))"
proof -
  have a: "link_up w \<and> u \<in> set (notifyCapableCharacteristics w) \<and>
    activeCharacteristicSubscription w = None \<and> listeners w u = [] \<longrightarrow>
      fst (subscribeToCharacteristic u w) = Inr True \<and>
      fst (subscribeToCharacteristic u (snd (subscribeToCharacteristic u w))) = Inr True \<and>
      listeners (snd (subscribeToCharacteristic u w)) u =
        [(next_function w, CharacteristicClosure u)] \<and>
      listeners (snd (subscribeToCharacteristic u (snd (subscribeToCharacteristic u w)))) u =
        [(Suc (next_function w), CharacteristicClosure u)] \<and>
      activeCharacteristicSubscription
          (snd (subscribeToCharacteristic u (snd (subscribeToCharacteristic u w)))) =
        Some (u, (Suc (next_function w), CharacteristicClosure u)) \<and>
      (\<forall>dv. delivered (characteristicvaluechanged u dv
               (snd (subscribeToCharacteristic u (snd (subscribeToCharacteristic u w))))) =
            delivered w @ (if onCharacteristicData w
                           then [CharacteristicData u (clock w) dv] else []))"
  proof (rule impI)
    assume h: "link_up w \<and> u \<in> set (notifyCapableCharacteristics w) \<and>
      activeCharacteristicSubscription w = None \<and> listeners w u = []"
    show "fst (subscribeToCharacteristic u w) = Inr True \<and>
      fst (subscribeToCharacteristic u (snd (subscribeToCharacteristic u w))) = Inr True \<and>
      listeners (snd (subscribeToCharacteristic u w)) u =
        [(next_function w, CharacteristicClosure u)] \<and>
      listeners (snd (subscribeToCharacteristic u (snd (subscribeToCharacteristic u w)))) u =
        [(Suc (next_function w), CharacteristicClosure u)] \<and>
      activeCharacteristicSubscription
          (snd (subscribeToCharacteristic u (snd (subscribeToCharacteristic u w)))) =
        Some (u, (Suc (next_function w), CharacteristicClosure u)) \<and>
      (\<forall>dv. delivered (characteristicvaluechanged u dv
               (snd (subscribeToCharacteristic u (snd (subscribeToCharacteristic u w))))) =
            delivered w @ (if onCharacteristicData w
                           then [CharacteristicData u (clock w) dv] else []))"
      using h by (intro subscribe_twice) simp_all
  qed
  have b: "ROWING \<in> services w \<and> link_up w \<and>
    has_characteristic w ROWING GENERAL_STATUS \<and>
    has_characteristic w ROWING ADDITIONAL_STATUS \<and>
    has_characteristic w ROWING STROKE_DATA \<and>
    has_characteristic w ROWING SPLIT_INTERVAL_DATA \<and>
    registered_before_next w \<longrightarrow>
      fst (startRowingDataNotifications w) = Inr () \<and>
      fst (startRowingDataNotifications (snd (startRowingDataNotifications w))) = Inr () \<and>
      listeners (snd (startRowingDataNotifications (snd (startRowingDataNotifications w))))
          GENERAL_STATUS =
        listeners w GENERAL_STATUS @
          [(next_function w, GeneralStatusClosure), (next_function w + 4, GeneralStatusClosure)] \<and>
      (\<forall>dv d. listeners w GENERAL_STATUS = [] \<and> onWorkoutData w \<and>
         parseGeneralStatus dv False = Inr d \<longrightarrow>
         delivered (characteristicvaluechanged GENERAL_STATUS dv
           (snd (startRowingDataNotifications (snd (startRowingDataNotifications w))))) =
         delivered w @ [WorkoutData ''general_status'' (GeneralStatusData d),
                        WorkoutData ''general_status'' (GeneralStatusData d)])"
  proof (rule impI)
    assume h: "ROWING \<in> services w \<and> link_up w \<and>
    has_characteristic w ROWING GENERAL_STATUS \<and>
    has_characteristic w ROWING ADDITIONAL_STATUS \<and>
    has_characteristic w ROWING STROKE_DATA \<and>
    has_characteristic w ROWING SPLIT_INTERVAL_DATA \<and>
    registered_before_next w"
    show "fst (startRowingDataNotifications w) = Inr () \<and>
      fst (startRowingDataNotifications (snd (startRowingDataNotifications w))) = Inr () \<and>
      listeners (snd (startRowingDataNotifications (snd (startRowingDataNotifications w))))
          GENERAL_STATUS =
        listeners w GENERAL_STATUS @
          [(next_function w, GeneralStatusClosure), (next_function w + 4, GeneralStatusClosure)] \<and>
      (\<forall>dv d. listeners w GENERAL_STATUS = [] \<and> onWorkoutData w \<and>
         parseGeneralStatus dv False = Inr d \<longrightarrow>
         delivered (characteristicvaluechanged GENERAL_STATUS dv
           (snd (startRowingDataNotifications (snd (startRowingDataNotifications w))))) =
         delivered w @ [WorkoutData ''general_status'' (GeneralStatusData d),
                        WorkoutData ''general_status'' (GeneralStatusData d)])"
      using h by (intro start_twice) simp_all
  qed
  from a b show ?thesis
    by (rule conjI)
qed

theorem subscribe_twice_one_delivery_start_twice_two_witness:
  "(link_up demo_discovered \<and>
    STROKE_DATA \<in> set (notifyCapableCharacteristics demo_discovered) \<and>
    activeCharacteristicSubscription demo_discovered = None \<and>
    listeners demo_discovered STROKE_DATA = []) \<and>
   (fst (subscribeToCharacteristic STROKE_DATA demo_discovered) = Inr True \<and>
    fst (subscribeToCharacteristic STROKE_DATA
          (snd (subscribeToCharacteristic STROKE_DATA demo_discovered))) = Inr True \<and>
    listeners (snd (subscribeToCharacteristic STROKE_DATA
          (snd (subscribeToCharacteristic STROKE_DATA demo_discovered)))) STROKE_DATA =
      [(1, CharacteristicClosure STROKE_DATA)] \<and>
    delivered (characteristicvaluechanged STROKE_DATA [0x01, 0x02]
      (snd (subscribeToCharacteristic STROKE_DATA
          (snd (subscribeToCharacteristic STROKE_DATA demo_discovered))))) =
      [CharacteristicData STROKE_DATA 0 [0x01, 0x02]]) \<and>
   (ROWING \<in> services demo_connected \<and> link_up demo_connected \<and>
    has_characteristic demo_connected ROWING GENERAL_STATUS \<and>
    has_characteristic demo_connected ROWING ADDITIONAL_STATUS \<and>
    has_characteristic demo_connected ROWING STROKE_DATA \<and>
    has_characteristic demo_connected ROWING SPLIT_INTERVAL_DATA \<and>
    registered_before_next demo_connected) \<and>
   (fst (startRowingDataNotifications demo_connected) = Inr () \<and>
    fst (startRowingDataNotifications (snd (startRowingDataNotifications demo_connected))) =
      Inr () \<and>
    listeners (snd (startRowingDataNotifications
        (snd (startRowingDataNotifications demo_connected)))) GENERAL_STATUS =
      [(0, GeneralStatusClosure), (4, GeneralStatusClosure)])"
proof -
  note a = demo_discovered_fields(1)
  note t1 = subscribe_twice_one_delivery_start_twice_two
    [of demo_discovered STROKE_DATA, THEN conjunct1, THEN mp, OF a]
  have r1: "fst (subscribeToCharacteristic STROKE_DATA demo_discovered) = Inr True"
    by (rule t1 [THEN conjunct1])
  have r2: "fst (subscribeToCharacteristic STROKE_DATA
          (snd (subscribeToCharacteristic STROKE_DATA demo_discovered))) = Inr True"
    by (rule t1 [THEN conjunct2, THEN conjunct1])
  have r3: "listeners (snd (subscribeToCharacteristic STROKE_DATA
          (snd (subscribeToCharacteristic STROKE_DATA demo_discovered)))) STROKE_DATA =
      [(1, CharacteristicClosure STROKE_DATA)]"
    using t1 [THEN conjunct2, THEN conjunct2, THEN conjunct2, THEN conjunct1]
    by (simp only: demo_discovered_fields(2) One_nat_def)
  have r4: "delivered (characteristicvaluechanged STROKE_DATA [0x01, 0x02]
      (snd (subscribeToCharacteristic STROKE_DATA
          (snd (subscribeToCharacteristic STROKE_DATA demo_discovered))))) =
      [CharacteristicData STROKE_DATA 0 [0x01, 0x02]]"
    using t1 [THEN conjunct2, THEN conjunct2, THEN conjunct2, THEN conjunct2, THEN conjunct2,
        THEN spec, of "[0x01, 0x02]"]
    by (simp only: demo_discovered_fields(2-5) if_True append_Nil)
  note b = demo_connected_start_hyps
  note t2 = subscribe_twice_one_delivery_start_twice_two
    [of demo_connected STROKE_DATA, THEN conjunct2, THEN mp, OF b]
  have s1: "fst (startRowingDataNotifications demo_connected) = Inr ()"
    by (rule t2 [THEN conjunct1])
  have s2: "fst (startRowingDataNotifications (snd (startRowingDataNotifications demo_connected))) =
      Inr ()"
    by (rule t2 [THEN conjunct2, THEN conjunct1])
  have s3: "listeners (snd (startRowingDataNotifications
        (snd (startRowingDataNotifications demo_connected)))) GENERAL_STATUS =
      [(0, GeneralStatusClosure), (4, GeneralStatusClosure)]"
    using t2 [THEN conjunct2, THEN conjunct2, THEN conjunct1]
    by (simp only: demo_connected_fields(1,2) append_Nil add_0)
  show ?thesis
    by (intro conjI a [THEN conjunct1] a [THEN conjunct2, THEN conjunct1]
        a [THEN conjunct2, THEN conjunct2, THEN conjunct1]
        a [THEN conjunct2, THEN conjunct2, THEN conjunct2] r1 r2 r3 r4 s1 s2 s3
        demo_connected_rowing [THEN conjunct1]
        demo_connected_rowing [THEN conjunct2, THEN conjunct1]
        demo_connected_rowing [THEN conjunct2, THEN conjunct2, THEN conjunct1]
        demo_connected_rowing [THEN conjunct2, THEN conjunct2, THEN conjunct2, THEN conjunct1]
        demo_connected_rowing [THEN conjunct2, THEN conjunct2, THEN conjunct2, THEN conjunct2,
          THEN conjunct1]
        demo_connected_rowing [THEN conjunct2, THEN conjunct2, THEN conjunct2, THEN conjunct2,
          THEN conjunct2]
        demo_connected_registered)
qed


text \<open>
  Claim C5 as stated makes the second subscribe a no-op that leaves one delivery per
  notification. On the demo device, connected and with every callback attached, two calls
  of \<open>startRowingDataNotifications\<close> both succeed and leave two listeners on the general
  status characteristic; the frame of claim C1, arriving once, is delivered twice.
\<close>

theorem second_start_doubles_delivery:
  "isConnected demo_connected \<and> onWorkoutData demo_connected \<and>
   fst (startRowingDataNotifications demo_connected) = Inr () \<and>
   fst (startRowingDataNotifications demo_streaming) = Inr () \<and>
   listeners demo_streaming_twice GENERAL_STATUS =
     [(0, GeneralStatusClosure), (4, GeneralStatusClosure)] \<and>
   delivered (characteristicvaluechanged GENERAL_STATUS example_frame demo_streaming_twice) =
     [WorkoutData ''general_status'' (GeneralStatusData
        \<lparr> elapsed_time = 1, distance = 100, workout_type = 1, interval_type = 0,
          workout_state = 1, rowing_state = 1, stroke_state = 2,
          total_work_distance = 0, workout_duration = 0, workout_duration_type = 0,
          drag_factor = 115 \<rparr>),
      WorkoutData ''general_status'' (GeneralStatusData
        \<lparr> elapsed_time = 1, distance = 100, workout_type = 1, interval_type = 0,
          workout_state = 1, rowing_state = 1, stroke_state = 2,
          total_work_distance = 0, workout_duration = 0, workout_duration_type = 0,
          drag_factor = 115 \<rparr>)]"
proof -
  note b = demo_connected_start_hyps
  note t = start_twice [of demo_connected, folded demo_streaming_def demo_streaming_twice_def]
  have h: "ROWING \<in> services demo_connected" "link_up demo_connected"
    "has_characteristic demo_connected ROWING GENERAL_STATUS"
    "has_characteristic demo_connected ROWING ADDITIONAL_STATUS"
    "has_characteristic demo_connected ROWING STROKE_DATA"
    "has_characteristic demo_connected ROWING SPLIT_INTERVAL_DATA"
    "registered_before_next demo_connected"
    using b by (simp_all only: simp_thms)
  note t' = t [OF h]
  have c: "isConnected demo_connected"
    using demo_connected_ready by (simp only: simp_thms)
  have s3: "listeners demo_streaming_twice GENERAL_STATUS =
      [(0, GeneralStatusClosure), (4, GeneralStatusClosure)]"
    using t' [THEN conjunct2, THEN conjunct2, THEN conjunct1]
    by (simp only: demo_connected_fields(1,2) append_Nil add_0)
  have s4: "delivered (characteristicvaluechanged GENERAL_STATUS example_frame
      demo_streaming_twice) =
     [WorkoutData ''general_status'' (GeneralStatusData
        \<lparr> elapsed_time = 1, distance = 100, workout_type = 1, interval_type = 0,
          workout_state = 1, rowing_state = 1, stroke_state = 2,
          total_work_distance = 0, workout_duration = 0, workout_duration_type = 0,
          drag_factor = 115 \<rparr>),
      WorkoutData ''general_status'' (GeneralStatusData
        \<lparr> elapsed_time = 1, distance = 100, workout_type = 1, interval_type = 0,
          workout_state = 1, rowing_state = 1, stroke_state = 2,
          total_work_distance = 0, workout_duration = 0, workout_duration_type = 0,
          drag_factor = 115 \<rparr>)]"
    using t' [THEN conjunct2, THEN conjunct2, THEN conjunct2, rule_format, of example_frame]
      demo_connected_fields(2,4) example_frame_parsed
    by (simp only: demo_connected_fields(3) append_Nil simp_thms)
  show ?thesis
    by (intro conjI c demo_connected_fields(4) t' [THEN conjunct1]
        t' [THEN conjunct2, THEN conjunct1] s3 s4)
qed

section \<open>Session runs: proofs\<close>

subsection \<open>Quiet code\<close>

text \<open>
  No method of the class emits a \<open>Disconnected\<close> event, wherever it is suspended and
  whatever the transport answers.
\<close>

lemma quiet_segmentD:
  "quiet_segment g \<Longrightarrow> quiet (fst (g w))"
  "quiet_segment g \<Longrightarrow> disconnected_events (snd (g w)) = disconnected_events w"
  by (simp_all add: quiet_segment_def)

lemma quiet_asyncD:
  "quiet_async c \<Longrightarrow> (\<And>x. quiet_segment (k x)) \<Longrightarrow> (\<And>e. quiet_segment (h e)) \<Longrightarrow>
   quiet_segment (c k h)"
  by (simp add: quiet_async_def)

lemma quiet_asyncI:
  "(\<And>k h. (\<And>x. quiet_segment (k x)) \<Longrightarrow> (\<And>e. quiet_segment (h e)) \<Longrightarrow> quiet_segment (c k h)) \<Longrightarrow>
   quiet_async c"
  by (simp add: quiet_async_def)

lemma quiet_returnA: "quiet_async (returnA x)"
  by (rule quiet_asyncI) (simp add: returnA_def)

lemma quiet_throwA: "quiet_async (throwA e)"
  by (rule quiet_asyncI) (simp add: throwA_def)

lemma quiet_syncA_segment:
  assumes m: "quiet_io m" and k: "\<And>x. quiet_segment (k x)" and h: "\<And>e. quiet_segment (h e)"
  shows "quiet_segment (syncA m k h)"
proof -
  have "quiet (fst (syncA m k h w)) \<and>
        disconnected_events (snd (syncA m k h w)) = disconnected_events w" for w
  proof (cases "m w")
    case (Pair r w')
    from m have c: "disconnected_events w' = disconnected_events w"
      using Pair by (simp add: quiet_io_def) (metis snd_conv)
    show ?thesis
    proof (cases r)
      case (Inl e)
      with Pair c quiet_segmentD [OF h [of e], of w'] show ?thesis by (simp add: syncA_def)
    next
      case (Inr x)
      with Pair c quiet_segmentD [OF k [of x], of w'] show ?thesis by (simp add: syncA_def)
    qed
  qed
  then show ?thesis by (simp add: quiet_segment_def)
qed

lemma quiet_syncA: "quiet_io m \<Longrightarrow> quiet_async (syncA m)"
  by (rule quiet_asyncI) (rule quiet_syncA_segment)

lemma quiet_settle_segment:
  assumes m: "quiet_io m" and k: "\<And>x. quiet_segment (k x)" and h: "\<And>e. quiet_segment (h e)"
  shows "quiet_segment (settle m k h fulfilled)"
proof (cases fulfilled)
  case True
  have "settle m k h True = syncA m k h" by (rule ext) (simp add: settle_def)
  with True quiet_syncA_segment [OF m k h] show ?thesis by simp
next
  case False
  have "settle m k h False = h TransportError" by (rule ext) (simp add: settle_def)
  with False h show ?thesis by simp
qed

lemma quiet_awaitA: "quiet_io m \<Longrightarrow> quiet_async (awaitA m)"
proof (rule quiet_asyncI)
  fix k :: "'a \<Rightarrow> segment" and h :: "error \<Rightarrow> segment"
  assume m: "quiet_io m" and k: "\<And>x. quiet_segment (k x)" and h: "\<And>e. quiet_segment (h e)"
  have s: "quiet_segment (settle m k h fulfilled)" for fulfilled
    by (rule quiet_settle_segment [OF m k h])
  have "quiet (Suspended (\<lambda>fulfilled w'. snd (settle m k h fulfilled w'))
                         (\<lambda>fulfilled w'. fst (settle m k h fulfilled w')))"
    by (rule quiet.suspended) (simp_all add: quiet_segmentD [OF s])
  then show "quiet_segment (awaitA m k h)"
    by (simp add: quiet_segment_def awaitA_def)
qed

lemma quiet_yieldA: "quiet_async yieldA"
proof (rule quiet_asyncI)
  fix k :: "unit \<Rightarrow> segment" and h :: "error \<Rightarrow> segment"
  assume k: "\<And>x. quiet_segment (k x)"
  have "quiet (Suspended (\<lambda>_ w'. snd (k () w')) (\<lambda>_ w'. fst (k () w')))"
    by (rule quiet.suspended) (simp_all add: quiet_segmentD [OF k])
  then show "quiet_segment (yieldA k h)"
    by (simp add: quiet_segment_def yieldA_def)
qed

lemma quiet_bindA:
  assumes c: "quiet_async c" and f: "\<And>x. quiet_async (f x)"
  shows "quiet_async (bindA c f)"
proof (rule quiet_asyncI)
  fix k :: "'b \<Rightarrow> segment" and h :: "error \<Rightarrow> segment"
  assume k: "\<And>x. quiet_segment (k x)" and h: "\<And>e. quiet_segment (h e)"
  have "quiet_segment (c (\<lambda>x. f x k h) h)"
    by (rule quiet_asyncD [OF c]) (rule quiet_asyncD [OF f k h], rule h)
  then show "quiet_segment (bindA c f k h)" by (simp add: bindA_def)
qed

lemma quiet_thenA: "quiet_async c \<Longrightarrow> quiet_async d \<Longrightarrow> quiet_async (thenA c d)"
  by (simp add: thenA_def quiet_bindA)

lemma quiet_try_catchA:
  assumes c: "quiet_async c" and f: "\<And>e. quiet_async (f e)"
  shows "quiet_async (try_catchA c f)"
proof (rule quiet_asyncI)
  fix k :: "'a \<Rightarrow> segment" and h :: "error \<Rightarrow> segment"
  assume k: "\<And>x. quiet_segment (k x)" and h: "\<And>e. quiet_segment (h e)"
  have "quiet_segment (c k (\<lambda>e. f e k h))"
    by (rule quiet_asyncD [OF c]) (rule k, rule quiet_asyncD [OF f k h])
  then show "quiet_segment (try_catchA c f k h)" by (simp add: try_catchA_def)
qed

lemma quiet_awaited: "quiet_async c \<Longrightarrow> quiet_async (awaited c)"
  unfolding awaited_def
  by (intro quiet_try_catchA quiet_bindA quiet_thenA quiet_yieldA quiet_returnA quiet_throwA)

lemma quiet_choice:
  assumes "\<And>w. quiet_async (c w)"
  shows "quiet_async (\<lambda>k h w. c w k h w)"
proof (rule quiet_asyncI)
  fix k :: "'a \<Rightarrow> segment" and h :: "error \<Rightarrow> segment"
  assume k: "\<And>x. quiet_segment (k x)" and h: "\<And>e. quiet_segment (h e)"
  have "quiet_segment (c w k h)" for w by (rule quiet_asyncD [OF assms k h])
  then show "quiet_segment (\<lambda>w. c w k h w)" by (simp add: quiet_segment_def)
qed

lemma quiet_spawn:
  assumes c: "quiet_async c"
  shows "quiet_segment (spawn c)"
proof -
  have f: "quiet_segment (\<lambda>w. (Finished, w))"
    by (simp add: quiet_segment_def quiet.finished)
  have "quiet_segment (c (\<lambda>_ w. (Finished, w)) (\<lambda>_ w. (Finished, w)))"
    using c f by (simp add: quiet_async_def)
  then show ?thesis by (simp add: spawn_def)
qed


lemma quiet_io_primitives:
  "quiet_io (service_object s)"
  "quiet_io (characteristic_promise s u)"
  "quiet_io server_object"
  "quiet_io (getPrimaryService s)"
  "quiet_io gatt_connect"
  "quiet_io (startNotifications u)"
  "quiet_io (stopNotifications u)"
  "quiet_io (writeValue u bytes)"
  "quiet_io (arrow_function body)"
  "quiet_io (addEventListener u l)"
  "quiet_io (removeEventListener u l)"
  "quiet_io (console_error msg e)"
  "quiet_io getPrimaryServices"
  "quiet_io (getCharacteristics s)"
  by (simp_all add: quiet_io_def disconnected_events_def service_object_def
      characteristic_promise_def server_object_def getPrimaryService_def gatt_connect_def
      startNotifications_def stopNotifications_def writeValue_def arrow_function_def
      addEventListener_def removeEventListener_def console_error_def getPrimaryServices_def
      getCharacteristics_def)

lemma quiet_io_assignments:
  "quiet_io (\<lambda>w. (Inr (), w\<lparr>isConnected := b\<rparr>))"
  "quiet_io (\<lambda>w. (Inr (), w\<lparr>activeCharacteristicSubscription := a\<rparr>))"
  "quiet_io (\<lambda>w. (Inr (), w\<lparr>notifyCapableCharacteristics := n\<rparr>))"
  "quiet_io (\<lambda>w. (if P w then Inr () else Inl e, w))"
  by (simp_all add: quiet_io_def disconnected_events_def)

lemmas quiet_intros =
  quiet_returnA quiet_throwA quiet_yieldA quiet_bindA quiet_thenA quiet_try_catchA quiet_awaited
  quiet_syncA quiet_awaitA quiet_io_primitives quiet_io_assignments

lemma quiet_getCharacteristicA: "quiet_async (getCharacteristicA s u)"
  unfolding getCharacteristicA_def by (intro quiet_intros)

lemma quiet_getPrimaryServiceA: "quiet_async (getPrimaryServiceA s)"
  unfolding getPrimaryServiceA_def by (intro quiet_intros)

lemma quiet_getServicesA: "quiet_async getServicesA"
  unfolding getServicesA_def by (intro quiet_intros quiet_getPrimaryServiceA)

lemma quiet_readDeviceInformationA: "quiet_async readDeviceInformationA"
  unfolding readDeviceInformationA_def by (rule quiet_yieldA)

lemma quiet_connectA: "quiet_async connectA"
  unfolding connectA_def
  by (intro quiet_intros quiet_getServicesA quiet_readDeviceInformationA)

lemma quiet_start_streamA: "quiet_async (start_streamA u body)"
  unfolding start_streamA_def by (intro quiet_intros quiet_getCharacteristicA)

lemma quiet_startRowingDataNotificationsA: "quiet_async startRowingDataNotificationsA"
  unfolding startRowingDataNotificationsA_def by (intro quiet_intros quiet_start_streamA)

lemma quiet_stop_streamA: "quiet_async (stop_streamA u)"
  unfolding stop_streamA_def by (intro quiet_intros quiet_getCharacteristicA)

lemma quiet_stopRowingDataNotificationsA: "quiet_async stopRowingDataNotificationsA"
  unfolding stopRowingDataNotificationsA_def by (intro quiet_intros quiet_stop_streamA)

lemma quiet_sendControlBytesA: "quiet_async (sendControlBytesA hexString)"
proof (cases "length (clean_hex hexString) mod 2 \<noteq> 0")
  case True
  then have "sendControlBytesA hexString =
      try_catchA (throwA HexStringOddLength)
        (\<lambda>error. thenA (syncA (console_error ''Error sending control bytes:'' error))
                     (throwA error))"
    by (simp add: sendControlBytesA_def)
  then show ?thesis by (simp only:) (intro quiet_intros)
next
  case False
  then have "sendControlBytesA hexString =
      try_catchA
        (bindA (getCharacteristicA CONTROL TRANSMIT) (\<lambda>transmitChar.
         thenA (awaitA (writeValue transmitChar
                  (take (length (clean_hex hexString) div 2) (hex_loop (clean_hex hexString)))))
               (returnA True)))
        (\<lambda>error. thenA (syncA (console_error ''Error sending control bytes:'' error))
                     (throwA error))"
    by (simp add: sendControlBytesA_def Let_def)
  then show ?thesis by (simp only:) (intro quiet_intros quiet_getCharacteristicA)
qed

lemma quiet_unsubscribe_active:
  "quiet_async
     (try_catchA
        (thenA (syncA (removeEventListener u handler))
        (thenA (awaitA (stopNotifications u))
               (syncA (\<lambda>w. (Inr (), w\<lparr>activeCharacteristicSubscription := None\<rparr>)))))
        (\<lambda>error. thenA (syncA (console_error ''Error unsubscribing from characteristic:'' error))
                     (throwA error)))"
  by (intro quiet_intros)

lemma quiet_unsubscribeFromCharacteristicA: "quiet_async unsubscribeFromCharacteristicA"
proof -
  let ?c = "\<lambda>w. case activeCharacteristicSubscription w of
              None \<Rightarrow> returnA ()
            | Some (u, handler) \<Rightarrow>
                try_catchA
                  (thenA (syncA (removeEventListener u handler))
                  (thenA (awaitA (stopNotifications u))
                         (syncA (\<lambda>w. (Inr (), w\<lparr>activeCharacteristicSubscription := None\<rparr>)))))
                  (\<lambda>error. thenA (syncA (console_error
                       ''Error unsubscribing from characteristic:'' error)) (throwA error))"
  have eq: "unsubscribeFromCharacteristicA = (\<lambda>k h w. ?c w k h w)"
    by (intro ext) (simp add: unsubscribeFromCharacteristicA_def returnA_def split: option.split)
  have "quiet_async (?c w)" for w
    by (cases "activeCharacteristicSubscription w")
       (auto simp add: quiet_returnA quiet_unsubscribe_active)
  then have "quiet_async (\<lambda>k h w. ?c w k h w)" by (rule quiet_choice)
  with eq show ?thesis by simp
qed

lemma quiet_subscribeToCharacteristicA: "quiet_async (subscribeToCharacteristicA u)"
proof -
  let ?c = "\<lambda>w. if activeCharacteristicSubscription w \<noteq> None
                then awaited unsubscribeFromCharacteristicA else returnA ()"
  have eq: "(\<lambda>k h w. if activeCharacteristicSubscription w \<noteq> None
                       then awaited unsubscribeFromCharacteristicA k h w
                       else k () w) = (\<lambda>k h w. ?c w k h w)"
    by (intro ext) (simp add: returnA_def)
  have "quiet_async (?c w)" for w
    by (simp add: quiet_returnA quiet_awaited quiet_unsubscribeFromCharacteristicA)
  then have "quiet_async (\<lambda>k h w. ?c w k h w)" by (rule quiet_choice)
  with eq have first: "quiet_async (\<lambda>k h w. if activeCharacteristicSubscription w \<noteq> None
                       then awaited unsubscribeFromCharacteristicA k h w
                       else k () w)" by simp
  show ?thesis
    unfolding subscribeToCharacteristicA_def
    by (intro quiet_intros first)
qed

lemma quiet_discover_loop: "quiet_async (discover_loop svs notifyChars)"
proof (induction svs arbitrary: notifyChars)
  case Nil
  show ?case by (simp add: quiet_returnA)
next
  case (Cons service rest)
  show ?case
    unfolding discover_loop.simps
    by (intro quiet_intros Cons.IH)
qed

lemma quiet_discoverNotifyCapableCharacteristicsA:
  "quiet_async discoverNotifyCapableCharacteristicsA"
  unfolding discoverNotifyCapableCharacteristicsA_def
  by (intro quiet_intros quiet_discover_loop)

lemma quiet_operation_segment: "quiet_segment (operation_segment operation)"
  by (cases operation)
     (simp_all add: operation_segment_def quiet_spawn quiet_connectA quiet_getServicesA
        quiet_readDeviceInformationA quiet_startRowingDataNotificationsA
        quiet_stopRowingDataNotificationsA quiet_sendControlBytesA
        quiet_discoverNotifyCapableCharacteristicsA quiet_subscribeToCharacteristicA
        quiet_unsubscribeFromCharacteristicA)


subsection \<open>Steps of a session\<close>






lemma link_lost_device:
  "gattserverdisconnected_listeners s = [HandleDisconnected] \<Longrightarrow>
   device (session_step LinkLost s) = handleDisconnected ((device s)\<lparr>link_up := False\<rparr>)"
  by (simp add: session_step_def call_device_listener_def)

lemma session_step_frame:
  "gattserverdisconnected_listeners (session_step st s) = gattserverdisconnected_listeners s"
  by (cases st)
     (simp_all add: session_step_def settle_task_def split: prod.splits task.splits)

lemma new_session_invariant: "session_invariant (new_session svcs chars)"
  by (simp add: session_invariant_def new_session_def)

lemma quiet_SuspendedD:
  "quiet (Suspended effect rest) \<Longrightarrow> disconnected_events (effect fulfilled w) = disconnected_events w"
  "quiet (Suspended effect rest) \<Longrightarrow> quiet (rest fulfilled w)"
  by (auto elim: quiet.cases)

lemma settle_task_invariant:
  assumes "session_invariant s"
  shows "session_invariant (settle_task i fulfilled s)"
    and "disconnected_events (device (settle_task i fulfilled s)) = disconnected_events (device s)"
proof -
  from assms have l: "gattserverdisconnected_listeners s = [HandleDisconnected]"
    and q: "list_all quiet (in_flight s)" by (simp_all add: session_invariant_def)
  show "session_invariant (settle_task i fulfilled s)"
  proof (cases "i < length (in_flight s)")
    case False
    with assms show ?thesis by (simp add: settle_task_def)
  next
    case True
    with q have qi: "quiet (in_flight s ! i)" by (simp add: list_all_length)
    show ?thesis
    proof (cases "in_flight s ! i")
      case Finished
      with True assms show ?thesis by (simp add: settle_task_def)
    next
      case (Suspended effect rest)
      with qi have "quiet (rest fulfilled (device s))" by (simp add: quiet_SuspendedD)
      with q True have "list_all quiet ((in_flight s)[i := rest fulfilled (device s)])"
        by (simp add: list_all_length nth_list_update)
      with True Suspended l show ?thesis by (simp add: settle_task_def session_invariant_def)
    qed
  qed
  show "disconnected_events (device (settle_task i fulfilled s)) = disconnected_events (device s)"
  proof (cases "i < length (in_flight s)")
    case False
    then show ?thesis by (simp add: settle_task_def)
  next
    case True
    with q have qi: "quiet (in_flight s ! i)" by (simp add: list_all_length)
    show ?thesis
    proof (cases "in_flight s ! i")
      case Finished
      with True show ?thesis by (simp add: settle_task_def)
    next
      case (Suspended effect rest)
      with qi have "disconnected_events (effect fulfilled (device s)) = disconnected_events (device s)"
        by (simp add: quiet_SuspendedD)
      with True Suspended show ?thesis by (simp add: settle_task_def)
    qed
  qed
qed

lemma call_invariant:
  assumes "session_invariant s"
  shows "session_invariant (session_step (Call operation) s)"
    and "disconnected_events (device (session_step (Call operation) s)) = disconnected_events (device s)"
proof -
  obtain t w' where g: "operation_segment operation (device s) = (t, w')"
    by (cases "operation_segment operation (device s)")
  from quiet_segmentD [OF quiet_operation_segment, of operation "device s"] g
  have t: "quiet t" and w': "disconnected_events w' = disconnected_events (device s)" by simp_all
  from assms t g show "session_invariant (session_step (Call operation) s)"
    by (simp add: session_step_def session_invariant_def)
  from w' g show "disconnected_events (device (session_step (Call operation) s)) =
      disconnected_events (device s)"
    by (simp add: session_step_def)
qed

lemma session_step_invariant:
  assumes "session_invariant s"
  shows "session_invariant (session_step st s)"
proof (cases st)
  case (Call operation)
  with call_invariant(1) [OF assms] show ?thesis by simp
next
  case (Settle i fulfilled)
  with settle_task_invariant(1) [OF assms] show ?thesis by (simp add: session_step_def)
qed (use assms in \<open>simp_all add: session_step_def session_invariant_def\<close>)

lemma reachable_invariant: "reachable s \<Longrightarrow> session_invariant s"
  by (induction rule: reachable.induct) (simp_all add: new_session_invariant session_step_invariant)





subsection \<open>The methods with their awaits, run uninterrupted\<close>

text \<open>
  With every promise fulfilled and nothing in between, the methods of the session model do
  what the atomic methods do.
\<close>

lemma agreesD:
  "agrees c m \<Longrightarrow> uninterrupted (c k h) w =
     (case m w of (Inl e, w') \<Rightarrow> uninterrupted (h e) w' | (Inr x, w') \<Rightarrow> uninterrupted (k x) w')"
  by (simp add: agrees_def)

lemma agrees_returnA: "agrees (returnA x) (returnS x)"
  by (simp add: agrees_def returnA_def returnS_def)

lemma agrees_throwA: "agrees (throwA e) (throwS e)"
  by (simp add: agrees_def throwA_def throwS_def)

lemma uninterrupted_syncA:
  "uninterrupted (syncA m k h) w =
     (case m w of (Inl e, w') \<Rightarrow> uninterrupted (h e) w' | (Inr x, w') \<Rightarrow> uninterrupted (k x) w')"
  by (simp add: uninterrupted_def syncA_def split: prod.splits sum.splits)

lemma agrees_syncA: "agrees (syncA m) m"
  by (simp add: agrees_def uninterrupted_syncA)

lemma uninterrupted_awaitA: "uninterrupted (awaitA m k h) w = uninterrupted (syncA m k h) w"
  by (simp add: uninterrupted_def awaitA_def settle_def split: prod.splits)

lemma agrees_awaitA: "agrees (awaitA m) m"
  by (simp add: agrees_def uninterrupted_awaitA uninterrupted_syncA)

lemma uninterrupted_yieldA: "uninterrupted (yieldA k h) w = uninterrupted (k ()) w"
  by (simp add: uninterrupted_def yieldA_def split: prod.splits)

lemma agrees_yieldA: "agrees yieldA (returnS ())"
  by (simp add: agrees_def uninterrupted_yieldA returnS_def)

lemma agrees_bindA:
  assumes c: "agrees c m" and f: "\<And>x. agrees (f x) (g x)"
  shows "agrees (bindA c f) (bindS m g)"
proof -
  have "uninterrupted (bindA c f k h) w =
     (case bindS m g w of (Inl e, w') \<Rightarrow> uninterrupted (h e) w'
                        | (Inr x, w') \<Rightarrow> uninterrupted (k x) w')" for k h w
  proof (cases "m w")
    case (Pair r w')
    show ?thesis
    proof (cases r)
      case (Inl e)
      with Pair show ?thesis by (simp add: bindA_def bindS_def agreesD [OF c])
    next
      case (Inr x)
      with Pair show ?thesis by (simp add: bindA_def bindS_def agreesD [OF c] agreesD [OF f])
    qed
  qed
  then show ?thesis by (simp add: agrees_def)
qed

lemma agrees_thenA: "agrees c m \<Longrightarrow> agrees d n \<Longrightarrow> agrees (thenA c d) (thenS m n)"
  by (simp add: thenA_def thenS_def agrees_bindA)

lemma agrees_try_catchA:
  assumes c: "agrees c m" and f: "\<And>e. agrees (f e) (g e)"
  shows "agrees (try_catchA c f) (try_catch m g)"
proof -
  have "uninterrupted (try_catchA c f k h) w =
     (case try_catch m g w of (Inl e, w') \<Rightarrow> uninterrupted (h e) w'
                            | (Inr x, w') \<Rightarrow> uninterrupted (k x) w')" for k h w
  proof (cases "m w")
    case (Pair r w')
    show ?thesis
    proof (cases r)
      case (Inl e)
      with Pair show ?thesis by (simp add: try_catchA_def try_catch_def agreesD [OF c] agreesD [OF f])
    next
      case (Inr x)
      with Pair show ?thesis by (simp add: try_catchA_def try_catch_def agreesD [OF c])
    qed
  qed
  then show ?thesis by (simp add: agrees_def)
qed

lemma agrees_awaited:
  assumes c: "agrees c m"
  shows "agrees (awaited c) m"
proof -
  have "agrees (awaited c)
          (try_catch (bindS m (\<lambda>x. thenS (returnS ()) (returnS x)))
                     (\<lambda>e. thenS (returnS ()) (throwS e)))"
    unfolding awaited_def
    by (intro agrees_try_catchA agrees_bindA agrees_thenA agrees_yieldA agrees_returnA
          agrees_throwA c)
  moreover have "try_catch (bindS m (\<lambda>x. thenS (returnS ()) (returnS x)))
                     (\<lambda>e. thenS (returnS ()) (throwS e)) = m"
    by (rule ext) (simp add: io_defs split: prod.splits sum.splits)
  ultimately show ?thesis by simp
qed

lemma agrees_choice:
  assumes "\<And>w. agrees (c w) (m w)"
  shows "agrees (\<lambda>k h w. c w k h w) (\<lambda>w. m w w)"
proof -
  have "uninterrupted (\<lambda>w'. c w' k h w') w = uninterrupted (c w k h) w" for k h w
    by (simp add: uninterrupted_def)
  then show ?thesis using assms by (simp add: agrees_def)
qed

lemma uninterrupted_spawn:
  assumes "agrees c m"
  shows "uninterrupted (spawn c) w = snd (m w)"
proof -
  have f: "uninterrupted (\<lambda>w. (Finished, w)) w' = w'" for w'
    by (simp add: uninterrupted_def)
  have "uninterrupted (spawn c) w =
     (case m w of (Inl e, w') \<Rightarrow> uninterrupted (\<lambda>w. (Finished, w)) w'
                | (Inr x, w') \<Rightarrow> uninterrupted (\<lambda>w. (Finished, w)) w')"
    unfolding spawn_def by (rule agreesD [OF assms])
  then show ?thesis by (simp add: f split: prod.splits sum.splits)
qed

lemmas agrees_intros =
  agrees_returnA agrees_throwA agrees_yieldA agrees_bindA agrees_thenA agrees_try_catchA
  agrees_awaited agrees_syncA agrees_awaitA

lemma agrees_getCharacteristicA: "agrees (getCharacteristicA s u) (getCharacteristic s u)"
proof -
  have "agrees (getCharacteristicA s u) (thenS (service_object s) (characteristic_promise s u))"
    unfolding getCharacteristicA_def by (intro agrees_intros)
  moreover have "thenS (service_object s) (characteristic_promise s u) = getCharacteristic s u"
    by (rule ext)
       (simp add: thenS_def bindS_def service_object_def characteristic_promise_def
          getCharacteristic_def)
  ultimately show ?thesis by simp
qed

lemma agrees_start_streamA: "agrees (start_streamA u body) (start_stream u body)"
  unfolding start_streamA_def start_stream_def
  by (intro agrees_intros agrees_getCharacteristicA)

lemma agrees_startRowingDataNotificationsA:
  "agrees startRowingDataNotificationsA startRowingDataNotifications"
  unfolding startRowingDataNotificationsA_def startRowingDataNotifications_def
  by (intro agrees_intros agrees_start_streamA)

lemma agrees_sendControlBytesA: "agrees (sendControlBytesA hexString) (sendControlBytes hexString)"
proof (cases "length (clean_hex hexString) mod 2 \<noteq> 0")
  case True
  then have a: "sendControlBytesA hexString =
      try_catchA (throwA HexStringOddLength)
        (\<lambda>error. thenA (syncA (console_error ''Error sending control bytes:'' error))
                     (throwA error))"
    and b: "sendControlBytes hexString =
      try_catch (throwS HexStringOddLength)
        (\<lambda>error. thenS (console_error ''Error sending control bytes:'' error) (throwS error))"
    by (simp_all add: sendControlBytesA_def sendControlBytes_def)
  show ?thesis unfolding a b by (intro agrees_intros)
next
  case False
  then have a: "sendControlBytesA hexString =
      try_catchA
        (bindA (getCharacteristicA CONTROL TRANSMIT) (\<lambda>transmitChar.
         thenA (awaitA (writeValue transmitChar
                  (take (length (clean_hex hexString) div 2) (hex_loop (clean_hex hexString)))))
               (returnA True)))
        (\<lambda>error. thenA (syncA (console_error ''Error sending control bytes:'' error))
                     (throwA error))"
    and b: "sendControlBytes hexString =
      try_catch
        (bindS (getCharacteristic CONTROL TRANSMIT) (\<lambda>transmitChar.
         thenS (writeValue transmitChar
                  (take (length (clean_hex hexString) div 2) (hex_loop (clean_hex hexString))))
               (returnS True)))
        (\<lambda>error. thenS (console_error ''Error sending control bytes:'' error) (throwS error))"
    by (simp_all add: sendControlBytesA_def sendControlBytes_def Let_def)
  show ?thesis unfolding a b by (intro agrees_intros agrees_getCharacteristicA)
qed

lemma agrees_unsubscribeFromCharacteristicA:
  "agrees unsubscribeFromCharacteristicA unsubscribeFromCharacteristic"
proof -
  let ?c = "\<lambda>w. case activeCharacteristicSubscription w of
              None \<Rightarrow> returnA ()
            | Some (u, handler) \<Rightarrow>
                try_catchA
                  (thenA (syncA (removeEventListener u handler))
                  (thenA (awaitA (stopNotifications u))
                         (syncA (\<lambda>w. (Inr (), w\<lparr>activeCharacteristicSubscription := None\<rparr>)))))
                  (\<lambda>error. thenA (syncA (console_error
                       ''Error unsubscribing from characteristic:'' error)) (throwA error))"
  let ?m = "\<lambda>w. case activeCharacteristicSubscription w of
              None \<Rightarrow> returnS ()
            | Some (u, handler) \<Rightarrow>
                try_catch
                  (thenS (removeEventListener u handler)
                  (thenS (stopNotifications u)
                         (\<lambda>w. (Inr (), w\<lparr>activeCharacteristicSubscription := None\<rparr>))))
                  (\<lambda>error. thenS (console_error
                       ''Error unsubscribing from characteristic:'' error) (throwS error))"
  have eqc: "unsubscribeFromCharacteristicA = (\<lambda>k h w. ?c w k h w)"
    by (intro ext) (simp add: unsubscribeFromCharacteristicA_def returnA_def split: option.split)
  have eqm: "unsubscribeFromCharacteristic = (\<lambda>w. ?m w w)"
    by (intro ext) (simp add: unsubscribeFromCharacteristic_def returnS_def split: option.split)
  have "agrees (?c w) (?m w)" for w
  proof (cases "activeCharacteristicSubscription w")
    case None
    then show ?thesis by (simp add: agrees_returnA)
  next
    case (Some a)
    obtain u handler where "a = (u, handler)" by (cases a)
    with Some show ?thesis by simp (intro agrees_intros)
  qed
  then have "agrees (\<lambda>k h w. ?c w k h w) (\<lambda>w. ?m w w)" by (rule agrees_choice)
  with eqc eqm show ?thesis by simp
qed

lemma agrees_subscribeToCharacteristicA:
  "agrees (subscribeToCharacteristicA u) (subscribeToCharacteristic u)"
proof -
  let ?c = "\<lambda>w. if activeCharacteristicSubscription w \<noteq> None
                then awaited unsubscribeFromCharacteristicA else returnA ()"
  let ?m = "\<lambda>w. if activeCharacteristicSubscription w \<noteq> None
                then unsubscribeFromCharacteristic else returnS ()"
  have eqc: "(\<lambda>k h w. if activeCharacteristicSubscription w \<noteq> None
                       then awaited unsubscribeFromCharacteristicA k h w
                       else k () w) = (\<lambda>k h w. ?c w k h w)"
    by (intro ext) (simp add: returnA_def)
  have eqm: "(\<lambda>w. whenS (activeCharacteristicSubscription w \<noteq> None) unsubscribeFromCharacteristic w)
             = (\<lambda>w. ?m w w)"
    by (intro ext) (simp add: whenS_def)
  have "agrees (?c w) (?m w)" for w
    by (simp add: agrees_returnA agrees_awaited agrees_unsubscribeFromCharacteristicA)
  then have "agrees (\<lambda>k h w. ?c w k h w) (\<lambda>w. ?m w w)" by (rule agrees_choice)
  with eqc eqm have first: "agrees
     (\<lambda>k h w. if activeCharacteristicSubscription w \<noteq> None
               then awaited unsubscribeFromCharacteristicA k h w else k () w)
     (\<lambda>w. whenS (activeCharacteristicSubscription w \<noteq> None) unsubscribeFromCharacteristic w)"
    by simp
  have asg: "agrees (syncA (\<lambda>w. (Inr (), w\<lparr>activeCharacteristicSubscription := a\<rparr>)))
                    (\<lambda>w. (Inr (), w\<lparr>activeCharacteristicSubscription := a\<rparr>))" for a
    by (rule agrees_syncA)
  show ?thesis
    unfolding subscribeToCharacteristicA_def subscribeToCharacteristic_def
    by (intro agrees_intros first)
qed

lemma connect_checked:
  "try_catch
     (thenS gatt_connect
     (thenS (try_catch
               (thenS (thenS server_object (getPrimaryService INFORMATION))
               (thenS (thenS server_object (getPrimaryService CONTROL))
                      (thenS server_object (getPrimaryService ROWING))))
               (\<lambda>error. thenS (console_error ''Error getting services:'' error) (throwS error)))
     (thenS (returnS ())
            (\<lambda>w. (Inr (), w\<lparr>isConnected := True\<rparr>)))))
     (\<lambda>error. thenS (console_error ''Error connecting to PM5:'' error) (throwS error))
   = connect"
  by (rule ext)
     (simp add: connect_def getServices_def io_defs gatt_connect_def server_object_def
        getPrimaryService_def)

lemma agrees_connectA: "agrees connectA connect"
proof -
  have "agrees connectA
     (try_catch
     (thenS gatt_connect
     (thenS (try_catch
               (thenS (thenS server_object (getPrimaryService INFORMATION))
               (thenS (thenS server_object (getPrimaryService CONTROL))
                      (thenS server_object (getPrimaryService ROWING))))
               (\<lambda>error. thenS (console_error ''Error getting services:'' error) (throwS error)))
     (thenS (returnS ())
            (\<lambda>w. (Inr (), w\<lparr>isConnected := True\<rparr>)))))
     (\<lambda>error. thenS (console_error ''Error connecting to PM5:'' error) (throwS error)))"
    unfolding connectA_def getServicesA_def getPrimaryServiceA_def readDeviceInformationA_def
    by (intro agrees_intros)
  then show ?thesis by (simp only: connect_checked)
qed

lemma uninterrupted_operations:
  "uninterrupted (operation_segment Connect) w = snd (connect w)"
  "uninterrupted (operation_segment StartRowingDataNotifications) w =
     snd (startRowingDataNotifications w)"
  "uninterrupted (operation_segment (SendControlBytes hexString)) w =
     snd (sendControlBytes hexString w)"
  "uninterrupted (operation_segment (SubscribeToCharacteristic u)) w =
     snd (subscribeToCharacteristic u w)"
  "uninterrupted (operation_segment UnsubscribeFromCharacteristic) w =
     snd (unsubscribeFromCharacteristic w)"
  by (simp_all add: operation_segment_def uninterrupted_spawn agrees_connectA
        agrees_startRowingDataNotificationsA agrees_sendControlBytesA
        agrees_subscribeToCharacteristicA agrees_unsubscribeFromCharacteristicA)

subsection \<open>Link loss\<close>



text \<open>
  In every reachable session the link-loss step is the function \<open>gattserverdisconnected\<close>
  of the atomic sections on the device.
\<close>

lemma link_lost_is_gattserverdisconnected:
  "reachable s \<Longrightarrow> device (session_step LinkLost s) = gattserverdisconnected (device s)"
  using reachable_invariant [of s]
  by (simp add: session_invariant_def link_lost_device gattserverdisconnected_def)





text \<open>
  What the handler clears does not stay cleared while an operation is in flight: a
  \<open>connect\<close> that is suspended in \<open>readDeviceInformation\<close> when the link is lost resumes, logs
  no error and sets \<open>isConnected\<close> to true, with the link down and no server.
\<close>

lemma connect_in_flight_resumes_after_link_loss:
  "suspended (in_flight session_connecting ! 0) \<and>
   \<not> isConnected (device session_connecting) \<and>
   \<not> isConnected (device (run [LinkLost] session_connecting)) \<and>
   isConnected (device (run [LinkLost, Settle 0 True, Settle 0 True] session_connecting)) \<and>
   \<not> link_up (device (run [LinkLost, Settle 0 True, Settle 0 True] session_connecting)) \<and>
   \<not> server (device (run [LinkLost, Settle 0 True, Settle 0 True] session_connecting)) \<and>
   services (device (run [LinkLost, Settle 0 True, Settle 0 True] session_connecting)) = {} \<and>
   console_errors (device (run [LinkLost, Settle 0 True, Settle 0 True] session_connecting)) = []"
  by code_simp





section \<open>Claim about the command codec\<close>

lemma unat_length_byte: "n \<le> 255 \<Longrightarrow> unat (of_nat n :: byte) = n"
  by (simp only: unat_of_nat) simp

text \<open>
  Claim C8. For every command the codec accepts, and whatever the check function is,
  encoding the command and decoding the very bytes produced gives back the same opcode
  and the same parameter bytes. The codec is the one modelled from the specification
  above.
\<close>

theorem encode_decode_round_trip:
  assumes "accepted c"
  shows "\<exists>frame. encode_command check c = Inr frame \<and> decode_command check frame = Inr c"
proof -
  define bytes where "bytes = command_bytes c"
  define frame where "frame = of_nat (length bytes) # bytes @ [check bytes]"
  have len: "length bytes \<le> 255" "0 < length bytes"
    using assms by (simp_all add: accepted_def bytes_def command_bytes_def)
  have n: "unat (frame ! 0) = length bytes"
    using len(1) by (simp add: frame_def unat_length_byte)
  have enc: "encode_command check c = Inr frame"
    using assms by (simp add: encode_command_def frame_def bytes_def)
  have t: "take (length bytes) (drop (Suc 0) frame) = bytes"
    by (simp add: frame_def)
  have k: "frame ! Suc (length bytes) = check bytes"
    by (simp add: frame_def nth_append)
  have l: "length frame = length bytes + 2"
    by (simp add: frame_def)
  have "decode_command check frame = Inr \<lparr> opcode = hd bytes, parameters = tl bytes \<rparr>"
    using len by (simp add: decode_command_def n t k l Let_def)
  moreover have "\<lparr> opcode = hd bytes, parameters = tl bytes \<rparr> = c"
    by (simp add: bytes_def command_bytes_def)
  ultimately show ?thesis
    using enc by simp
qed

theorem encode_decode_round_trip_witness:
  "accepted \<lparr>opcode = 0x76, parameters = [0x01, 0x02, 0x03]\<rparr> \<and>
   encode_command xor_check \<lparr>opcode = 0x76, parameters = [0x01, 0x02, 0x03]\<rparr> =
     Inr [0x04, 0x76, 0x01, 0x02, 0x03, 0x76] \<and>
   decode_command xor_check [0x04, 0x76, 0x01, 0x02, 0x03, 0x76] =
     Inr \<lparr>opcode = 0x76, parameters = [0x01, 0x02, 0x03]\<rparr>"
proof -
  have a: "accepted \<lparr>opcode = 0x76, parameters = [0x01, 0x02, 0x03]\<rparr>"
    by (simp add: accepted_def command_bytes_def)
  have e: "encode_command xor_check \<lparr>opcode = 0x76, parameters = [0x01, 0x02, 0x03]\<rparr> =
     Inr [0x04, 0x76, 0x01, 0x02, 0x03, 0x76]"
    by (simp add: encode_command_def accepted_def command_bytes_def xor_check_def)
  from encode_decode_round_trip [OF a, of xor_check] e a show ?thesis
    by auto
qed

end
